theory Spec2Isabelle
  imports
    Main
    "HOL-Library.AList"
    "HOL-Library.Multiset"
    "HOL-Library.Char_ord"
    "HOL-Library.List_Lexorder"
begin

section \<open>JSON mapping structures of package openapi3: decode and encode contracts\<close>

text \<open>
  The Go package maps OpenAPI 3.0 documents to structs. Every node type carries a generated
  \<^verbatim>\<open>UnmarshalJSON\<close> and \<^verbatim>\<open>MarshalJSON\<close>; the encoders all end in \<^verbatim>\<open>marshalUnion\<close>.
  This theory embeds the functions named below, one HOL definition per Go function, and
  proves the properties of the decode and encode contract on them.

  What belongs to the Go standard library is modelled as follows.
  \<^item> A payload handed to \<^verbatim>\<open>UnmarshalJSON\<close> is valid JSON text (\<^verbatim>\<open>json.Unmarshal\<close> checks
    that before it calls any method). It is represented by its syntax tree, type \<open>json\<close>.
    Number and string tokens keep their text as written; \<open>raw\<close> writes a tree back without
    insignificant white space, which is what a \<^verbatim>\<open>json.RawMessage\<close> of a compactly written
    payload holds. Escape sequences inside strings are not interpreted.
  \<^item> A value of type \<^verbatim>\<open>interface{}\<close> that came from JSON is represented by the tree it prints
    as. Decoding into \<^verbatim>\<open>interface{}\<close> converts numbers to \<^verbatim>\<open>float64\<close> and can fail there, so
    that call is a parameter, written \<open>any\<close> below.
  \<^item> Go ranges over a map in an order the runtime chooses. That choice is the parameter
    \<open>rng\<close>: it lists the entries of a map in the order of one \<^verbatim>\<open>range\<close> loop.
  \<^item> Decoding the \<^verbatim>\<open>json\<close>-tagged fields of the large structs (\<^verbatim>\<open>marshalSpec\<close>,
    \<^verbatim>\<open>marshalParameter\<close>) is reflection over some forty node types. The member loop of
    \<^verbatim>\<open>encoding/json\<close> is modelled (members in payload order, an error of an \<^verbatim>\<open>UnmarshalJSON\<close>
    method ends it, a conversion error is saved and returned at the end); what one member
    does to the tagged fields is a parameter, written \<open>decf\<close>, and the tagged fields are kept
    together as one component \<open>Known\<close>. The small structs are decoded field by field as
    \<^verbatim>\<open>encoding/json\<close> does, names matched exactly or under case folding.
  \<^item> An \<^verbatim>\<open>UnmarshalJSON\<close> method returns the error, or the value its receiver holds after a nil
    return. The generated decoders work on a shallow copy and assign it to the receiver at
    the end; after an error the receiver struct has not been assigned, but cells it shares
    with the copy through non-nil pointers may have been written. Of these only the
    extension maps are represented, in the heap below.
  \<^item> \<^verbatim>\<open>map[string]interface{}\<close> is a reference type. The extension maps live in a heap, and
    a struct field holds \<open>None\<close> (nil) or the address of a map, so that copying a struct
    shares the map as it does in Go.
\<close>

subsection \<open>JSON text, raw messages and errors\<close>

type_synonym bytes = string

datatype json =
    JNull
  | JBool bool
  | JNumber string
  | JString string
  | JArray "json list"
  | JObject "(string \<times> json) list"

fun intercalate :: "string \<Rightarrow> string list \<Rightarrow> string" where
  "intercalate sep [] = []"
| "intercalate sep [x] = x"
| "intercalate sep (x # y # ys) = x @ sep @ intercalate sep (y # ys)"

definition quote :: "string \<Rightarrow> bytes" where
  "quote s = ''\"'' @ s @ ''\"''"

fun raw :: "json \<Rightarrow> bytes"
  and raw_member :: "string \<times> json \<Rightarrow> bytes" where
  "raw JNull = ''null''"
| "raw (JBool b) = (if b then ''true'' else ''false'')"
| "raw (JNumber s) = s"
| "raw (JString s) = quote s"
| "raw (JArray xs) = ''['' @ intercalate '','' (map raw xs) @ '']''"
| "raw (JObject kvs) = ''{'' @ intercalate '','' (map raw_member kvs) @ ''}''"
| "raw_member (k, v) = quote k @ '':'' @ raw v"

text \<open>
  Go errors. \<^verbatim>\<open>errors.New\<close> and \<^verbatim>\<open>fmt.Errorf\<close> (without \<^verbatim>\<open>%w\<close>) both return an
  \<^verbatim>\<open>*errors.errorString\<close>, whose only content is the message. \<^verbatim>\<open>encoding/json\<close> reports a
  value of the wrong JSON kind as \<^verbatim>\<open>*json.UnmarshalTypeError\<close> (fields Value, Type, Struct,
  Field) and wraps the error of a \<^verbatim>\<open>MarshalJSON\<close> method in \<^verbatim>\<open>*json.MarshalerError\<close>.
  \<open>Panic\<close> is not an error value: it stands for a run-time panic of the goroutine.
\<close>

datatype error =
    ErrorString string
  | UnmarshalTypeError string string string string
  | MarshalerError string error
  | Panic string

fun Error :: "error \<Rightarrow> string" where
  "Error (ErrorString s) = s"
| "Error (UnmarshalTypeError val typ struct field) =
     (if struct \<noteq> [] \<or> field \<noteq> []
      then ''json: cannot unmarshal '' @ val @ '' into Go struct field '' @ struct @ ''.'' @ field
           @ '' of type '' @ typ
      else ''json: cannot unmarshal '' @ val @ '' into Go value of type '' @ typ)"
| "Error (MarshalerError typ err) =
     ''json: error calling MarshalJSON for type '' @ typ @ '': '' @ Error err"
| "Error (Panic s) = ''panic: '' @ s"

text \<open>\<^verbatim>\<open>fmt\<close> verbs used in the messages: \<^verbatim>\<open>%d\<close> of a count, \<^verbatim>\<open>%v\<close> of a \<^verbatim>\<open>[]string\<close>
  (elements separated by one space, in brackets) and \<^verbatim>\<open>%v\<close> of a \<^verbatim>\<open>map[string]error\<close> (keys
  in sorted order, each followed by a colon and the error's message).\<close>

definition digit :: "nat \<Rightarrow> char" where
  "digit d = (''0123456789'' ! d)"

fun itoa :: "nat \<Rightarrow> string" where
  "itoa n = (if n < 10 then [digit n] else itoa (n div 10) @ [digit (n mod 10)])"

definition fmt_strings :: "string list \<Rightarrow> string" where
  "fmt_strings xs = ''['' @ intercalate '' '' xs @ '']''"

definition fmt_errors :: "(string \<times> error) list \<Rightarrow> string" where
  "fmt_errors m =
     ''map['' @ intercalate '' '' (map (\<lambda>(k, e). k @ '':'' @ Error e) (sort_key fst m)) @ '']''"

text \<open>The JSON kind names that \<^verbatim>\<open>encoding/json\<close> puts into an UnmarshalTypeError.\<close>

fun kind :: "json \<Rightarrow> string" where
  "kind JNull = ''null''"
| "kind (JBool b) = ''bool''"
| "kind (JNumber s) = ''number''"
| "kind (JString s) = ''string''"
| "kind (JArray xs) = ''array''"
| "kind (JObject kvs) = ''object''"

subsection \<open>The raw map of a payload\<close>

text \<open>
  \<^verbatim>\<open>var rawMap map[string]json.RawMessage; err = json.Unmarshal(data, &rawMap);
  if err != nil { rawMap = nil }\<close>.
  An object gives one entry per key, a later duplicate replacing the earlier value; \<^verbatim>\<open>null\<close>
  leaves the map nil without error; any other payload is an error, after which the code
  sets the map to nil. A nil map reads as empty, so both are the empty list here.
\<close>

type_synonym rawmap = "(string \<times> json) list"

definition rawMap_of :: "json \<Rightarrow> rawmap" where
  "rawMap_of data =
     (case data of
        JObject kvs \<Rightarrow> fold (\<lambda>(k, v) m. AList.update k v m) kvs []
      | _ \<Rightarrow> [])"

definition found :: "rawmap \<Rightarrow> string \<Rightarrow> bool" where
  "found rawMap key \<longleftrightarrow> map_of rawMap key \<noteq> None"

text \<open>\<^verbatim>\<open>for _, key := range requireKeys { if _, found := rawMap[key]; !found {
  return errors.New("required key missing: " + key) } }\<close>\<close>

fun check_required :: "string list \<Rightarrow> rawmap \<Rightarrow> error option" where
  "check_required [] rawMap = None"
| "check_required (key # keys) rawMap =
     (if \<not> found rawMap key then Some (ErrorString (''required key missing: '' @ key))
      else check_required keys rawMap)"

text \<open>\<^verbatim>\<open>for _, key := range knownKeys { delete(rawMap, key) }\<close>\<close>

definition delete_keys :: "string list \<Rightarrow> rawmap \<Rightarrow> rawmap" where
  "delete_keys keys rawMap = fold AList.delete keys rawMap"

text \<open>\<^verbatim>\<open>regexX = regexp.MustCompile("^x-")\<close>\<close>

definition regexX_MatchString :: "string \<Rightarrow> bool" where
  "regexX_MatchString key \<longleftrightarrow> take 2 key = ''x-''"

text \<open>
  Field names of a struct are matched against a member key exactly or, failing that, by the
  fold function \<^verbatim>\<open>encoding/json\<close> picks for the field name (Go 1.18, fold.go): ASCII letters
  match in either case, and for a field name containing s or k the key may also hold
  U+017F (long s, bytes C5 BF) or U+212A (Kelvin sign, bytes E2 84 AA) in that place.
\<close>

definition toLower :: "char \<Rightarrow> char" where
  "toLower c =
     (case map_of (zip ''ABCDEFGHIJKLMNOPQRSTUVWXYZ'' ''abcdefghijklmnopqrstuvwxyz'') c of
        Some l \<Rightarrow> l
      | None \<Rightarrow> c)"

fun equalFold :: "string \<Rightarrow> string \<Rightarrow> bool" where
  "equalFold [] t = (t = [])"
| "equalFold (sb # s) t =
     (case t of
        [] \<Rightarrow> False
      | tb # t' \<Rightarrow>
          if of_char tb < (128 :: nat) then toLower sb = toLower tb \<and> equalFold s t'
          else if toLower sb = CHR ''s'' then take 2 t = [CHR 0xC5, CHR 0xBF] \<and> equalFold s (drop 2 t)
          else if toLower sb = CHR ''k'' then
            take 3 t = [CHR 0xE2, CHR 0x84, CHR 0xAA] \<and> equalFold s (drop 3 t)
          else False)"


subsection \<open>marshalUnion\<close>

text \<open>
  \<^verbatim>\<open>func marshalUnion(maps ...interface{}) ([]byte, error)\<close>. The loop calls
  \<^verbatim>\<open>json.Marshal(m)\<close> on each argument in turn; the model takes the list of those results.
  The loop state is the pair (result, isObject). Indexing \<^verbatim>\<open>j[0]\<close> of an empty slice would
  panic; \<^verbatim>\<open>json.Marshal\<close> never returns an empty slice without an error.
\<close>

fun marshalUnion_loop :: "bytes \<times> bool \<Rightarrow> (error + bytes) list \<Rightarrow> error + bytes \<times> bool" where
  "marshalUnion_loop (result, isObject) [] = Inr (result, isObject)"
| "marshalUnion_loop (result, isObject) (m # maps) =
     (case m of
        Inl err \<Rightarrow> Inl err
      | Inr j \<Rightarrow>
          if j = ''{}'' then marshalUnion_loop (result, isObject) maps
          else if j = ''null'' then marshalUnion_loop (result, isObject) maps
          else (case j of
              [] \<Rightarrow> Inl (Panic ''runtime error: index out of range [0] with length 0'')
            | c # cs \<Rightarrow>
                if c \<noteq> CHR ''{'' then
                  (if length result = 1 \<and> (isObject \<or> result = j)
                   then marshalUnion_loop (j, False) maps
                   else Inl (ErrorString
                          (''failed to union map: object expected, '' @ j @ '' received'')))
                else if \<not> isObject then
                  Inl (ErrorString (''failed to union '' @ result @ '' and '' @ j))
                else marshalUnion_loop
                       ((if length result > 1 then butlast result @ '','' else result) @ cs,
                        isObject) maps))"

definition marshalUnion :: "(error + bytes) list \<Rightarrow> error + bytes" where
  "marshalUnion maps =
     (case marshalUnion_loop (''{'', True) maps of
        Inl err \<Rightarrow> Inl err
      | Inr (result, isObject) \<Rightarrow>
          Inr (if isObject \<and> length result = 1 then result @ ''}'' else result))"

text \<open>Vocabulary for statements about fragments: a fragment the loop skips, a fragment that
  is an object text, what \<^verbatim>\<open>json.Marshal\<close> guarantees of its output (not empty, and an object
  text ends with a closing brace), and the text between the braces of an object.\<close>

definition skipped :: "bytes \<Rightarrow> bool" where
  "skipped j \<longleftrightarrow> j = ''{}'' \<or> j = ''null''"

definition is_object_fragment :: "bytes \<Rightarrow> bool" where
  "is_object_fragment j \<longleftrightarrow> (case j of [] \<Rightarrow> False | c # cs \<Rightarrow> c = CHR ''{'')"

definition marshalled :: "bytes \<Rightarrow> bool" where
  "marshalled j \<longleftrightarrow>
     j \<noteq> [] \<and> (is_object_fragment j \<longrightarrow> last j = CHR ''}'' \<and> 2 \<le> length j)"

definition members_text :: "bytes \<Rightarrow> bytes" where
  "members_text j = butlast (tl j)"

definition kept :: "bytes list \<Rightarrow> bytes list" where
  "kept js = filter (\<lambda>j. \<not> skipped j) js"

definition is_union_error :: "error + 'a \<Rightarrow> bool" where
  "is_union_error r \<longleftrightarrow> (\<exists>msg. r = Inl (ErrorString msg))"


subsection \<open>Decoding with encoding/json: the building blocks\<close>

text \<open>
  An \<^verbatim>\<open>UnmarshalJSON\<close> method is a function of the payload and of the value its receiver
  points to; it returns the error, or the receiver's value after a nil return.

  \<^verbatim>\<open>json.Unmarshal(data, &p)\<close> where \<^verbatim>\<open>p\<close> is a pointer field whose element type has an
  \<^verbatim>\<open>UnmarshalJSON\<close> method: the literal \<^verbatim>\<open>null\<close> sets the pointer to nil and succeeds without
  calling the method; otherwise a nil pointer is allocated (zero value) and the method runs
  on the pointee. The result is the error, or the pointer afterwards.
\<close>

definition json_Unmarshal_ptr ::
  "(json \<Rightarrow> 'a \<Rightarrow> error + 'a) \<Rightarrow> 'a \<Rightarrow> json \<Rightarrow> 'a option \<Rightarrow> error + 'a option" where
  "json_Unmarshal_ptr um zero data ptr =
     (if data = JNull then Inr None
      else (case um data (case ptr of None \<Rightarrow> zero | Some x \<Rightarrow> x) of
              Inl err \<Rightarrow> Inl err
            | Inr x \<Rightarrow> Inr (Some x)))"

text \<open>\<^verbatim>\<open>var ii string; err := json.Unmarshal(data, &ii)\<close>\<close>

definition json_Unmarshal_string :: "json \<Rightarrow> string \<Rightarrow> error + string" where
  "json_Unmarshal_string data ii =
     (case data of
        JString s \<Rightarrow> Inr s
      | JNull \<Rightarrow> Inr ii
      | _ \<Rightarrow> Inl (UnmarshalTypeError (kind data) ''string'' [] []))"

text \<open>\<^verbatim>\<open>decodeState.addErrorContext\<close>: an UnmarshalTypeError raised below a struct field gets
  the struct and field names; any other error passes unchanged.\<close>

fun addErrorContext :: "string \<Rightarrow> string \<Rightarrow> error \<Rightarrow> error" where
  "addErrorContext struct field (UnmarshalTypeError val typ s f) =
     UnmarshalTypeError val typ struct field"
| "addErrorContext struct field err = err"

text \<open>
  \<^verbatim>\<open>decodeState.object\<close> on a struct without methods: the members of the object are taken in
  payload order. A member whose key selects a field is decoded into it; the error of an
  \<^verbatim>\<open>UnmarshalJSON\<close> method ends the call at once (\<open>Abort\<close>), while a conversion error is saved
  and decoding goes on (\<open>Next\<close> with the error); a member whose key selects no field is
  skipped. At the end the first saved error is returned, if there is one.
  \<open>step key v st\<close> is the decoding of one member into the struct in state \<open>st\<close>. The result
  of the loop is the error and the state reached. Once an error has been saved the call
  will fail, and the content left in the field that failed is no longer looked at.
\<close>

datatype 'st outcome = Abort error 'st | Next "error option" 'st

fun decode_object ::
  "(string \<Rightarrow> json \<Rightarrow> 'st \<Rightarrow> 'st outcome) \<Rightarrow> (string \<times> json) list \<Rightarrow> error option \<Rightarrow> 'st
     \<Rightarrow> error option \<times> 'st" where
  "decode_object step [] savedError st = (savedError, st)"
| "decode_object step ((key, v) # kvs) savedError st =
     (case step key v st of
        Abort err st' \<Rightarrow> (Some err, st')
      | Next err st' \<Rightarrow>
          decode_object step kvs (case savedError of None \<Rightarrow> err | Some e \<Rightarrow> Some e) st')"

text \<open>\<^verbatim>\<open>json.Unmarshal(data, &m)\<close> for a struct \<^verbatim>\<open>m\<close> without methods: \<^verbatim>\<open>null\<close> changes nothing,
  an object is decoded member by member, any other payload is an UnmarshalTypeError.\<close>

definition json_Unmarshal_struct ::
  "string \<Rightarrow> (string \<Rightarrow> json \<Rightarrow> 'st \<Rightarrow> 'st outcome) \<Rightarrow> json \<Rightarrow> 'st \<Rightarrow> error option \<times> 'st" where
  "json_Unmarshal_struct typ step data st =
     (case data of
        JObject kvs \<Rightarrow> decode_object step kvs None st
      | JNull \<Rightarrow> (None, st)
      | _ \<Rightarrow> (Some (UnmarshalTypeError (kind data) typ [] []), st))"

text \<open>A struct field of type \<^verbatim>\<open>interface{}\<close>: \<^verbatim>\<open>null\<close> stores the nil interface, any other
  value is decoded by \<open>any\<close>.\<close>

definition decode_interface :: "(json \<Rightarrow> error + json) \<Rightarrow> json \<Rightarrow> error + json" where
  "decode_interface any v = (if v = JNull then Inr JNull else any v)"

text \<open>\<^verbatim>\<open>if v, exists := rawMap[key]; exists && string(v) != lit { return fmt.Errorf(...) }\<close>
  with the message \<^verbatim>\<open>bad const value for "key" (lit expected, %s received)\<close>.\<close>

definition bad_const :: "rawmap \<Rightarrow> string \<Rightarrow> bytes \<Rightarrow> error option" where
  "bad_const rawMap key lit =
     (case map_of rawMap key of
        Some v \<Rightarrow>
          if raw v \<noteq> lit
          then Some (ErrorString (''bad const value for '' @ quote key @ '' ('' @ lit
                       @ '' expected, '' @ raw v @ '' received)''))
          else None
      | None \<Rightarrow> None)"

text \<open>The error of a constant mismatch, and the condition under which the check of one
  constant key passes: the key is absent or its raw text is the literal.\<close>

definition const_mismatch :: "string \<Rightarrow> bytes \<Rightarrow> json \<Rightarrow> error" where
  "const_mismatch key lit v =
     ErrorString (''bad const value for '' @ quote key @ '' ('' @ lit @ '' expected, '' @ raw v
                  @ '' received)'')"

definition const_ok :: "rawmap \<Rightarrow> string \<Rightarrow> bytes \<Rightarrow> bool" where
  "const_ok rawMap key lit \<longleftrightarrow> (\<forall>v. map_of rawMap key = Some v \<longrightarrow> raw v = lit)"

subsection \<open>Enumerations\<close>

definition PathParameterStyle_values :: "string list" where
  "PathParameterStyle_values = [''matrix'', ''label'', ''simple'']"

definition QueryParameterStyle_values :: "string list" where
  "QueryParameterStyle_values = [''form'', ''spaceDelimited'', ''pipeDelimited'', ''deepObject'']"

definition PathParameterStyle_UnmarshalJSON :: "json \<Rightarrow> string \<Rightarrow> error + string" where
  "PathParameterStyle_UnmarshalJSON data i =
     (case json_Unmarshal_string data [] of
        Inl err \<Rightarrow> Inl err
      | Inr ii \<Rightarrow>
          if ii \<in> set PathParameterStyle_values then Inr ii
          else Inl (ErrorString (''unexpected PathParameterStyle value: '' @ ii)))"

definition QueryParameterStyle_UnmarshalJSON :: "json \<Rightarrow> string \<Rightarrow> error + string" where
  "QueryParameterStyle_UnmarshalJSON data i =
     (case json_Unmarshal_string data [] of
        Inl err \<Rightarrow> Inl err
      | Inr ii \<Rightarrow>
          if ii \<in> set QueryParameterStyle_values then Inr ii
          else Inl (ErrorString (''unexpected QueryParameterStyle value: '' @ ii)))"

text \<open>A struct field of type pointer to an enum with its own \<^verbatim>\<open>UnmarshalJSON\<close>, as one step of
  the member loop: \<^verbatim>\<open>null\<close> sets the pointer to nil; any other value runs the enum's method
  on the pointee (a fresh one for a nil pointer), and the method's error ends the decoding.\<close>

definition enum_ptr_member ::
  "(json \<Rightarrow> string \<Rightarrow> error + string) \<Rightarrow> string \<Rightarrow> string \<Rightarrow> json \<Rightarrow> string option
     \<Rightarrow> string option outcome" where
  "enum_ptr_member um struct field v cur =
     (if v = JNull then Next None None
      else (case um v (case cur of None \<Rightarrow> [] | Some x \<Rightarrow> x) of
              Inl err \<Rightarrow> Abort (addErrorContext struct field err) cur
            | Inr x \<Rightarrow> Next None (Some x)))"

subsection \<open>The four arms of ParameterLocation\<close>

record PathParameter =
  Style :: "string option"

definition requireKeysPathParameter :: "string list" where
  "requireKeysPathParameter = [''required'']"

text \<open>\<^verbatim>\<open>json.Unmarshal(data, &mp)\<close> for \<^verbatim>\<open>mp marshalPathParameter\<close>: the one field is Style.\<close>

definition marshalPathParameter_member :: "string \<Rightarrow> json \<Rightarrow> PathParameter \<Rightarrow> PathParameter outcome" where
  "marshalPathParameter_member key v mp =
     (if equalFold ''style'' key then
        map_outcome (\<lambda>st. mp\<lparr>PathParameter.Style := st\<rparr>)
          (enum_ptr_member PathParameterStyle_UnmarshalJSON ''marshalPathParameter'' ''style'' v
             (PathParameter.Style mp))
      else Next None mp)"

definition json_Unmarshal_marshalPathParameter :: "json \<Rightarrow> PathParameter \<Rightarrow> error option \<times> PathParameter" where
  "json_Unmarshal_marshalPathParameter data mp =
     json_Unmarshal_struct ''openapi3.marshalPathParameter'' marshalPathParameter_member data mp"

definition PathParameter_UnmarshalJSON :: "json \<Rightarrow> PathParameter \<Rightarrow> error + PathParameter" where
  "PathParameter_UnmarshalJSON data p =
     (case json_Unmarshal_marshalPathParameter data p of
        (Some err, mp) \<Rightarrow> Inl err
      | (None, mp) \<Rightarrow>
          let rawMap = rawMap_of data in
          (case check_required requireKeysPathParameter rawMap of
             Some err \<Rightarrow> Inl err
           | None \<Rightarrow>
               (case bad_const rawMap ''in'' ''\"path\"'' of
                  Some err \<Rightarrow> Inl err
                | None \<Rightarrow>
                    let rawMap = AList.delete ''in'' rawMap in
                    (case bad_const rawMap ''required'' ''true'' of
                       Some err \<Rightarrow> Inl err
                     | None \<Rightarrow>
                         let rawMap = AList.delete ''required'' rawMap in
                         Inr mp))))"

record QueryParameter =
  Style :: "string option"

definition marshalQueryParameter_member :: "string \<Rightarrow> json \<Rightarrow> QueryParameter \<Rightarrow> QueryParameter outcome" where
  "marshalQueryParameter_member key v mq =
     (if equalFold ''style'' key then
        map_outcome (\<lambda>st. mq\<lparr>QueryParameter.Style := st\<rparr>)
          (enum_ptr_member QueryParameterStyle_UnmarshalJSON ''marshalQueryParameter'' ''style'' v
             (QueryParameter.Style mq))
      else Next None mq)"

definition json_Unmarshal_marshalQueryParameter :: "json \<Rightarrow> QueryParameter \<Rightarrow> error option \<times> QueryParameter" where
  "json_Unmarshal_marshalQueryParameter data mq =
     json_Unmarshal_struct ''openapi3.marshalQueryParameter'' marshalQueryParameter_member data mq"

definition QueryParameter_UnmarshalJSON :: "json \<Rightarrow> QueryParameter \<Rightarrow> error + QueryParameter" where
  "QueryParameter_UnmarshalJSON data q =
     (case json_Unmarshal_marshalQueryParameter data q of
        (Some err, mq) \<Rightarrow> Inl err
      | (None, mq) \<Rightarrow>
          let rawMap = rawMap_of data in
          (case bad_const rawMap ''in'' ''\"query\"'' of
             Some err \<Rightarrow> Inl err
           | None \<Rightarrow>
               let rawMap = AList.delete ''in'' rawMap in
               Inr mq))"

text \<open>\<^verbatim>\<open>type HeaderParameter struct{}\<close> and \<^verbatim>\<open>type CookieParameter struct{}\<close> have one value.\<close>

type_synonym HeaderParameter = unit
type_synonym CookieParameter = unit

definition HeaderParameter_UnmarshalJSON :: "json \<Rightarrow> HeaderParameter \<Rightarrow> error + HeaderParameter" where
  "HeaderParameter_UnmarshalJSON data h =
     (let rawMap = rawMap_of data in
      case bad_const rawMap ''in'' ''\"header\"'' of
        Some err \<Rightarrow> Inl err
      | None \<Rightarrow>
          let rawMap = AList.delete ''in'' rawMap in
          (case bad_const rawMap ''style'' ''\"simple\"'' of
             Some err \<Rightarrow> Inl err
           | None \<Rightarrow>
               let rawMap = AList.delete ''style'' rawMap in
               Inr h))"

definition CookieParameter_UnmarshalJSON :: "json \<Rightarrow> CookieParameter \<Rightarrow> error + CookieParameter" where
  "CookieParameter_UnmarshalJSON data c =
     (let rawMap = rawMap_of data in
      case bad_const rawMap ''in'' ''\"cookie\"'' of
        Some err \<Rightarrow> Inl err
      | None \<Rightarrow>
          let rawMap = AList.delete ''in'' rawMap in
          (case bad_const rawMap ''style'' ''\"form\"'' of
             Some err \<Rightarrow> Inl err
           | None \<Rightarrow>
               let rawMap = AList.delete ''style'' rawMap in
               Inr c))"

subsection \<open>oneOf nodes\<close>

text \<open>
  One trial of a oneOf decoder:
  \<^verbatim>\<open>err = json.Unmarshal(data, &p.Arm); if err != nil { oneOfErrors["Arm"] = err; p.Arm = nil }
  else { oneOfValid++ }\<close>.
  Given the outcome of the \<^verbatim>\<open>json.Unmarshal\<close> call it returns the arm's pointer afterwards
  and the updated \<^verbatim>\<open>oneOfErrors\<close> and \<^verbatim>\<open>oneOfValid\<close>. The arm names of one node are distinct,
  so the error map is the list of its entries.
\<close>

definition oneOf_trial ::
  "string \<Rightarrow> error + 'a option \<Rightarrow> (string \<times> error) list \<times> nat
     \<Rightarrow> 'a option \<times> (string \<times> error) list \<times> nat" where
  "oneOf_trial name r acc =
     (case acc of (oneOfErrors, oneOfValid) \<Rightarrow>
        (case r of
           Inl err \<Rightarrow> (None, oneOfErrors @ [(name, err)], oneOfValid)
         | Inr x \<Rightarrow> (x, oneOfErrors, oneOfValid + 1)))"

text \<open>\<^verbatim>\<open>fmt.Errorf("oneOf constraint failed for T with %d valid results: %v", oneOfValid,
  oneOfErrors)\<close>\<close>

definition oneOf_error :: "string \<Rightarrow> nat \<Rightarrow> (string \<times> error) list \<Rightarrow> error" where
  "oneOf_error typ oneOfValid oneOfErrors =
     ErrorString (''oneOf constraint failed for '' @ typ @ '' with '' @ itoa oneOfValid
                  @ '' valid results: '' @ fmt_errors oneOfErrors)"

record ParameterLocation =
  PathParameter :: "PathParameter option"
  QueryParameter :: "QueryParameter option"
  HeaderParameter :: "HeaderParameter option"
  CookieParameter :: "CookieParameter option"

definition ParameterLocation_UnmarshalJSON ::
  "json \<Rightarrow> ParameterLocation \<Rightarrow> error + ParameterLocation" where
  "ParameterLocation_UnmarshalJSON data p =
     (case oneOf_trial ''PathParameter''
             (json_Unmarshal_ptr PathParameter_UnmarshalJSON \<lparr>PathParameter.Style = None\<rparr> data
                (PathParameter p)) ([], 0) of
        (a1, acc1) \<Rightarrow>
     (case oneOf_trial ''QueryParameter''
             (json_Unmarshal_ptr QueryParameter_UnmarshalJSON \<lparr>QueryParameter.Style = None\<rparr> data
                (QueryParameter p)) acc1 of
        (a2, acc2) \<Rightarrow>
     (case oneOf_trial ''HeaderParameter''
             (json_Unmarshal_ptr HeaderParameter_UnmarshalJSON () data (HeaderParameter p)) acc2 of
        (a3, acc3) \<Rightarrow>
     (case oneOf_trial ''CookieParameter''
             (json_Unmarshal_ptr CookieParameter_UnmarshalJSON () data (CookieParameter p)) acc3 of
        (a4, oneOfErrors, oneOfValid) \<Rightarrow>
          if oneOfValid \<noteq> 1
          then Inl (oneOf_error ''ParameterLocation'' oneOfValid oneOfErrors)
          else Inr \<lparr>PathParameter = a1, QueryParameter = a2, HeaderParameter = a3,
                    CookieParameter = a4\<rparr>))))"

text \<open>SchemaOrRef: the arms \<^verbatim>\<open>Schema\<close> and \<^verbatim>\<open>SchemaReference\<close> are large nodes of their own;
  their \<^verbatim>\<open>UnmarshalJSON\<close> methods and zero values are parameters.\<close>

record ('a, 'b) SchemaOrRef =
  Schema :: "'a option"
  SchemaReference :: "'b option"

definition SchemaOrRef_UnmarshalJSON ::
  "(json \<Rightarrow> 'a \<Rightarrow> error + 'a) \<Rightarrow> 'a \<Rightarrow> (json \<Rightarrow> 'b \<Rightarrow> error + 'b) \<Rightarrow> 'b
     \<Rightarrow> json \<Rightarrow> ('a, 'b) SchemaOrRef \<Rightarrow> error + ('a, 'b) SchemaOrRef" where
  "SchemaOrRef_UnmarshalJSON umSchema zeroSchema umRef zeroRef data s =
     (case oneOf_trial ''Schema''
             (json_Unmarshal_ptr umSchema zeroSchema data (SchemaOrRef.Schema s)) ([], 0) of
        (a1, acc1) \<Rightarrow>
     (case oneOf_trial ''SchemaReference''
             (json_Unmarshal_ptr umRef zeroRef data (SchemaReference s)) acc1 of
        (a2, oneOfErrors, oneOfValid) \<Rightarrow>
          if oneOfValid \<noteq> 1
          then Inl (oneOf_error ''SchemaOrRef'' oneOfValid oneOfErrors)
          else Inr \<lparr>SchemaOrRef.Schema = a1, SchemaReference = a2\<rparr>))"

text \<open>Vocabulary for statements about oneOf decoding. A trial is the outcome of the
  \<^verbatim>\<open>json.Unmarshal\<close> call of one arm: \<open>failed\<close> is its error, \<open>stored\<close> the pointer the arm holds
  afterwards (nil after an error). \<open>accepted\<close> counts the trials without error, \<open>failures\<close>
  lists the arms that failed, each with its error, and \<open>oneOf_outcome\<close> is the result these
  determine for a node whose arms would hold \<open>r\<close>.\<close>

definition failed :: "error + 'a \<Rightarrow> error option" where
  "failed r = (case r of Inl err \<Rightarrow> Some err | Inr x \<Rightarrow> None)"

definition stored :: "error + 'a option \<Rightarrow> 'a option" where
  "stored r = (case r of Inl err \<Rightarrow> None | Inr x \<Rightarrow> x)"

definition accepted :: "(string \<times> error option) list \<Rightarrow> nat" where
  "accepted trials = length (filter (\<lambda>t. snd t = None) trials)"

definition failures :: "(string \<times> error option) list \<Rightarrow> (string \<times> error) list" where
  "failures trials =
     concat (map (\<lambda>t. case snd t of None \<Rightarrow> [] | Some err \<Rightarrow> [(fst t, err)]) trials)"

definition oneOf_outcome :: "string \<Rightarrow> (string \<times> error option) list \<Rightarrow> 'r \<Rightarrow> error + 'r" where
  "oneOf_outcome typ trials r =
     (if accepted trials = 1 then Inr r
      else Inl (oneOf_error typ (accepted trials) (failures trials)))"

definition ParameterLocation_trials :: "json \<Rightarrow> ParameterLocation \<Rightarrow> (string \<times> error option) list" where
  "ParameterLocation_trials data p =
     [(''PathParameter'',
         failed (json_Unmarshal_ptr PathParameter_UnmarshalJSON \<lparr>PathParameter.Style = None\<rparr> data
                   (PathParameter p))),
      (''QueryParameter'',
         failed (json_Unmarshal_ptr QueryParameter_UnmarshalJSON \<lparr>QueryParameter.Style = None\<rparr> data
                   (QueryParameter p))),
      (''HeaderParameter'',
         failed (json_Unmarshal_ptr HeaderParameter_UnmarshalJSON () data (HeaderParameter p))),
      (''CookieParameter'',
         failed (json_Unmarshal_ptr CookieParameter_UnmarshalJSON () data (CookieParameter p)))]"

definition ParameterLocation_stored :: "json \<Rightarrow> ParameterLocation \<Rightarrow> ParameterLocation" where
  "ParameterLocation_stored data p =
     \<lparr>PathParameter =
        stored (json_Unmarshal_ptr PathParameter_UnmarshalJSON \<lparr>PathParameter.Style = None\<rparr> data
                  (PathParameter p)),
      QueryParameter =
        stored (json_Unmarshal_ptr QueryParameter_UnmarshalJSON \<lparr>QueryParameter.Style = None\<rparr> data
                  (QueryParameter p)),
      HeaderParameter =
        stored (json_Unmarshal_ptr HeaderParameter_UnmarshalJSON () data (HeaderParameter p)),
      CookieParameter =
        stored (json_Unmarshal_ptr CookieParameter_UnmarshalJSON () data (CookieParameter p))\<rparr>"

definition SchemaOrRef_trials ::
  "(json \<Rightarrow> 'a \<Rightarrow> error + 'a) \<Rightarrow> 'a \<Rightarrow> (json \<Rightarrow> 'b \<Rightarrow> error + 'b) \<Rightarrow> 'b
     \<Rightarrow> json \<Rightarrow> ('a, 'b) SchemaOrRef \<Rightarrow> (string \<times> error option) list" where
  "SchemaOrRef_trials umSchema zeroSchema umRef zeroRef data s =
     [(''Schema'', failed (json_Unmarshal_ptr umSchema zeroSchema data (SchemaOrRef.Schema s))),
      (''SchemaReference'', failed (json_Unmarshal_ptr umRef zeroRef data (SchemaReference s)))]"

definition SchemaOrRef_stored ::
  "(json \<Rightarrow> 'a \<Rightarrow> error + 'a) \<Rightarrow> 'a \<Rightarrow> (json \<Rightarrow> 'b \<Rightarrow> error + 'b) \<Rightarrow> 'b
     \<Rightarrow> json \<Rightarrow> ('a, 'b) SchemaOrRef \<Rightarrow> ('a, 'b) SchemaOrRef" where
  "SchemaOrRef_stored umSchema zeroSchema umRef zeroRef data s =
     \<lparr>SchemaOrRef.Schema = stored (json_Unmarshal_ptr umSchema zeroSchema data (SchemaOrRef.Schema s)),
      SchemaReference = stored (json_Unmarshal_ptr umRef zeroRef data (SchemaReference s))\<rparr>"


subsection \<open>SchemaXORContent and its forbidden shape\<close>

text \<open>A struct field of type \<^verbatim>\<open>interface{}\<close> as one step of the member loop: a value that
  fails to convert saves its error, and decoding goes on.\<close>

definition interface_member ::
  "(json \<Rightarrow> error + json) \<Rightarrow> string \<Rightarrow> string \<Rightarrow> json \<Rightarrow> json \<Rightarrow> json outcome" where
  "interface_member any struct field v cur =
     (case decode_interface any v of
        Inl err \<Rightarrow> Next (Some (addErrorContext struct field err)) cur
      | Inr x \<Rightarrow> Next None x)"

record HasSchema =
  Schema :: json

definition requireKeysHasSchema :: "string list" where
  "requireKeysHasSchema = [''schema'']"

definition marshalHasSchema_member ::
  "(json \<Rightarrow> error + json) \<Rightarrow> string \<Rightarrow> json \<Rightarrow> HasSchema \<Rightarrow> HasSchema outcome" where
  "marshalHasSchema_member any key v mh =
     (if equalFold ''schema'' key then
        map_outcome (\<lambda>x. mh\<lparr>HasSchema.Schema := x\<rparr>)
          (interface_member any ''marshalHasSchema'' ''schema'' v (HasSchema.Schema mh))
      else Next None mh)"

definition json_Unmarshal_marshalHasSchema ::
  "(json \<Rightarrow> error + json) \<Rightarrow> json \<Rightarrow> HasSchema \<Rightarrow> error option \<times> HasSchema" where
  "json_Unmarshal_marshalHasSchema any data mh =
     json_Unmarshal_struct ''openapi3.marshalHasSchema'' (marshalHasSchema_member any) data mh"

definition HasSchema_UnmarshalJSON ::
  "(json \<Rightarrow> error + json) \<Rightarrow> json \<Rightarrow> HasSchema \<Rightarrow> error + HasSchema" where
  "HasSchema_UnmarshalJSON any data h =
     (case json_Unmarshal_marshalHasSchema any data h of
        (Some err, mh) \<Rightarrow> Inl err
      | (None, mh) \<Rightarrow>
          let rawMap = rawMap_of data in
          (case check_required requireKeysHasSchema rawMap of
             Some err \<Rightarrow> Inl err
           | None \<Rightarrow> Inr mh))"

record HasContent =
  Content :: json

definition requireKeysHasContent :: "string list" where
  "requireKeysHasContent = [''content'']"

definition marshalHasContent_member ::
  "(json \<Rightarrow> error + json) \<Rightarrow> string \<Rightarrow> json \<Rightarrow> HasContent \<Rightarrow> HasContent outcome" where
  "marshalHasContent_member any key v mh =
     (if equalFold ''content'' key then
        map_outcome (\<lambda>x. mh\<lparr>HasContent.Content := x\<rparr>)
          (interface_member any ''marshalHasContent'' ''content'' v (HasContent.Content mh))
      else Next None mh)"

definition json_Unmarshal_marshalHasContent ::
  "(json \<Rightarrow> error + json) \<Rightarrow> json \<Rightarrow> HasContent \<Rightarrow> error option \<times> HasContent" where
  "json_Unmarshal_marshalHasContent any data mh =
     json_Unmarshal_struct ''openapi3.marshalHasContent'' (marshalHasContent_member any) data mh"

definition HasContent_UnmarshalJSON ::
  "(json \<Rightarrow> error + json) \<Rightarrow> json \<Rightarrow> HasContent \<Rightarrow> error + HasContent" where
  "HasContent_UnmarshalJSON any data h =
     (case json_Unmarshal_marshalHasContent any data h of
        (Some err, mh) \<Rightarrow> Inl err
      | (None, mh) \<Rightarrow>
          let rawMap = rawMap_of data in
          (case check_required requireKeysHasContent rawMap of
             Some err \<Rightarrow> Inl err
           | None \<Rightarrow> Inr mh))"

record SchemaXORContentNot =
  Schema :: json
  Content :: json

definition requireKeysSchemaXORContentNot :: "string list" where
  "requireKeysSchemaXORContentNot = [''schema'', ''content'']"

definition marshalSchemaXORContentNot_member ::
  "(json \<Rightarrow> error + json) \<Rightarrow> string \<Rightarrow> json \<Rightarrow> SchemaXORContentNot \<Rightarrow> SchemaXORContentNot outcome" where
  "marshalSchemaXORContentNot_member any key v ms =
     (if equalFold ''schema'' key then
        map_outcome (\<lambda>x. ms\<lparr>SchemaXORContentNot.Schema := x\<rparr>)
          (interface_member any ''marshalSchemaXORContentNot'' ''schema'' v
             (SchemaXORContentNot.Schema ms))
      else if equalFold ''content'' key then
        map_outcome (\<lambda>x. ms\<lparr>SchemaXORContentNot.Content := x\<rparr>)
          (interface_member any ''marshalSchemaXORContentNot'' ''content'' v
                (SchemaXORContentNot.Content ms))
      else Next None ms)"

definition json_Unmarshal_marshalSchemaXORContentNot ::
  "(json \<Rightarrow> error + json) \<Rightarrow> json \<Rightarrow> SchemaXORContentNot \<Rightarrow> error option \<times> SchemaXORContentNot" where
  "json_Unmarshal_marshalSchemaXORContentNot any data ms =
     json_Unmarshal_struct ''openapi3.marshalSchemaXORContentNot''
       (marshalSchemaXORContentNot_member any) data ms"

definition SchemaXORContentNot_UnmarshalJSON ::
  "(json \<Rightarrow> error + json) \<Rightarrow> json \<Rightarrow> SchemaXORContentNot \<Rightarrow> error + SchemaXORContentNot" where
  "SchemaXORContentNot_UnmarshalJSON any data s =
     (case json_Unmarshal_marshalSchemaXORContentNot any data s of
        (Some err, ms) \<Rightarrow> Inl err
      | (None, ms) \<Rightarrow>
          let rawMap = rawMap_of data in
          (case check_required requireKeysSchemaXORContentNot rawMap of
             Some err \<Rightarrow> Inl err
           | None \<Rightarrow> Inr ms))"

record SchemaXORContent =
  HasSchema :: "HasSchema option"
  HasContent :: "HasContent option"

text \<open>\<^verbatim>\<open>var not SchemaXORContentNot; if json.Unmarshal(data, &not) == nil { return
  errors.New("not constraint failed for SchemaXORContent") }\<close>: the target is a struct
  variable, so its \<^verbatim>\<open>UnmarshalJSON\<close> runs on every payload, \<^verbatim>\<open>null\<close> included.\<close>

definition SchemaXORContent_UnmarshalJSON ::
  "(json \<Rightarrow> error + json) \<Rightarrow> json \<Rightarrow> SchemaXORContent \<Rightarrow> error + SchemaXORContent" where
  "SchemaXORContent_UnmarshalJSON any data s =
     (let not = \<lparr>SchemaXORContentNot.Schema = JNull, SchemaXORContentNot.Content = JNull\<rparr> in
      if failed (SchemaXORContentNot_UnmarshalJSON any data not) = None
      then Inl (ErrorString ''not constraint failed for SchemaXORContent'')
      else
     (case oneOf_trial ''HasSchema''
             (json_Unmarshal_ptr (HasSchema_UnmarshalJSON any) \<lparr>HasSchema.Schema = JNull\<rparr> data
                (HasSchema s)) ([], 0) of
        (a1, acc1) \<Rightarrow>
     (case oneOf_trial ''HasContent''
             (json_Unmarshal_ptr (HasContent_UnmarshalJSON any) \<lparr>HasContent.Content = JNull\<rparr> data
                (HasContent s)) acc1 of
        (a2, oneOfErrors, oneOfValid) \<Rightarrow>
          if oneOfValid \<noteq> 1
          then Inl (oneOf_error ''SchemaXORContent'' oneOfValid oneOfErrors)
          else Inr \<lparr>HasSchema = a1, HasContent = a2\<rparr>)))"

text \<open>The trials of the two arms of SchemaXORContent, and what the arms hold after them.\<close>

definition SchemaXORContent_trials ::
  "(json \<Rightarrow> error + json) \<Rightarrow> json \<Rightarrow> SchemaXORContent \<Rightarrow> (string \<times> error option) list" where
  "SchemaXORContent_trials any data s =
     [(''HasSchema'',
         failed (json_Unmarshal_ptr (HasSchema_UnmarshalJSON any) \<lparr>HasSchema.Schema = JNull\<rparr> data
                   (HasSchema s))),
      (''HasContent'',
         failed (json_Unmarshal_ptr (HasContent_UnmarshalJSON any) \<lparr>HasContent.Content = JNull\<rparr> data
                   (HasContent s)))]"

definition SchemaXORContent_stored ::
  "(json \<Rightarrow> error + json) \<Rightarrow> json \<Rightarrow> SchemaXORContent \<Rightarrow> SchemaXORContent" where
  "SchemaXORContent_stored any data s =
     \<lparr>HasSchema =
        stored (json_Unmarshal_ptr (HasSchema_UnmarshalJSON any) \<lparr>HasSchema.Schema = JNull\<rparr> data
                  (HasSchema s)),
      HasContent =
        stored (json_Unmarshal_ptr (HasContent_UnmarshalJSON any) \<lparr>HasContent.Content = JNull\<rparr> data
                  (HasContent s))\<rparr>"

text \<open>The forbidden shape accepts a payload. No member that selects a given field fails to
  convert.\<close>

definition field_decodes :: "(json \<Rightarrow> error + json) \<Rightarrow> string \<Rightarrow> (string \<times> json) list \<Rightarrow> bool" where
  "field_decodes any field kvs \<longleftrightarrow>
     (\<forall>kv\<in>set kvs. equalFold field (fst kv) \<longrightarrow> (\<exists>x. decode_interface any (snd kv) = Inr x))"

definition forbidden_shape :: "(json \<Rightarrow> error + json) \<Rightarrow> json \<Rightarrow> bool" where
  "forbidden_shape any data \<longleftrightarrow>
     failed (SchemaXORContentNot_UnmarshalJSON any data
               \<lparr>SchemaXORContentNot.Schema = JNull, SchemaXORContentNot.Content = JNull\<rparr>) = None"


subsection \<open>Extension maps and the pattern-property loop\<close>

text \<open>
  A \<^verbatim>\<open>map[string]interface{}\<close> is a list of entries with distinct keys; the heap is the list
  of all such maps, and a reference is an index into it. \<^verbatim>\<open>make\<close> appends an empty map.
\<close>

type_synonym gomap = "(string \<times> json) list"
type_synonym heap = "gomap list"

text \<open>
  The loop \<^verbatim>\<open>for key, rawValue := range rawMap\<close> of the flat record decoders, over the
  entries in the order of this \<^verbatim>\<open>range\<close>. The state is the field \<^verbatim>\<open>MapOfAnything\<close> of the
  working copy, the heap and \<^verbatim>\<open>rawMap\<close>:
  \<^verbatim>\<open>if regexX.MatchString(key) { matched = true; if ms.MapOfAnything == nil {
  ms.MapOfAnything = make(map[string]interface{}, 1) }; var val interface{};
  err = json.Unmarshal(rawValue, &val); if err != nil { return err };
  ms.MapOfAnything[key] = val }; if matched { delete(rawMap, key) }\<close>.
  An error leaves the loop at once; what was written to the heap before stays written.
\<close>

fun range_rawMap ::
  "(json \<Rightarrow> error + json) \<Rightarrow> (string \<times> json) list \<Rightarrow> nat option \<times> heap \<times> rawmap
     \<Rightarrow> error option \<times> nat option \<times> heap \<times> rawmap" where
  "range_rawMap any [] st = (None, st)"
| "range_rawMap any ((key, rawValue) # rest) (moa, h, rawMap) =
     (if regexX_MatchString key then
        (case (case moa of None \<Rightarrow> (length h, h @ [[]]) | Some a \<Rightarrow> (a, h)) of
           (a, h1) \<Rightarrow>
             (case any rawValue of
                Inl err \<Rightarrow> (Some err, Some a, h1, rawMap)
              | Inr val \<Rightarrow>
                  range_rawMap any rest
                    (Some a, h1[a := AList.update key val (h1 ! a)], AList.delete key rawMap)))
      else range_rawMap any rest (moa, h, rawMap))"

text \<open>\<^verbatim>\<open>offendingKeys := make([]string, 0, len(rawMap)); for key := range rawMap {
  offendingKeys = append(offendingKeys, key) };
  return fmt.Errorf("additional properties not allowed in T: %v", offendingKeys)\<close>\<close>

definition additional_properties :: "(rawmap \<Rightarrow> rawmap) \<Rightarrow> string \<Rightarrow> rawmap \<Rightarrow> error" where
  "additional_properties rng typ rawMap =
     (let offendingKeys = map fst (rng rawMap)
      in ErrorString (''additional properties not allowed in '' @ typ @ '': ''
                      @ fmt_strings offendingKeys))"

subsection \<open>Spec\<close>

text \<open>\<open>Known\<close> holds the fields Openapi, Info, ExternalDocs, Servers, Security, Tags, Paths
  and Components; \<open>MapOfAnything\<close> is nil or the address of the extension map.\<close>

record 'k Spec =
  Known :: 'k
  MapOfAnything :: "nat option"

definition knownKeysSpec :: "string list" where
  "knownKeysSpec = [''openapi'', ''info'', ''externalDocs'', ''servers'', ''security'', ''tags'',
                    ''paths'', ''components'']"

definition requireKeysSpec :: "string list" where
  "requireKeysSpec = [''openapi'', ''info'', ''paths'']"

text \<open>
  \<^verbatim>\<open>func (s *Spec) UnmarshalJSON(data []byte) error\<close>. The receiver is the pair of the struct
  and the heap; the result is the error or the struct assigned to the receiver, and the heap
  afterwards. \<^verbatim>\<open>json.Unmarshal(data, &ms)\<close> is the member loop with the parameter \<open>decf\<close> as
  its step: \<open>decf key v (k, h)\<close> decodes the member into the tagged field that the key
  selects, in the state \<open>k\<close> of the tagged fields and the heap \<open>h\<close> (nested nodes have
  extension maps too). \<^verbatim>\<open>ms := marshalSpec(*s)\<close> copies the struct, so \<open>ms\<close> starts with the
  receiver's map reference.
\<close>

definition Spec_UnmarshalJSON ::
  "(rawmap \<Rightarrow> rawmap) \<Rightarrow> (json \<Rightarrow> error + json)
     \<Rightarrow> (string \<Rightarrow> json \<Rightarrow> 'k \<times> heap \<Rightarrow> ('k \<times> heap) outcome)
     \<Rightarrow> json \<Rightarrow> 'k Spec \<times> heap \<Rightarrow> (error + 'k Spec) \<times> heap" where
  "Spec_UnmarshalJSON rng any decf data sh =
     (case sh of (s, h) \<Rightarrow>
      let ms = s in
      (case json_Unmarshal_struct ''openapi3.marshalSpec'' decf data (Spec.Known ms, h) of
         (Some err, (k, h)) \<Rightarrow> (Inl err, h)
       | (None, (k, h)) \<Rightarrow>
           let ms = ms\<lparr>Spec.Known := k\<rparr>;
               rawMap = rawMap_of data
           in (case check_required requireKeysSpec rawMap of
                 Some err \<Rightarrow> (Inl err, h)
               | None \<Rightarrow>
                   let rawMap = delete_keys knownKeysSpec rawMap in
                   (case range_rawMap any (rng rawMap) (Spec.MapOfAnything ms, h, rawMap) of
                      (Some err, moa, h', rawMap') \<Rightarrow> (Inl err, h')
                    | (None, moa, h', rawMap') \<Rightarrow>
                        if length rawMap' \<noteq> 0
                        then (Inl (additional_properties rng ''Spec'' rawMap'), h')
                        else (Inr (ms\<lparr>Spec.MapOfAnything := moa\<rparr>), h')))))"

subsection \<open>Parameter\<close>

text \<open>\<open>Known\<close> holds the tagged fields other than Example (Name, In, Description, Required,
  Deprecated, AllowEmptyValue, Style, Explode, AllowReserved, Schema, Content, Examples).
  \<open>Example\<close> is the field \<^verbatim>\<open>Example *interface{}\<close>: \<open>None\<close> is the nil pointer, \<open>Some JNull\<close> a
  pointer to the nil interface, \<open>Some v\<close> a pointer to a value.\<close>

record 'k Parameter =
  Known :: 'k
  Example :: "json option"
  SchemaXORContent :: "SchemaXORContent option"
  Location :: "ParameterLocation option"
  MapOfAnything :: "nat option"

definition knownKeysParameter :: "string list" where
  "knownKeysParameter = [''name'', ''in'', ''description'', ''required'', ''deprecated'',
     ''allowEmptyValue'', ''style'', ''explode'', ''allowReserved'', ''schema'', ''content'',
     ''example'', ''examples'']"

definition requireKeysParameter :: "string list" where
  "requireKeysParameter = [''name'', ''in'']"

text \<open>One member under \<^verbatim>\<open>json.Unmarshal(data, &mp)\<close> for \<^verbatim>\<open>mp marshalParameter\<close>. The state is
  the tagged fields, the field Example and the heap. A key that selects the field
  \<^verbatim>\<open>Example *interface{} `json:"example,omitempty"`\<close> sets the pointer to nil on \<^verbatim>\<open>null\<close> and to
  the decoded value otherwise; a value that fails to convert saves its error. Any other
  member goes to \<open>decf\<close>. The three fields tagged \<^verbatim>\<open>json:"-"\<close> are not touched.\<close>

definition marshalParameter_member ::
  "(json \<Rightarrow> error + json) \<Rightarrow> (string \<Rightarrow> json \<Rightarrow> 'k \<times> heap \<Rightarrow> ('k \<times> heap) outcome)
     \<Rightarrow> string \<Rightarrow> json \<Rightarrow> 'k \<times> json option \<times> heap \<Rightarrow> ('k \<times> json option \<times> heap) outcome" where
  "marshalParameter_member any decf key v st =
     (case st of (k, ex, h) \<Rightarrow>
        if equalFold ''example'' key then
          (if v = JNull then Next None (k, None, h)
           else (case any v of
                   Inl err \<Rightarrow> Next (Some (addErrorContext ''marshalParameter'' ''example'' err))
                                (k, ex, h)
                 | Inr x \<Rightarrow> Next None (k, Some x, h)))
        else map_outcome (\<lambda>(k, h). (k, ex, h)) (decf key v (k, h)))"

definition json_Unmarshal_marshalParameter ::
  "(json \<Rightarrow> error + json) \<Rightarrow> (string \<Rightarrow> json \<Rightarrow> 'k \<times> heap \<Rightarrow> ('k \<times> heap) outcome)
     \<Rightarrow> json \<Rightarrow> 'k Parameter \<times> heap \<Rightarrow> error option \<times> 'k Parameter \<times> heap" where
  "json_Unmarshal_marshalParameter any decf data mph =
     (case mph of (mp, h) \<Rightarrow>
      (case json_Unmarshal_struct ''openapi3.marshalParameter'' (marshalParameter_member any decf)
              data (Parameter.Known mp, Example mp, h) of
         (err, (k, ex, h)) \<Rightarrow> (err, mp\<lparr>Parameter.Known := k, Example := ex\<rparr>, h)))"

definition Parameter_UnmarshalJSON ::
  "(rawmap \<Rightarrow> rawmap) \<Rightarrow> (json \<Rightarrow> error + json)
     \<Rightarrow> (string \<Rightarrow> json \<Rightarrow> 'k \<times> heap \<Rightarrow> ('k \<times> heap) outcome)
     \<Rightarrow> json \<Rightarrow> 'k Parameter \<times> heap \<Rightarrow> (error + 'k Parameter) \<times> heap" where
  "Parameter_UnmarshalJSON rng any decf data ph =
     (case ph of (p, h) \<Rightarrow>
      (case json_Unmarshal_marshalParameter any decf data (p, h) of
         (Some err, mp, h) \<Rightarrow> (Inl err, h)
       | (None, mp, h) \<Rightarrow>
      (case json_Unmarshal_ptr (SchemaXORContent_UnmarshalJSON any)
              \<lparr>HasSchema = None, HasContent = None\<rparr> data (SchemaXORContent mp) of
         Inl err \<Rightarrow> (Inl err, h)
       | Inr sxc \<Rightarrow>
      (case json_Unmarshal_ptr ParameterLocation_UnmarshalJSON
              \<lparr>PathParameter = None, QueryParameter = None, HeaderParameter = None,
                CookieParameter = None\<rparr> data (Location mp) of
         Inl err \<Rightarrow> (Inl err, h)
       | Inr loc \<Rightarrow>
           let mp = mp\<lparr>SchemaXORContent := sxc, Location := loc\<rparr>;
               rawMap = rawMap_of data
           in (case check_required requireKeysParameter rawMap of
                 Some err \<Rightarrow> (Inl err, h)
               | None \<Rightarrow>
                   let mp = (if Example mp = None \<and> found rawMap ''example''
                             then mp\<lparr>Example := Some JNull\<rparr> else mp);
                       rawMap = delete_keys knownKeysParameter rawMap
                   in (case range_rawMap any (rng rawMap)
                              (Parameter.MapOfAnything mp, h, rawMap) of
                         (Some err, moa, h', rawMap') \<Rightarrow> (Inl err, h')
                       | (None, moa, h', rawMap') \<Rightarrow>
                           if length rawMap' \<noteq> 0
                           then (Inl (additional_properties rng ''Parameter'' rawMap'), h')
                           else (Inr (mp\<lparr>Parameter.MapOfAnything := moa\<rparr>), h')))))))"

text \<open>
  Vocabulary for statements about the flat record decoders. \<open>range_order rng\<close>: each \<^verbatim>\<open>range\<close>
  visits every entry of the map once. \<open>unconsumed\<close>: the keys of the payload that are
  neither known keys nor \<^verbatim>\<open>x-\<close> keys. \<open>first_missing\<close>: the first of the required keys, in
  declared order, that the raw map lacks.
\<close>

definition range_order :: "(rawmap \<Rightarrow> rawmap) \<Rightarrow> bool" where
  "range_order rng \<longleftrightarrow> (\<forall>m. mset (rng m) = mset m)"

definition unconsumed :: "string list \<Rightarrow> json \<Rightarrow> string list" where
  "unconsumed knownKeys data =
     filter (\<lambda>key. key \<notin> set knownKeys \<and> \<not> regexX_MatchString key) (map fst (rawMap_of data))"

definition first_missing :: "string list \<Rightarrow> rawmap \<Rightarrow> string option" where
  "first_missing keys rawMap = find (\<lambda>key. \<not> found rawMap key) keys"

text \<open>\<open>Spec_fields\<close> is the call \<^verbatim>\<open>json.Unmarshal(data, &ms)\<close> of \<^verbatim>\<open>Spec.UnmarshalJSON\<close>.
  \<open>Parameter_prechecks\<close> are the three \<^verbatim>\<open>json.Unmarshal\<close> calls with which
  \<^verbatim>\<open>Parameter.UnmarshalJSON\<close> begins (the tagged fields, the schema-or-content group, the
  location): the first error, or the working copy after them, and the heap.
  \<open>extension_stage\<close> is the part common to both decoders after the required keys: the loop
  over the raw map and the check for additional properties; it returns the error or the map
  reference of the working copy, and the heap. \<open>grown h h'\<close>: the heap \<open>h'\<close> holds every map
  of \<open>h\<close> unchanged, and possibly new ones.\<close>

definition Spec_fields ::
  "(string \<Rightarrow> json \<Rightarrow> 'k \<times> heap \<Rightarrow> ('k \<times> heap) outcome) \<Rightarrow> json \<Rightarrow> 'k Spec \<times> heap
     \<Rightarrow> error option \<times> 'k \<times> heap" where
  "Spec_fields decf data sh =
     (case sh of (s, h) \<Rightarrow> json_Unmarshal_struct ''openapi3.marshalSpec'' decf data (Spec.Known s, h))"

definition Parameter_prechecks ::
  "(json \<Rightarrow> error + json) \<Rightarrow> (string \<Rightarrow> json \<Rightarrow> 'k \<times> heap \<Rightarrow> ('k \<times> heap) outcome)
     \<Rightarrow> json \<Rightarrow> 'k Parameter \<times> heap \<Rightarrow> (error + 'k Parameter) \<times> heap" where
  "Parameter_prechecks any decf data ph =
     (case json_Unmarshal_marshalParameter any decf data ph of
        (Some err, mp, h) \<Rightarrow> (Inl err, h)
      | (None, mp, h) \<Rightarrow>
          (case json_Unmarshal_ptr (SchemaXORContent_UnmarshalJSON any)
                  \<lparr>HasSchema = None, HasContent = None\<rparr> data (SchemaXORContent mp) of
             Inl err \<Rightarrow> (Inl err, h)
           | Inr sxc \<Rightarrow>
               (case json_Unmarshal_ptr ParameterLocation_UnmarshalJSON
                       \<lparr>PathParameter = None, QueryParameter = None, HeaderParameter = None,
                         CookieParameter = None\<rparr> data (Location mp) of
                  Inl err \<Rightarrow> (Inl err, h)
                | Inr loc \<Rightarrow> (Inr (mp\<lparr>SchemaXORContent := sxc, Location := loc\<rparr>), h))))"

definition extension_stage ::
  "(rawmap \<Rightarrow> rawmap) \<Rightarrow> (json \<Rightarrow> error + json) \<Rightarrow> string \<Rightarrow> rawmap \<Rightarrow> nat option \<Rightarrow> heap
     \<Rightarrow> (error + nat option) \<times> heap" where
  "extension_stage rng any typ rawMap moa h =
     (case range_rawMap any (rng rawMap) (moa, h, rawMap) of
        (Some err, moa', h', rawMap') \<Rightarrow> (Inl err, h')
      | (None, moa', h', rawMap') \<Rightarrow>
          if length rawMap' \<noteq> 0 then (Inl (additional_properties rng typ rawMap'), h')
          else (Inr moa', h'))"


text \<open>A step that skips every member, as \<^verbatim>\<open>encoding/json\<close> does with a member that selects
  no field.\<close>

definition skip_member :: "string \<Rightarrow> json \<Rightarrow> 'st \<Rightarrow> 'st outcome" where
  "skip_member key v st = Next None st"

text \<open>\<open>extensions_decode\<close>: the value of every \<^verbatim>\<open>x-\<close> key of the payload decodes into
  \<^verbatim>\<open>interface{}\<close>. \<open>conversion_errors\<close>: the errors of decoding into \<^verbatim>\<open>interface{}\<close> are
  UnmarshalTypeErrors, as they are in \<^verbatim>\<open>encoding/json\<close> (a number outside \<^verbatim>\<open>float64\<close>).\<close>

definition extensions_decode :: "(json \<Rightarrow> error + json) \<Rightarrow> json \<Rightarrow> bool" where
  "extensions_decode any data \<longleftrightarrow>
     (\<forall>kv\<in>set (rawMap_of data). regexX_MatchString (fst kv) \<longrightarrow> (\<exists>x. any (snd kv) = Inr x))"


text \<open>\<open>selects_no_field names key\<close>: the key equals none of the names, also when case is
  ignored, so that \<^verbatim>\<open>encoding/json\<close> finds no field for it in a struct whose fields have these
  names. \<open>skips_unselected names decf\<close>: the member step \<open>decf\<close> skips every member whose key
  selects no field, as \<^verbatim>\<open>encoding/json\<close> does.\<close>

definition selects_no_field :: "string list \<Rightarrow> string \<Rightarrow> bool" where
  "selects_no_field names key \<longleftrightarrow> (\<forall>name\<in>set names. \<not> equalFold name key)"

definition skips_unselected ::
  "string list \<Rightarrow> (string \<Rightarrow> json \<Rightarrow> 'st \<Rightarrow> 'st outcome) \<Rightarrow> bool" where
  "skips_unselected names decf \<longleftrightarrow>
     (\<forall>key v st. selects_no_field names key \<longrightarrow> decf key v st = Next None st)"

subsection \<open>Encoding\<close>


definition PathParameterStyle_MarshalJSON :: "string \<Rightarrow> error + bytes" where
  "PathParameterStyle_MarshalJSON i =
     (if i \<in> set PathParameterStyle_values then Inr (quote i)
      else Inl (ErrorString (''unexpected PathParameterStyle value: '' @ i)))"

definition QueryParameterStyle_MarshalJSON :: "string \<Rightarrow> error + bytes" where
  "QueryParameterStyle_MarshalJSON i =
     (if i \<in> set QueryParameterStyle_values then Inr (quote i)
      else Inl (ErrorString (''unexpected QueryParameterStyle value: '' @ i)))"

text \<open>\<^verbatim>\<open>json.Marshal(marshalPathParameter(p))\<close>: the one field is tagged \<^verbatim>\<open>omitempty\<close>.\<close>

definition json_Marshal_marshalPathParameter :: "PathParameter \<Rightarrow> error + bytes" where
  "json_Marshal_marshalPathParameter mp =
     (case PathParameter.Style mp of
        None \<Rightarrow> Inr ''{}''
      | Some st \<Rightarrow>
          (case PathParameterStyle_MarshalJSON st of
             Inl err \<Rightarrow> Inl (MarshalerError ''*openapi3.PathParameterStyle'' err)
           | Inr b \<Rightarrow> Inr (''{'' @ quote ''style'' @ '':'' @ b @ ''}'')))"

text \<open>\<^verbatim>\<open>var constPathParameter = json.RawMessage(`{"in":"path","required":true}`)\<close>; a raw
  message marshals to itself.\<close>

definition constPathParameter :: bytes where
  "constPathParameter = ''{\"in\":\"path\",\"required\":true}''"

definition PathParameter_MarshalJSON :: "PathParameter \<Rightarrow> error + bytes" where
  "PathParameter_MarshalJSON p =
     marshalUnion [Inr constPathParameter, json_Marshal_marshalPathParameter p]"

definition json_Marshal_marshalQueryParameter :: "QueryParameter \<Rightarrow> error + bytes" where
  "json_Marshal_marshalQueryParameter mq =
     (case QueryParameter.Style mq of
        None \<Rightarrow> Inr ''{}''
      | Some st \<Rightarrow>
          (case QueryParameterStyle_MarshalJSON st of
             Inl err \<Rightarrow> Inl (MarshalerError ''*openapi3.QueryParameterStyle'' err)
           | Inr b \<Rightarrow> Inr (''{'' @ quote ''style'' @ '':'' @ b @ ''}'')))"

definition constQueryParameter :: bytes where
  "constQueryParameter = ''{\"in\":\"query\"}''"

definition QueryParameter_MarshalJSON :: "QueryParameter \<Rightarrow> error + bytes" where
  "QueryParameter_MarshalJSON q =
     marshalUnion [Inr constQueryParameter, json_Marshal_marshalQueryParameter q]"

definition constHeaderParameter :: bytes where
  "constHeaderParameter = ''{\"in\":\"header\",\"style\":\"simple\"}''"

definition HeaderParameter_MarshalJSON :: "HeaderParameter \<Rightarrow> error + bytes" where
  "HeaderParameter_MarshalJSON h = marshalUnion [Inr constHeaderParameter]"

definition constCookieParameter :: bytes where
  "constCookieParameter = ''{\"in\":\"cookie\",\"style\":\"form\"}''"

definition CookieParameter_MarshalJSON :: "CookieParameter \<Rightarrow> error + bytes" where
  "CookieParameter_MarshalJSON c = marshalUnion [Inr constCookieParameter]"











subsection \<open>Vocabulary for encode and round-trip statements\<close>

text \<open>A fragment given by its tree: \<^verbatim>\<open>null\<close>, or an object with the listed members. The member
  that the Example field contributes to the encoding of a Parameter. The contents of the
  extension bucket a \<^verbatim>\<open>MapOfAnything\<close> field refers to, as a map from key to value (empty for
  nil).\<close>

definition fragment :: "(string \<times> json) list option \<Rightarrow> error + bytes" where
  "fragment ms = Inr (case ms of None \<Rightarrow> ''null'' | Some members \<Rightarrow> raw (JObject members))"

definition members_of :: "(string \<times> json) list option \<Rightarrow> (string \<times> json) list" where
  "members_of ms = (case ms of None \<Rightarrow> [] | Some members \<Rightarrow> members)"



definition text_of :: "(string \<times> json) list option \<Rightarrow> bytes" where
  "text_of ms = (case ms of None \<Rightarrow> ''null'' | Some members \<Rightarrow> raw (JObject members))"












subsection \<open>Facts about the raw map and the helpers\<close>

lemma map_of_fold_update:
  "map_of (fold (\<lambda>(k, v) m. AList.update k v m) kvs m) key =
     (case map_of (rev kvs) key of Some v \<Rightarrow> Some v | None \<Rightarrow> map_of m key)"
proof (induction kvs arbitrary: m)
  case Nil
  then show ?case by simp
next
  case (Cons kv kvs)
  obtain k v where kv: "kv = (k, v)" by (cases kv)
  show ?case
    by (simp add: kv Cons.IH update_conv' map_add_def split: option.splits)
qed

lemma map_of_rawMap_of_object:
  "map_of (rawMap_of (JObject kvs)) key = map_of (rev kvs) key"
  by (simp add: rawMap_of_def map_of_fold_update split: option.splits)

lemma found_rawMap_of_object:
  "found (rawMap_of (JObject kvs)) key \<longleftrightarrow> key \<in> fst ` set kvs"
  by (simp add: found_def map_of_rawMap_of_object map_of_eq_None_iff)

lemma distinct_fold_update:
  "distinct (map fst m) \<Longrightarrow> distinct (map fst (fold (\<lambda>(k, v) m. AList.update k v m) kvs m))"
  by (induction kvs arbitrary: m) (auto simp: distinct_update)

lemma distinct_rawMap_of: "distinct (map fst (rawMap_of data))"
  by (cases data) (simp_all add: rawMap_of_def distinct_fold_update)

lemma oneOf_trial_cases:
  "oneOf_trial name r (errs, n) =
     (case r of Inl err \<Rightarrow> (None, errs @ [(name, err)], n) | Inr x \<Rightarrow> (x, errs, Suc n))"
  by (simp add: oneOf_trial_def split: sum.splits)

lemma bad_const_delete:
  "key' \<noteq> key \<Longrightarrow> bad_const (AList.delete key' rawMap) key lit = bad_const rawMap key lit"
  by (simp add: bad_const_def delete_conv')


text \<open>Key matching is left folded in what follows; the proofs that compare names unfold it.\<close>

declare equalFold.simps [simp del]

lemma decode_object_saved:
  "fst (decode_object step kvs (Some e) st) \<noteq> None"
  by (induction kvs arbitrary: st) (auto split: outcome.splits)

subsection \<open>Properties of marshalUnion\<close>

lemma loop_skip: "skipped j \<Longrightarrow> marshalUnion_loop st (Inr j # maps) = marshalUnion_loop st maps"
  by (cases st) (auto simp: skipped_def)

lemma loop_error: "marshalUnion_loop st (Inl e # maps) = Inl e"
  by (cases st) simp

lemma loop_object:
  "\<not> skipped (CHR ''{'' # cs) \<Longrightarrow>
   marshalUnion_loop (result, True) (Inr (CHR ''{'' # cs) # maps) =
   marshalUnion_loop ((if length result > 1 then butlast result @ '','' else result) @ cs, True) maps"
  by (simp add: skipped_def)

lemma loop_object_after_scalar:
  "\<not> skipped (CHR ''{'' # cs) \<Longrightarrow>
   marshalUnion_loop (result, False) (Inr (CHR ''{'' # cs) # maps) =
   Inl (ErrorString (''failed to union '' @ result @ '' and '' @ CHR ''{'' # cs))"
  by (simp add: skipped_def)

lemma loop_scalar:
  "\<not> skipped j \<Longrightarrow> j \<noteq> [] \<Longrightarrow> \<not> is_object_fragment j \<Longrightarrow>
   marshalUnion_loop (result, isObject) (Inr j # maps) =
   (if length result = 1 \<and> (isObject \<or> result = j)
    then marshalUnion_loop (j, False) maps
    else Inl (ErrorString (''failed to union map: object expected, '' @ j @ '' received'')))"
  by (cases j) (auto simp: skipped_def is_object_fragment_def)

declare marshalUnion_loop.simps(2) [simp del]

lemma object_fragment_shape:
  assumes "marshalled j" "is_object_fragment j" "\<not> skipped j"
  shows "\<exists>b. b \<noteq> [] \<and> j = CHR ''{'' # b @ ''}''"
proof -
  from assms obtain cs where j: "j = CHR ''{'' # cs"
    by (auto simp: is_object_fragment_def split: list.splits)
  with assms have l: "last j = CHR ''}''" and "2 \<le> length j" by (auto simp: marshalled_def)
  then have "cs \<noteq> []" using j by auto
  then have "cs = butlast cs @ [last cs]" by simp
  moreover have "last cs = CHR ''}''" using l j \<open>cs \<noteq> []\<close> by simp
  ultimately have cs: "cs = butlast cs @ ''}''" by simp
  have "butlast cs \<noteq> []"
  proof
    assume "butlast cs = []"
    with cs have "cs = ''}''" by simp
    with j assms(3) show False by (simp add: skipped_def)
  qed
  with cs j show ?thesis by metis
qed

text \<open>The loop once object members are in the accumulator.\<close>

lemma loop_objects_more:
  assumes "\<forall>j\<in>set js. marshalled j" "\<forall>j\<in>set (kept js). is_object_fragment j"
  shows "marshalUnion_loop (CHR ''{'' # acc @ ''}'', True) (map Inr js) =
         Inr (CHR ''{'' # intercalate '','' (acc # map members_text (kept js)) @ ''}'', True)"
  using assms
proof (induction js arbitrary: acc)
  case Nil
  then show ?case by (simp add: kept_def)
next
  case (Cons j js)
  show ?case
  proof (cases "skipped j")
    case True
    then show ?thesis using Cons by (simp add: loop_skip kept_def)
  next
    case False
    with Cons.prems have "is_object_fragment j" "marshalled j" by (auto simp: kept_def)
    with False obtain b where b: "b \<noteq> []" "j = CHR ''{'' # b @ ''}''"
      using object_fragment_shape by blast
    have step: "marshalUnion_loop (CHR ''{'' # acc @ ''}'', True) (map Inr (j # js)) =
          marshalUnion_loop (CHR ''{'' # (acc @ '','' @ b) @ ''}'', True) (map Inr js)"
      using False b by (simp add: loop_object butlast_append)
    have mt: "members_text j = b" using b by (simp add: members_text_def butlast_append)
    show ?thesis
      unfolding step using Cons.IH[of "acc @ '','' @ b"] Cons.prems False mt
      by (cases "kept js") (auto simp: kept_def)
  qed
qed

lemma loop_objects_first:
  assumes "\<forall>j\<in>set js. marshalled j" "\<forall>j\<in>set (kept js). is_object_fragment j"
  shows "marshalUnion_loop (''{'', True) (map Inr js) =
         (if kept js = [] then Inr (''{'', True)
          else Inr (CHR ''{'' # intercalate '','' (map members_text (kept js)) @ ''}'', True))"
  using assms
proof (induction js)
  case Nil
  then show ?case by (simp add: kept_def)
next
  case (Cons j js)
  show ?case
  proof (cases "skipped j")
    case True
    then show ?thesis using Cons by (simp add: loop_skip kept_def)
  next
    case False
    with Cons.prems have "is_object_fragment j" "marshalled j" by (auto simp: kept_def)
    with False obtain b where b: "b \<noteq> []" "j = CHR ''{'' # b @ ''}''"
      using object_fragment_shape by blast
    have step: "marshalUnion_loop (''{'', True) (map Inr (j # js)) =
          marshalUnion_loop (CHR ''{'' # b @ ''}'', True) (map Inr js)"
      using False b by (simp add: loop_object)
    have mt: "members_text j = b" using b by (simp add: members_text_def butlast_append)
    have "marshalUnion_loop (CHR ''{'' # b @ ''}'', True) (map Inr js) =
         Inr (CHR ''{'' # intercalate '','' (b # map members_text (kept js)) @ ''}'', True)"
      using Cons.prems by (intro loop_objects_more) (auto simp: kept_def)
    then show ?thesis unfolding step using False mt by (simp add: kept_def)
  qed
qed

lemma marshalUnion_objects:
  assumes "\<forall>j\<in>set js. marshalled j" "\<forall>j\<in>set (kept js). is_object_fragment j"
  shows "marshalUnion (map Inr js) =
         Inr (CHR ''{'' # intercalate '','' (map members_text (kept js)) @ ''}'')"
proof (cases "kept js = []")
  case True
  then show ?thesis using loop_objects_first[OF assms] by (simp add: marshalUnion_def)
next
  case False
  then obtain k ks where "kept js = k # ks" by (cases "kept js") auto
  then show ?thesis using loop_objects_first[OF assms] by (simp add: marshalUnion_def)
qed

text \<open>The loop once the result is a scalar.\<close>

lemma loop_after_scalar:
  assumes "\<forall>j\<in>set js. marshalled j" "\<not> is_object_fragment s"
  shows "marshalUnion_loop (s, False) (map Inr js) =
           Inr (s, False) \<and> (\<forall>j\<in>set (kept js). length s = 1 \<and> j = s)
         \<or> is_union_error (marshalUnion_loop (s, False) (map Inr js))
           \<and> \<not> (\<forall>j\<in>set (kept js). length s = 1 \<and> j = s)"
  using assms
proof (induction js)
  case Nil
  then show ?case by (simp add: kept_def)
next
  case (Cons j js)
  show ?case
  proof (cases "skipped j")
    case True
    then show ?thesis using Cons by (simp add: loop_skip kept_def)
  next
    case ns: False
    from Cons.prems have nz: "j \<noteq> []" by (simp add: marshalled_def)
    show ?thesis
    proof (cases "is_object_fragment j")
      case True
      then obtain cs where "j = CHR ''{'' # cs"
        by (auto simp: is_object_fragment_def split: list.splits)
      moreover have "j \<noteq> s" using True Cons.prems by auto
      ultimately show ?thesis using ns
        by (auto simp: loop_object_after_scalar is_union_error_def kept_def)
    next
      case False
      show ?thesis
      proof (cases "length s = 1 \<and> s = j")
        case True
        then show ?thesis using Cons ns nz False by (auto simp: loop_scalar kept_def)
      next
        case F: False
        then show ?thesis using ns nz False
          by (auto simp: loop_scalar is_union_error_def kept_def)
      qed
    qed
  qed
qed

lemma loop_more_scalar:
  assumes "\<forall>j\<in>set js. marshalled j" "\<exists>j\<in>set (kept js). \<not> is_object_fragment j" "length result > 1"
  shows "is_union_error (marshalUnion_loop (result, True) (map Inr js))"
  using assms
proof (induction js arbitrary: result)
  case Nil
  then show ?case by (simp add: kept_def)
next
  case (Cons j js)
  show ?case
  proof (cases "skipped j")
    case True
    then show ?thesis using Cons by (simp add: loop_skip kept_def)
  next
    case ns: False
    from Cons.prems have nz: "j \<noteq> []" by (simp add: marshalled_def)
    show ?thesis
    proof (cases "is_object_fragment j")
      case True
      then obtain cs where j: "j = CHR ''{'' # cs"
        by (auto simp: is_object_fragment_def split: list.splits)
      have "\<exists>j\<in>set (kept js). \<not> is_object_fragment j"
        using Cons.prems(2) True ns by (auto simp: kept_def)
      moreover have "length ((butlast result @ '','') @ cs) > 1" using Cons.prems(3) by simp
      ultimately have "is_union_error (marshalUnion_loop ((butlast result @ '','') @ cs, True) (map Inr js))"
        using Cons.IH Cons.prems(1) by simp
      then show ?thesis using ns j Cons.prems(3) by (simp add: loop_object)
    next
      case False
      then show ?thesis using ns nz Cons.prems(3)
        by (simp add: loop_scalar is_union_error_def)
    qed
  qed
qed


lemma loop_first_scalar:
  assumes "\<forall>j\<in>set js. marshalled j" "kept js = s # rest" "\<not> is_object_fragment s"
  shows "marshalUnion_loop (''{'', True) (map Inr js) =
           Inr (s, False) \<and> (\<forall>j\<in>set rest. length s = 1 \<and> j = s)
         \<or> is_union_error (marshalUnion_loop (''{'', True) (map Inr js))
           \<and> \<not> (\<forall>j\<in>set rest. length s = 1 \<and> j = s)"
  using assms
proof (induction js)
  case Nil
  then show ?case by (simp add: kept_def)
next
  case (Cons j js)
  show ?case
  proof (cases "skipped j")
    case True
    then show ?thesis using Cons by (simp add: loop_skip kept_def)
  next
    case ns: False
    then have js: "j = s" "kept js = rest" using Cons.prems(2) by (auto simp: kept_def)
    from Cons.prems have nz: "j \<noteq> []" by (simp add: marshalled_def)
    have "marshalUnion_loop (''{'', True) (map Inr (j # js)) =
          marshalUnion_loop (s, False) (map Inr js)"
      using ns nz js Cons.prems(3) by (simp add: loop_scalar)
    then show ?thesis
      using loop_after_scalar[of js s] Cons.prems js by auto
  qed
qed

lemma loop_first_object_then_scalar:
  assumes "\<forall>j\<in>set js. marshalled j" "kept js = k # rest" "is_object_fragment k"
    "\<exists>j\<in>set rest. \<not> is_object_fragment j"
  shows "is_union_error (marshalUnion_loop (''{'', True) (map Inr js))"
  using assms
proof (induction js)
  case Nil
  then show ?case by (simp add: kept_def)
next
  case (Cons j js)
  show ?case
  proof (cases "skipped j")
    case True
    then show ?thesis using Cons by (simp add: loop_skip kept_def)
  next
    case ns: False
    then have js: "j = k" "kept js = rest" using Cons.prems(2) by (auto simp: kept_def)
    have "marshalled j" using Cons.prems by simp
    then obtain b where b: "b \<noteq> []" "j = CHR ''{'' # b @ ''}''"
      using object_fragment_shape ns Cons.prems(3) js by blast
    have "marshalUnion_loop (''{'', True) (map Inr (j # js)) =
          marshalUnion_loop (CHR ''{'' # b @ ''}'', True) (map Inr js)"
      using ns b by (simp add: loop_object)
    moreover have "is_union_error (marshalUnion_loop (CHR ''{'' # b @ ''}'', True) (map Inr js))"
      using Cons.prems js by (intro loop_more_scalar) auto
    ultimately show ?thesis by simp
  qed
qed

lemma union_error_marshalUnion:
  "is_union_error (marshalUnion_loop (''{'', True) maps) \<Longrightarrow> is_union_error (marshalUnion maps)"
  by (auto simp: is_union_error_def marshalUnion_def)

lemma marshalUnion_single_scalar:
  assumes "\<forall>j\<in>set js. marshalled j" "kept js = s # rest" "\<not> is_object_fragment s"
    "\<forall>j\<in>set rest. length s = 1 \<and> j = s"
  shows "marshalUnion (map Inr js) = Inr s"
  using loop_first_scalar[OF assms(1-3)] assms(4) by (auto simp: marshalUnion_def)

lemma marshalUnion_mixed:
  assumes m: "\<forall>j\<in>set js. marshalled j"
    and sc: "\<exists>j\<in>set (kept js). \<not> is_object_fragment j"
    and two: "\<exists>j\<in>set (kept js). \<exists>j'\<in>set (kept js). j \<noteq> j'"
  shows "is_union_error (marshalUnion (map Inr js))"
proof -
  from sc obtain k rest where kr: "kept js = k # rest" by (cases "kept js") auto
  show ?thesis
  proof (cases "is_object_fragment k")
    case True
    then have "\<exists>j\<in>set rest. \<not> is_object_fragment j" using sc kr by auto
    then show ?thesis
      using loop_first_object_then_scalar[OF m kr True] union_error_marshalUnion by blast
  next
    case False
    have "\<not> (\<forall>j\<in>set rest. length k = 1 \<and> j = k)" using two kr by auto
    then show ?thesis
      using loop_first_scalar[OF m kr False] union_error_marshalUnion by blast
  qed
qed

lemma loop_no_panic:
  assumes "\<forall>j\<in>set js. marshalled j"
  shows "marshalUnion_loop st (map Inr js) \<noteq> Inl (Panic msg)"
  using assms
proof (induction js arbitrary: st)
  case Nil
  then show ?case by (cases st) simp
next
  case (Cons j js)
  obtain r b where st: "st = (r, b)" by (cases st)
  from Cons.prems have nz: "j \<noteq> []" by (simp add: marshalled_def)
  then obtain c cs where j: "j = c # cs" by (cases j) auto
  show ?case using Cons st j
    by (auto simp: marshalUnion_loop.simps(2))
qed

lemma marshalUnion_no_panic:
  assumes "\<forall>j\<in>set js. marshalled j"
  shows "marshalUnion (map Inr js) \<noteq> Inl (Panic msg)"
  using loop_no_panic[OF assms, of "(''{'', True)" msg]
  by (auto simp: marshalUnion_def split: sum.splits)


text \<open>
  Claim C6 (as amended). Let the fragments be outputs of \<^verbatim>\<open>json.Marshal\<close>, and let the kept
  fragments be those that are neither \<^verbatim>\<open>{}\<close> nor \<^verbatim>\<open>null\<close> (these are skipped).
  If every kept fragment is an object, the result is one object whose members are the
  members of the kept fragments in list order (the empty object when none is kept).
  If exactly one fragment is kept and it is not an object, the result is that scalar; the
  same holds when the kept fragments are repeats of one single-byte scalar, which the code
  accepts through its \<^verbatim>\<open>bytes.Equal(result, j)\<close> test although the accumulator is no longer
  empty. If a scalar is kept together with a different fragment (a scalar after object
  members, an object after a scalar, or two different scalars), marshalUnion returns an
  error value. It never panics.
\<close>

theorem marshalUnion_merge:
  assumes m: "\<forall>j\<in>set js. marshalled j"
  shows "((\<forall>j\<in>set (kept js). is_object_fragment j) \<longrightarrow>
           marshalUnion (map Inr js) =
             Inr (CHR ''{'' # intercalate '','' (map members_text (kept js)) @ ''}''))
    \<and> ((\<exists>s. kept js = [s] \<and> \<not> is_object_fragment s) \<longrightarrow>
           marshalUnion (map Inr js) = Inr (hd (kept js)))
    \<and> ((\<exists>s n. kept js = replicate (Suc n) s \<and> \<not> is_object_fragment s \<and> length s = 1) \<longrightarrow>
           marshalUnion (map Inr js) = Inr (hd (kept js)))
    \<and> ((\<exists>j\<in>set (kept js). \<not> is_object_fragment j) \<and>
         (\<exists>j\<in>set (kept js). \<exists>j'\<in>set (kept js). j \<noteq> j') \<longrightarrow>
           (\<exists>msg. marshalUnion (map Inr js) = Inl (ErrorString msg)))
    \<and> (\<forall>msg. marshalUnion (map Inr js) \<noteq> Inl (Panic msg))"
proof (intro conjI impI)
  assume "\<forall>j\<in>set (kept js). is_object_fragment j"
  then show "marshalUnion (map Inr js) =
             Inr (CHR ''{'' # intercalate '','' (map members_text (kept js)) @ ''}'')"
    using marshalUnion_objects[OF m] by simp
next
  assume "\<exists>s. kept js = [s] \<and> \<not> is_object_fragment s"
  then obtain s where "kept js = s # []" "\<not> is_object_fragment s" by auto
  then show "marshalUnion (map Inr js) = Inr (hd (kept js))"
    using marshalUnion_single_scalar[OF m, of s "[]"] by simp
next
  assume "\<exists>s n. kept js = replicate (Suc n) s \<and> \<not> is_object_fragment s \<and> length s = 1"
  then obtain s n where "kept js = s # replicate n s" "\<not> is_object_fragment s" "length s = 1"
    by auto
  then show "marshalUnion (map Inr js) = Inr (hd (kept js))"
    using marshalUnion_single_scalar[OF m, of s "replicate n s"] by simp
next
  assume "(\<exists>j\<in>set (kept js). \<not> is_object_fragment j) \<and>
         (\<exists>j\<in>set (kept js). \<exists>j'\<in>set (kept js). j \<noteq> j')"
  then show "\<exists>msg. marshalUnion (map Inr js) = Inl (ErrorString msg)"
    using marshalUnion_mixed[OF m] by (simp add: is_union_error_def)
next
  show "\<forall>msg. marshalUnion (map Inr js) \<noteq> Inl (Panic msg)"
    using marshalUnion_no_panic[OF m] by simp
qed


text \<open>Instances of the amended C6 theorem: two objects around skipped fragments merge in order;
  a lone scalar is the result; a scalar after an object is an error value.\<close>

theorem marshalUnion_merge_witness:
  "marshalUnion (map Inr [''{\"a\":1}'', ''null'', ''{\"b\":2}'', ''{}'']) = Inr ''{\"a\":1,\"b\":2}''
   \<and> marshalUnion (map Inr [''null'', ''true'']) = Inr ''true''
   \<and> marshalUnion (map Inr [''7'', ''7'', ''7'']) = Inr ''7''
   \<and> marshalUnion (map Inr [''{\"a\":1}'', ''true'']) =
       Inl (ErrorString ''failed to union map: object expected, true received'')"
  using marshalUnion_merge [of "[''{\"a\":1}'', ''null'', ''{\"b\":2}'', ''{}'']"]
    marshalUnion_merge [of "[''null'', ''true'']"]
    marshalUnion_merge [of "[''7'', ''7'', ''7'']"]
    marshalUnion_merge [of "[''{\"a\":1}'', ''true'']"]
  by (simp add: marshalled_def kept_def skipped_def is_object_fragment_def members_text_def
      marshalUnion_def marshalUnion_loop.simps(2))

text \<open>
  Claim C6 as stated says that a non-object fragment is accepted only while the accumulator
  is still empty. Counterexample: after the first fragment \<^verbatim>\<open>1\<close> the accumulator holds the
  scalar \<^verbatim>\<open>1\<close> and is not empty; the second fragment \<^verbatim>\<open>1\<close> is a scalar and is accepted.
\<close>

theorem marshalUnion_repeated_scalar:
  "marshalUnion_loop (''{'', True) [Inr ''1''] = Inr (''1'', False)
   \<and> marshalUnion_loop (''1'', False) [Inr ''1''] = Inr (''1'', False)
   \<and> marshalUnion [Inr ''1'', Inr ''1''] = Inr ''1''"
  by (simp add: marshalUnion_def marshalUnion_loop.simps(2))

subsection \<open>oneOf decoding\<close>

lemma ParameterLocation_result:
  "ParameterLocation_UnmarshalJSON data p =
     oneOf_outcome ''ParameterLocation'' (ParameterLocation_trials data p)
       (ParameterLocation_stored data p)"
proof -
  let ?r1 = "json_Unmarshal_ptr PathParameter_UnmarshalJSON \<lparr>PathParameter.Style = None\<rparr> data
                (PathParameter p)"
  let ?r2 = "json_Unmarshal_ptr QueryParameter_UnmarshalJSON \<lparr>QueryParameter.Style = None\<rparr> data
                (QueryParameter p)"
  let ?r3 = "json_Unmarshal_ptr HeaderParameter_UnmarshalJSON () data (HeaderParameter p)"
  let ?r4 = "json_Unmarshal_ptr CookieParameter_UnmarshalJSON () data (CookieParameter p)"
  show ?thesis
    unfolding ParameterLocation_UnmarshalJSON_def ParameterLocation_trials_def
      ParameterLocation_stored_def
    by (cases ?r1; cases ?r2; cases ?r3; cases ?r4)
       (simp_all add: oneOf_trial_cases oneOf_outcome_def accepted_def failures_def failed_def
          stored_def)
qed

lemma SchemaOrRef_result:
  "SchemaOrRef_UnmarshalJSON umSchema zeroSchema umRef zeroRef data s =
     oneOf_outcome ''SchemaOrRef'' (SchemaOrRef_trials umSchema zeroSchema umRef zeroRef data s)
       (SchemaOrRef_stored umSchema zeroSchema umRef zeroRef data s)"
proof -
  let ?r1 = "json_Unmarshal_ptr umSchema zeroSchema data (SchemaOrRef.Schema s)"
  let ?r2 = "json_Unmarshal_ptr umRef zeroRef data (SchemaReference s)"
  show ?thesis
    unfolding SchemaOrRef_UnmarshalJSON_def SchemaOrRef_trials_def SchemaOrRef_stored_def
    by (cases ?r1; cases ?r2)
       (simp_all add: oneOf_trial_cases oneOf_outcome_def accepted_def failures_def failed_def
          stored_def)
qed

lemma SchemaXORContent_result:
  "SchemaXORContent_UnmarshalJSON any data s =
     (if forbidden_shape any data
      then Inl (ErrorString ''not constraint failed for SchemaXORContent'')
      else oneOf_outcome ''SchemaXORContent'' (SchemaXORContent_trials any data s)
             (SchemaXORContent_stored any data s))"
proof -
  let ?r1 = "json_Unmarshal_ptr (HasSchema_UnmarshalJSON any) \<lparr>HasSchema.Schema = JNull\<rparr> data
                (HasSchema s)"
  let ?r2 = "json_Unmarshal_ptr (HasContent_UnmarshalJSON any) \<lparr>HasContent.Content = JNull\<rparr> data
                (HasContent s)"
  show ?thesis
    unfolding SchemaXORContent_UnmarshalJSON_def SchemaXORContent_trials_def
      SchemaXORContent_stored_def forbidden_shape_def Let_def
    by (cases ?r1; cases ?r2)
       (simp_all add: oneOf_trial_cases oneOf_outcome_def accepted_def failures_def failed_def
          stored_def)
qed

text \<open>
  Claim C2 (as amended). The decoders of ParameterLocation (four arms), SchemaOrRef (two
  arms) and SchemaXORContent (two arms) run \<^verbatim>\<open>json.Unmarshal\<close> on every arm, whatever the
  outcome of the others. The result is decided by the number of arms that accept: if it is
  one, the call succeeds and the node holds what each arm stored, that is the accepted value
  in one arm and nil in the others; if it is zero or more than one, the call fails with an
  error whose message holds that number and, for every arm that failed, the arm's name and
  its error (the accepting arms are those not listed). SchemaXORContent tests its forbidden
  shape first: on a payload of that shape it returns the error
  \<^verbatim>\<open>not constraint failed for SchemaXORContent\<close>, which holds neither a count nor an arm,
  before any arm is tried.
\<close>

theorem oneOf_exactly_one:
  "ParameterLocation_UnmarshalJSON data p =
     oneOf_outcome ''ParameterLocation'' (ParameterLocation_trials data p)
       (ParameterLocation_stored data p)
   \<and> SchemaOrRef_UnmarshalJSON umSchema zeroSchema umRef zeroRef data s =
     oneOf_outcome ''SchemaOrRef'' (SchemaOrRef_trials umSchema zeroSchema umRef zeroRef data s)
       (SchemaOrRef_stored umSchema zeroSchema umRef zeroRef data s)
   \<and> SchemaXORContent_UnmarshalJSON any data x =
     (if forbidden_shape any data
      then Inl (ErrorString ''not constraint failed for SchemaXORContent'')
      else oneOf_outcome ''SchemaXORContent'' (SchemaXORContent_trials any data x)
             (SchemaXORContent_stored any data x))"
  by (simp only: ParameterLocation_result SchemaOrRef_result SchemaXORContent_result simp_thms)

text \<open>
  Instances of the C2 theorem: the payload \<^verbatim>\<open>{"in":"query"}\<close> is accepted by the query arm alone;
  \<^verbatim>\<open>{"in":"body"}\<close> by no arm and \<^verbatim>\<open>{}\<close> by three arms of ParameterLocation;
  \<^verbatim>\<open>{"content":{"a":{}}}\<close> by the has-content arm of SchemaXORContent alone and \<^verbatim>\<open>{}\<close> by none
  of its arms.
\<close>

theorem oneOf_exactly_one_witness:
  "ParameterLocation_UnmarshalJSON (JObject [(''in'', JString ''query'')])
        \<lparr>PathParameter = None, QueryParameter = None, HeaderParameter = None,
          CookieParameter = None\<rparr> =
      Inr \<lparr>PathParameter = None, QueryParameter = Some \<lparr>QueryParameter.Style = None\<rparr>,
           HeaderParameter = None, CookieParameter = None\<rparr>
   \<and> ParameterLocation_UnmarshalJSON (JObject [(''in'', JString ''body'')])
        \<lparr>PathParameter = None, QueryParameter = None, HeaderParameter = None,
          CookieParameter = None\<rparr> =
      Inl (ErrorString ''oneOf constraint failed for ParameterLocation with 0 valid results: map[CookieParameter:bad const value for \"in\" (\"cookie\" expected, \"body\" received) HeaderParameter:bad const value for \"in\" (\"header\" expected, \"body\" received) PathParameter:required key missing: required QueryParameter:bad const value for \"in\" (\"query\" expected, \"body\" received)]'')
   \<and> ParameterLocation_UnmarshalJSON (JObject [])
        \<lparr>PathParameter = None, QueryParameter = None, HeaderParameter = None,
          CookieParameter = None\<rparr> =
      Inl (ErrorString ''oneOf constraint failed for ParameterLocation with 3 valid results: map[PathParameter:required key missing: required]'')
   \<and> SchemaXORContent_UnmarshalJSON Inr
        (JObject [(''content'', JObject [(''a'', JObject [])])])
        \<lparr>HasSchema = None, HasContent = None\<rparr> =
      Inr \<lparr>HasSchema = None,
           HasContent = Some \<lparr>HasContent.Content = JObject [(''a'', JObject [])]\<rparr>\<rparr>
   \<and> SchemaXORContent_UnmarshalJSON Inr (JObject [])
        \<lparr>HasSchema = None, HasContent = None\<rparr> =
      Inl (ErrorString ''oneOf constraint failed for SchemaXORContent with 0 valid results: map[HasContent:required key missing: content HasSchema:required key missing: schema]'')"
proof -
  let ?p = "\<lparr>PathParameter = None, QueryParameter = None, HeaderParameter = None,
          CookieParameter = None\<rparr>"
  let ?x = "\<lparr>HasSchema = None, HasContent = None\<rparr>"
  let ?d1 = "JObject [(''in'', JString ''query'')]"
  let ?d2 = "JObject [(''in'', JString ''body'')]"
  let ?d4 = "JObject [(''content'', JObject [(''a'', JObject [])])]"
  have a: "oneOf_outcome ''ParameterLocation'' (ParameterLocation_trials ?d1 ?p)
             (ParameterLocation_stored ?d1 ?p) =
      Inr \<lparr>PathParameter = None, QueryParameter = Some \<lparr>QueryParameter.Style = None\<rparr>,
           HeaderParameter = None, CookieParameter = None\<rparr>"
    by code_simp
  have b: "oneOf_outcome ''ParameterLocation'' (ParameterLocation_trials ?d2 ?p)
             (ParameterLocation_stored ?d2 ?p) =
      Inl (ErrorString ''oneOf constraint failed for ParameterLocation with 0 valid results: map[CookieParameter:bad const value for \"in\" (\"cookie\" expected, \"body\" received) HeaderParameter:bad const value for \"in\" (\"header\" expected, \"body\" received) PathParameter:required key missing: required QueryParameter:bad const value for \"in\" (\"query\" expected, \"body\" received)]'')"
    by code_simp
  have c: "oneOf_outcome ''ParameterLocation'' (ParameterLocation_trials (JObject []) ?p)
             (ParameterLocation_stored (JObject []) ?p) =
      Inl (ErrorString ''oneOf constraint failed for ParameterLocation with 3 valid results: map[PathParameter:required key missing: required]'')"
    by code_simp
  have d: "(if forbidden_shape Inr ?d4
      then Inl (ErrorString ''not constraint failed for SchemaXORContent'')
      else oneOf_outcome ''SchemaXORContent'' (SchemaXORContent_trials Inr ?d4 ?x)
             (SchemaXORContent_stored Inr ?d4 ?x)) =
      Inr \<lparr>HasSchema = None,
           HasContent = Some \<lparr>HasContent.Content = JObject [(''a'', JObject [])]\<rparr>\<rparr>"
    by code_simp
  have e: "(if forbidden_shape Inr (JObject [])
      then Inl (ErrorString ''not constraint failed for SchemaXORContent'')
      else oneOf_outcome ''SchemaXORContent'' (SchemaXORContent_trials Inr (JObject []) ?x)
             (SchemaXORContent_stored Inr (JObject []) ?x)) =
      Inl (ErrorString ''oneOf constraint failed for SchemaXORContent with 0 valid results: map[HasContent:required key missing: content HasSchema:required key missing: schema]'')"
    by code_simp
  note t1 = oneOf_exactly_one [where data = ?d1 and p = ?p, THEN conjunct1]
  note t2 = oneOf_exactly_one [where data = ?d2 and p = ?p, THEN conjunct1]
  note t3 = oneOf_exactly_one [where data = "JObject []" and p = ?p, THEN conjunct1]
  note t4 = oneOf_exactly_one [where data = ?d4 and any = Inr and x = ?x,
      THEN conjunct2, THEN conjunct2]
  note t5 = oneOf_exactly_one [where data = "JObject []" and any = Inr and x = ?x,
      THEN conjunct2, THEN conjunct2]
  show ?thesis
    unfolding t1 t2 t3 t4 t5 a b c d e by simp
qed

text \<open>
  Claim C2 as stated covers every union node and has every failure carry the count and the
  outcome of each arm. Counterexample: on the payload
  \<^verbatim>\<open>{"schema":{"type":"string"},"content":{"a":{}}}\<close> both arms of SchemaXORContent accept, and
  the decoder returns the error \<^verbatim>\<open>not constraint failed for SchemaXORContent\<close> alone.
\<close>

theorem not_constraint_bare_error:
  "SchemaXORContent_UnmarshalJSON Inr
     (JObject [(''schema'', JObject [(''type'', JString ''string'')]),
               (''content'', JObject [(''a'', JObject [])])])
     \<lparr>HasSchema = None, HasContent = None\<rparr> =
     Inl (ErrorString ''not constraint failed for SchemaXORContent'')
   \<and> SchemaXORContent_trials Inr
     (JObject [(''schema'', JObject [(''type'', JString ''string'')]),
               (''content'', JObject [(''a'', JObject [])])])
     \<lparr>HasSchema = None, HasContent = None\<rparr> = [(''HasSchema'', None), (''HasContent'', None)]
   \<and> accepted (SchemaXORContent_trials Inr
     (JObject [(''schema'', JObject [(''type'', JString ''string'')]),
               (''content'', JObject [(''a'', JObject [])])])
     \<lparr>HasSchema = None, HasContent = None\<rparr>) = 2"
  by code_simp

subsection \<open>Constant fields of the parameter location arms\<close>

lemma PathParameter_UnmarshalJSON_unfold:
  "json_Unmarshal_marshalPathParameter data p = (None, mp) \<Longrightarrow>
   PathParameter_UnmarshalJSON data p =
     (if map_of (rawMap_of data) ''required'' = None
      then Inl (ErrorString ''required key missing: required'')
      else (case bad_const (rawMap_of data) ''in'' ''\"path\"'' of
              Some err \<Rightarrow> Inl err
            | None \<Rightarrow>
                (case bad_const (rawMap_of data) ''required'' ''true'' of
                   Some err \<Rightarrow> Inl err
                 | None \<Rightarrow> Inr mp)))"
  by (simp add: PathParameter_UnmarshalJSON_def requireKeysPathParameter_def found_def Let_def
      bad_const_delete split: option.splits)

lemma QueryParameter_UnmarshalJSON_unfold:
  "json_Unmarshal_marshalQueryParameter data q = (None, mq) \<Longrightarrow>
   QueryParameter_UnmarshalJSON data q =
     (case bad_const (rawMap_of data) ''in'' ''\"query\"'' of
        Some err \<Rightarrow> Inl err
      | None \<Rightarrow> Inr mq)"
  by (simp add: QueryParameter_UnmarshalJSON_def Let_def split: option.splits)

lemma HeaderParameter_UnmarshalJSON_unfold:
  "HeaderParameter_UnmarshalJSON data h =
     (case bad_const (rawMap_of data) ''in'' ''\"header\"'' of
        Some err \<Rightarrow> Inl err
      | None \<Rightarrow>
          (case bad_const (rawMap_of data) ''style'' ''\"simple\"'' of
             Some err \<Rightarrow> Inl err
           | None \<Rightarrow> Inr h))"
  by (simp add: HeaderParameter_UnmarshalJSON_def Let_def bad_const_delete split: option.splits)

lemma CookieParameter_UnmarshalJSON_unfold:
  "CookieParameter_UnmarshalJSON data c =
     (case bad_const (rawMap_of data) ''in'' ''\"cookie\"'' of
        Some err \<Rightarrow> Inl err
      | None \<Rightarrow>
          (case bad_const (rawMap_of data) ''style'' ''\"form\"'' of
             Some err \<Rightarrow> Inl err
           | None \<Rightarrow> Inr c))"
  by (simp add: CookieParameter_UnmarshalJSON_def Let_def bad_const_delete split: option.splits)

lemma bad_const_cases:
  "bad_const R key lit =
     (case map_of R key of
        None \<Rightarrow> None
      | Some v \<Rightarrow> if raw v = lit then None else Some (const_mismatch key lit v))"
  by (simp add: bad_const_def const_mismatch_def split: option.splits)

lemma const_ok_bad_const: "const_ok R key lit \<longleftrightarrow> bad_const R key lit = None"
  by (auto simp: const_ok_def bad_const_cases split: option.splits)

text \<open>
  Claim C3 (as amended). Decoding, for each arm of the parameter location: an error of
  decoding the arm's own field (Style) is the error of the arm. Otherwise the path arm
  fails with \<^verbatim>\<open>required key missing: required\<close> when the key \<^verbatim>\<open>required\<close> is absent; a constant
  key that is present with a raw value other than the arm's literal makes the arm fail with
  the message \<^verbatim>\<open>bad const value for "key" (literal expected, value received)\<close>, the keys being
  tested in the order \<^verbatim>\<open>in\<close>, then \<^verbatim>\<open>required\<close> (path) or \<^verbatim>\<open>style\<close> (header, cookie); in every
  other case the arm accepts, so an absent \<^verbatim>\<open>in\<close> key, and an absent \<^verbatim>\<open>style\<close> key of the header
  and cookie arms, is accepted. Encoding: every arm writes its fixed literal fragment first,
  whatever the state of the node, and the path and query arms write their style member
  after it; the only other outcome is the error of a style outside the enumeration.
\<close>

theorem const_fields:
  fixes data :: json and p :: PathParameter
  defines "R \<equiv> rawMap_of data"
  shows
   "(\<forall>err mp. json_Unmarshal_marshalPathParameter data p = (Some err, mp) \<longrightarrow>
        PathParameter_UnmarshalJSON data p = Inl err)
    \<and> (\<forall>mp. json_Unmarshal_marshalPathParameter data p = (None, mp) \<longrightarrow>
       (map_of R ''required'' = None \<longrightarrow>
          PathParameter_UnmarshalJSON data p = Inl (ErrorString ''required key missing: required''))
     \<and> (\<forall>v. map_of R ''required'' \<noteq> None \<and> map_of R ''in'' = Some v \<and> raw v \<noteq> ''\"path\"'' \<longrightarrow>
          PathParameter_UnmarshalJSON data p = Inl (const_mismatch ''in'' ''\"path\"'' v))
     \<and> (\<forall>v. const_ok R ''in'' ''\"path\"'' \<and> map_of R ''required'' = Some v \<and> raw v \<noteq> ''true'' \<longrightarrow>
          PathParameter_UnmarshalJSON data p = Inl (const_mismatch ''required'' ''true'' v))
     \<and> (\<forall>v. const_ok R ''in'' ''\"path\"'' \<and> map_of R ''required'' = Some v \<and> raw v = ''true'' \<longrightarrow>
          PathParameter_UnmarshalJSON data p = Inr mp))
    \<and> (\<forall>err mq. json_Unmarshal_marshalQueryParameter data q = (Some err, mq) \<longrightarrow>
        QueryParameter_UnmarshalJSON data q = Inl err)
    \<and> (\<forall>mq. json_Unmarshal_marshalQueryParameter data q = (None, mq) \<longrightarrow>
       (\<forall>v. map_of R ''in'' = Some v \<and> raw v \<noteq> ''\"query\"'' \<longrightarrow>
          QueryParameter_UnmarshalJSON data q = Inl (const_mismatch ''in'' ''\"query\"'' v))
     \<and> (const_ok R ''in'' ''\"query\"'' \<longrightarrow> QueryParameter_UnmarshalJSON data q = Inr mq))
    \<and> (\<forall>v. map_of R ''in'' = Some v \<and> raw v \<noteq> ''\"header\"'' \<longrightarrow>
          HeaderParameter_UnmarshalJSON data h = Inl (const_mismatch ''in'' ''\"header\"'' v))
    \<and> (\<forall>v. const_ok R ''in'' ''\"header\"'' \<and> map_of R ''style'' = Some v \<and> raw v \<noteq> ''\"simple\"'' \<longrightarrow>
          HeaderParameter_UnmarshalJSON data h = Inl (const_mismatch ''style'' ''\"simple\"'' v))
    \<and> (const_ok R ''in'' ''\"header\"'' \<and> const_ok R ''style'' ''\"simple\"'' \<longrightarrow>
          HeaderParameter_UnmarshalJSON data h = Inr h)
    \<and> (\<forall>v. map_of R ''in'' = Some v \<and> raw v \<noteq> ''\"cookie\"'' \<longrightarrow>
          CookieParameter_UnmarshalJSON data c = Inl (const_mismatch ''in'' ''\"cookie\"'' v))
    \<and> (\<forall>v. const_ok R ''in'' ''\"cookie\"'' \<and> map_of R ''style'' = Some v \<and> raw v \<noteq> ''\"form\"'' \<longrightarrow>
          CookieParameter_UnmarshalJSON data c = Inl (const_mismatch ''style'' ''\"form\"'' v))
    \<and> (const_ok R ''in'' ''\"cookie\"'' \<and> const_ok R ''style'' ''\"form\"'' \<longrightarrow>
          CookieParameter_UnmarshalJSON data c = Inr c)
    \<and> PathParameter_MarshalJSON p =
        (case PathParameter.Style p of
           None \<Rightarrow> Inr ''{\"in\":\"path\",\"required\":true}''
         | Some st \<Rightarrow>
             if st \<in> set PathParameterStyle_values
             then Inr (''{\"in\":\"path\",\"required\":true,\"style\":'' @ quote st @ ''}'')
             else Inl (MarshalerError ''*openapi3.PathParameterStyle''
                        (ErrorString (''unexpected PathParameterStyle value: '' @ st))))
    \<and> QueryParameter_MarshalJSON q =
        (case QueryParameter.Style q of
           None \<Rightarrow> Inr ''{\"in\":\"query\"}''
         | Some st \<Rightarrow>
             if st \<in> set QueryParameterStyle_values
             then Inr (''{\"in\":\"query\",\"style\":'' @ quote st @ ''}'')
             else Inl (MarshalerError ''*openapi3.QueryParameterStyle''
                        (ErrorString (''unexpected QueryParameterStyle value: '' @ st))))
    \<and> HeaderParameter_MarshalJSON h = Inr ''{\"in\":\"header\",\"style\":\"simple\"}''
    \<and> CookieParameter_MarshalJSON c = Inr ''{\"in\":\"cookie\",\"style\":\"form\"}''"
proof -
  have P0: "\<And>err mp. json_Unmarshal_marshalPathParameter data p = (Some err, mp) \<Longrightarrow>
        PathParameter_UnmarshalJSON data p = Inl err"
    by (simp add: PathParameter_UnmarshalJSON_def)
  have Q0: "\<And>err mq. json_Unmarshal_marshalQueryParameter data q = (Some err, mq) \<Longrightarrow>
        QueryParameter_UnmarshalJSON data q = Inl err"
    by (simp add: QueryParameter_UnmarshalJSON_def)
  have P: "\<And>mp. json_Unmarshal_marshalPathParameter data p = (None, mp) \<Longrightarrow>
       (map_of R ''required'' = None \<longrightarrow>
          PathParameter_UnmarshalJSON data p = Inl (ErrorString ''required key missing: required''))
     \<and> (\<forall>v. map_of R ''required'' \<noteq> None \<and> map_of R ''in'' = Some v \<and> raw v \<noteq> ''\"path\"'' \<longrightarrow>
          PathParameter_UnmarshalJSON data p = Inl (const_mismatch ''in'' ''\"path\"'' v))
     \<and> (\<forall>v. const_ok R ''in'' ''\"path\"'' \<and> map_of R ''required'' = Some v \<and> raw v \<noteq> ''true'' \<longrightarrow>
          PathParameter_UnmarshalJSON data p = Inl (const_mismatch ''required'' ''true'' v))
     \<and> (\<forall>v. const_ok R ''in'' ''\"path\"'' \<and> map_of R ''required'' = Some v \<and> raw v = ''true'' \<longrightarrow>
          PathParameter_UnmarshalJSON data p = Inr mp)"
    unfolding const_ok_bad_const R_def
    by (auto simp: PathParameter_UnmarshalJSON_unfold bad_const_cases split: option.splits)
  have Q: "\<And>mq. json_Unmarshal_marshalQueryParameter data q = (None, mq) \<Longrightarrow>
       (\<forall>v. map_of R ''in'' = Some v \<and> raw v \<noteq> ''\"query\"'' \<longrightarrow>
          QueryParameter_UnmarshalJSON data q = Inl (const_mismatch ''in'' ''\"query\"'' v))
     \<and> (const_ok R ''in'' ''\"query\"'' \<longrightarrow> QueryParameter_UnmarshalJSON data q = Inr mq)"
    unfolding const_ok_bad_const R_def
    by (auto simp: QueryParameter_UnmarshalJSON_unfold bad_const_cases split: option.splits)
  have H: "(\<forall>v. map_of R ''in'' = Some v \<and> raw v \<noteq> ''\"header\"'' \<longrightarrow>
          HeaderParameter_UnmarshalJSON data h = Inl (const_mismatch ''in'' ''\"header\"'' v))"
    "(\<forall>v. const_ok R ''in'' ''\"header\"'' \<and> map_of R ''style'' = Some v \<and> raw v \<noteq> ''\"simple\"'' \<longrightarrow>
          HeaderParameter_UnmarshalJSON data h = Inl (const_mismatch ''style'' ''\"simple\"'' v))"
    "(const_ok R ''in'' ''\"header\"'' \<and> const_ok R ''style'' ''\"simple\"'' \<longrightarrow>
          HeaderParameter_UnmarshalJSON data h = Inr h)"
    unfolding const_ok_bad_const R_def
    by (auto simp: HeaderParameter_UnmarshalJSON_unfold bad_const_cases split: option.splits)
  have C: "(\<forall>v. map_of R ''in'' = Some v \<and> raw v \<noteq> ''\"cookie\"'' \<longrightarrow>
          CookieParameter_UnmarshalJSON data c = Inl (const_mismatch ''in'' ''\"cookie\"'' v))"
    "(\<forall>v. const_ok R ''in'' ''\"cookie\"'' \<and> map_of R ''style'' = Some v \<and> raw v \<noteq> ''\"form\"'' \<longrightarrow>
          CookieParameter_UnmarshalJSON data c = Inl (const_mismatch ''style'' ''\"form\"'' v))"
    "(const_ok R ''in'' ''\"cookie\"'' \<and> const_ok R ''style'' ''\"form\"'' \<longrightarrow>
          CookieParameter_UnmarshalJSON data c = Inr c)"
    unfolding const_ok_bad_const R_def
    by (auto simp: CookieParameter_UnmarshalJSON_unfold bad_const_cases split: option.splits)
  have EP: "PathParameter_MarshalJSON p =
        (case PathParameter.Style p of
           None \<Rightarrow> Inr ''{\"in\":\"path\",\"required\":true}''
         | Some st \<Rightarrow>
             if st \<in> set PathParameterStyle_values
             then Inr (''{\"in\":\"path\",\"required\":true,\"style\":'' @ quote st @ ''}'')
             else Inl (MarshalerError ''*openapi3.PathParameterStyle''
                        (ErrorString (''unexpected PathParameterStyle value: '' @ st))))"
    by (simp add: PathParameter_MarshalJSON_def json_Marshal_marshalPathParameter_def
        PathParameterStyle_MarshalJSON_def constPathParameter_def marshalUnion_def quote_def
        marshalUnion_loop.simps(2) split: option.splits)
  have EQ: "QueryParameter_MarshalJSON q =
        (case QueryParameter.Style q of
           None \<Rightarrow> Inr ''{\"in\":\"query\"}''
         | Some st \<Rightarrow>
             if st \<in> set QueryParameterStyle_values
             then Inr (''{\"in\":\"query\",\"style\":'' @ quote st @ ''}'')
             else Inl (MarshalerError ''*openapi3.QueryParameterStyle''
                        (ErrorString (''unexpected QueryParameterStyle value: '' @ st))))"
    by (simp add: QueryParameter_MarshalJSON_def json_Marshal_marshalQueryParameter_def
        QueryParameterStyle_MarshalJSON_def constQueryParameter_def marshalUnion_def quote_def
        marshalUnion_loop.simps(2) split: option.splits)
  have EH: "HeaderParameter_MarshalJSON h = Inr ''{\"in\":\"header\",\"style\":\"simple\"}''"
    by (simp add: HeaderParameter_MarshalJSON_def constHeaderParameter_def marshalUnion_def
        marshalUnion_loop.simps(2))
  have EC: "CookieParameter_MarshalJSON c = Inr ''{\"in\":\"cookie\",\"style\":\"form\"}''"
    by (simp add: CookieParameter_MarshalJSON_def constCookieParameter_def marshalUnion_def
        marshalUnion_loop.simps(2))
  show ?thesis
    using P0 Q0 P Q H C EP EQ EH EC by blast
qed

text \<open>
  Instances of the C3 theorem: the payloads of the specification's scenario for the path arm
  (\<^verbatim>\<open>{"in":"path","required":false}\<close> fails on \<^verbatim>\<open>required\<close>,
  \<^verbatim>\<open>{"in":"path","name":"id","required":true}\<close> is accepted, and so is the same payload without
  \<^verbatim>\<open>in\<close>), a mismatch of \<^verbatim>\<open>in\<close> on the query arm and of \<^verbatim>\<open>style\<close> on the header arm, a payload
  without constant keys on the cookie arm, and the encoding of a path parameter without and
  with a style.
\<close>

theorem const_fields_witness:
  "PathParameter_UnmarshalJSON (JObject [(''in'', JString ''path''), (''required'', JBool False)])
      \<lparr>PathParameter.Style = None\<rparr> =
     Inl (ErrorString ''bad const value for \"required\" (true expected, false received)'')
   \<and> PathParameter_UnmarshalJSON
        (JObject [(''in'', JString ''path''), (''name'', JString ''id''), (''required'', JBool True)])
        \<lparr>PathParameter.Style = None\<rparr> = Inr \<lparr>PathParameter.Style = None\<rparr>
   \<and> PathParameter_UnmarshalJSON
        (JObject [(''name'', JString ''id''), (''required'', JBool True)])
        \<lparr>PathParameter.Style = None\<rparr> = Inr \<lparr>PathParameter.Style = None\<rparr>
   \<and> QueryParameter_UnmarshalJSON (JObject [(''in'', JString ''path'')])
        \<lparr>QueryParameter.Style = None\<rparr> =
     Inl (ErrorString ''bad const value for \"in\" (\"query\" expected, \"path\" received)'')
   \<and> HeaderParameter_UnmarshalJSON
        (JObject [(''in'', JString ''header''), (''style'', JString ''form'')]) () =
     Inl (ErrorString ''bad const value for \"style\" (\"simple\" expected, \"form\" received)'')
   \<and> CookieParameter_UnmarshalJSON (JObject [(''name'', JString ''id'')]) () = Inr ()
   \<and> PathParameter_MarshalJSON \<lparr>PathParameter.Style = None\<rparr> =
        Inr ''{\"in\":\"path\",\"required\":true}''
   \<and> PathParameter_MarshalJSON \<lparr>PathParameter.Style = Some ''matrix''\<rparr> =
        Inr ''{\"in\":\"path\",\"required\":true,\"style\":\"matrix\"}''"
proof -
  let ?p = "\<lparr>PathParameter.Style = None\<rparr>"
  let ?q = "\<lparr>QueryParameter.Style = None\<rparr>"
  let ?d1 = "JObject [(''in'', JString ''path''), (''required'', JBool False)]"
  let ?d2 = "JObject [(''in'', JString ''path''), (''name'', JString ''id''), (''required'', JBool True)]"
  let ?d3 = "JObject [(''name'', JString ''id''), (''required'', JBool True)]"
  let ?d4 = "JObject [(''in'', JString ''path'')]"
  let ?d5 = "JObject [(''in'', JString ''header''), (''style'', JString ''form'')]"
  let ?d6 = "JObject [(''name'', JString ''id'')]"
  have s1: "json_Unmarshal_marshalPathParameter ?d1 ?p = (None, ?p)"
    and s2: "json_Unmarshal_marshalPathParameter ?d2 ?p = (None, ?p)"
    and s3: "json_Unmarshal_marshalPathParameter ?d3 ?p = (None, ?p)"
    and s4: "json_Unmarshal_marshalQueryParameter ?d4 ?q = (None, ?q)"
    by code_simp+
  have r1: "map_of (rawMap_of ?d1) ''in'' = Some (JString ''path'')"
       "map_of (rawMap_of ?d1) ''required'' = Some (JBool False)"
    and r2: "map_of (rawMap_of ?d2) ''in'' = Some (JString ''path'')"
       "map_of (rawMap_of ?d2) ''required'' = Some (JBool True)"
    and r3: "map_of (rawMap_of ?d3) ''in'' = None"
       "map_of (rawMap_of ?d3) ''required'' = Some (JBool True)"
    and r4: "map_of (rawMap_of ?d4) ''in'' = Some (JString ''path'')"
    and r5: "map_of (rawMap_of ?d5) ''in'' = Some (JString ''header'')"
       "map_of (rawMap_of ?d5) ''style'' = Some (JString ''form'')"
    and r6: "map_of (rawMap_of ?d6) ''in'' = None" "map_of (rawMap_of ?d6) ''style'' = None"
    by code_simp+
  have a: "PathParameter_UnmarshalJSON ?d1 ?p =
     Inl (ErrorString ''bad const value for \"required\" (true expected, false received)'')"
    using const_fields [where data = ?d1 and p = ?p] s1 r1
    by (simp add: quote_def const_ok_def const_mismatch_def)
  have b: "PathParameter_UnmarshalJSON ?d2 ?p = Inr ?p"
    using const_fields [where data = ?d2 and p = ?p] s2 r2 by (simp add: quote_def const_ok_def)
  have c: "PathParameter_UnmarshalJSON ?d3 ?p = Inr ?p"
    using const_fields [where data = ?d3 and p = ?p] s3 r3 by (simp add: quote_def const_ok_def)
  have d: "QueryParameter_UnmarshalJSON ?d4 ?q =
     Inl (ErrorString ''bad const value for \"in\" (\"query\" expected, \"path\" received)'')"
    using const_fields [where data = ?d4 and q = ?q] s4 r4
    by (simp add: quote_def const_ok_def const_mismatch_def)
  have e: "HeaderParameter_UnmarshalJSON ?d5 () =
     Inl (ErrorString ''bad const value for \"style\" (\"simple\" expected, \"form\" received)'')"
    using const_fields [where data = ?d5 and h = "()"] r5
    by (simp add: quote_def const_ok_def const_mismatch_def)
  have f: "CookieParameter_UnmarshalJSON ?d6 () = Inr ()"
    using const_fields [where data = ?d6 and c = "()"] r6 by (simp add: const_ok_def)
  have g: "PathParameter_MarshalJSON ?p = Inr ''{\"in\":\"path\",\"required\":true}''"
    using const_fields [where p = ?p] by simp
  have h: "PathParameter_MarshalJSON \<lparr>PathParameter.Style = Some ''matrix''\<rparr> =
        Inr ''{\"in\":\"path\",\"required\":true,\"style\":\"matrix\"}''"
    using const_fields [where p = "\<lparr>PathParameter.Style = Some ''matrix''\<rparr>"]
    by (simp add: PathParameterStyle_values_def quote_def)
  from a b c d e f g h show ?thesis by blast
qed

text \<open>
  Claim C3 as stated lets every absent constant key pass, naming \<^verbatim>\<open>required\<close> of the path
  arm as one. Counterexample: the payload \<^verbatim>\<open>{"in":"path"}\<close> has no \<^verbatim>\<open>required\<close> key and the
  path arm rejects it.
\<close>

theorem path_required_absent:
  "PathParameter_UnmarshalJSON (JObject [(''in'', JString ''path'')]) \<lparr>PathParameter.Style = None\<rparr> =
     Inl (ErrorString ''required key missing: required'')"
  by code_simp

subsection \<open>The schema-or-content group\<close>

lemma decode_object_saved_only:
  assumes f: "\<And>k v st. fails k v \<Longrightarrow> \<exists>e st'. step k v st = Next (Some e) st'"
    and n: "\<And>k v st. \<not> fails k v \<Longrightarrow> \<exists>st'. step k v st = Next None st'"
  shows "fst (decode_object step kvs None st) = None \<longleftrightarrow> (\<forall>kv\<in>set kvs. \<not> fails (fst kv) (snd kv))"
proof (induction kvs arbitrary: st)
  case Nil
  then show ?case by simp
next
  case (Cons kv kvs)
  obtain k v where kv: "kv = (k, v)" by (cases kv)
  show ?case
  proof (cases "fails k v")
    case True
    from f[OF True, of st] obtain e st' where s: "step k v st = Next (Some e) st'" by blast
    have "fst (decode_object step (kv # kvs) None st) = fst (decode_object step kvs (Some e) st')"
      by (simp add: kv s)
    then show ?thesis using decode_object_saved[of step kvs e st'] True by (simp add: kv)
  next
    case False
    from n[OF False, of st] obtain st' where s: "step k v st = Next None st'" by blast
    have "fst (decode_object step (kv # kvs) None st) = fst (decode_object step kvs None st')"
      by (simp add: kv s)
    then show ?thesis using Cons.IH[of st'] False by (simp add: kv)
  qed
qed

lemma interface_member_cases:
  "interface_member any struct field v cur =
     (case decode_interface any v of
        Inl err \<Rightarrow> Next (Some (addErrorContext struct field err)) cur
      | Inr x \<Rightarrow> Next None x)"
  by (simp add: interface_member_def)

lemma HasSchema_struct:
  "fst (decode_object (marshalHasSchema_member any) kvs None mh) = None \<longleftrightarrow>
     field_decodes any ''schema'' kvs"
proof -
  let ?fails = "\<lambda>k v. equalFold ''schema'' k \<and> (\<exists>e. decode_interface any v = Inl e)"
  have "fst (decode_object (marshalHasSchema_member any) kvs None mh) = None \<longleftrightarrow>
        (\<forall>kv\<in>set kvs. \<not> ?fails (fst kv) (snd kv))"
    by (rule decode_object_saved_only)
       (auto simp: marshalHasSchema_member_def interface_member_cases split: sum.splits)
  also have "\<dots> \<longleftrightarrow> field_decodes any ''schema'' kvs"
    unfolding field_decodes_def by (metis sum.exhaust sum.distinct(1))
  finally show ?thesis .
qed

lemma HasContent_struct:
  "fst (decode_object (marshalHasContent_member any) kvs None mh) = None \<longleftrightarrow>
     field_decodes any ''content'' kvs"
proof -
  let ?fails = "\<lambda>k v. equalFold ''content'' k \<and> (\<exists>e. decode_interface any v = Inl e)"
  have "fst (decode_object (marshalHasContent_member any) kvs None mh) = None \<longleftrightarrow>
        (\<forall>kv\<in>set kvs. \<not> ?fails (fst kv) (snd kv))"
    by (rule decode_object_saved_only)
       (auto simp: marshalHasContent_member_def interface_member_cases split: sum.splits)
  also have "\<dots> \<longleftrightarrow> field_decodes any ''content'' kvs"
    unfolding field_decodes_def by (metis sum.exhaust sum.distinct(1))
  finally show ?thesis .
qed

lemma Not_struct:
  "fst (decode_object (marshalSchemaXORContentNot_member any) kvs None ms) = None \<longleftrightarrow>
     field_decodes any ''schema'' kvs \<and> field_decodes any ''content'' kvs"
proof -
  let ?fails = "\<lambda>k v. (equalFold ''schema'' k \<or> equalFold ''content'' k)
                     \<and> (\<exists>e. decode_interface any v = Inl e)"
  have "fst (decode_object (marshalSchemaXORContentNot_member any) kvs None ms) = None \<longleftrightarrow>
        (\<forall>kv\<in>set kvs. \<not> ?fails (fst kv) (snd kv))"
    by (rule decode_object_saved_only)
       (auto simp: marshalSchemaXORContentNot_member_def interface_member_cases split: sum.splits)
  also have "\<dots> \<longleftrightarrow> field_decodes any ''schema'' kvs \<and> field_decodes any ''content'' kvs"
    unfolding field_decodes_def by (metis sum.exhaust sum.distinct(1))
  finally show ?thesis .
qed

lemma HasSchema_accepts:
  "failed (HasSchema_UnmarshalJSON any data hs) = None \<longleftrightarrow>
     (\<exists>kvs. data = JObject kvs \<and> field_decodes any ''schema'' kvs \<and> ''schema'' \<in> fst ` set kvs)"
proof (cases data)
  case (JObject kvs)
  obtain e mh where r: "decode_object (marshalHasSchema_member any) kvs None hs = (e, mh)"
    by fastforce
  have "e = None \<longleftrightarrow> field_decodes any ''schema'' kvs"
    using HasSchema_struct[of any kvs hs] r by simp
  then show ?thesis
    using r found_rawMap_of_object[of kvs "''schema''"]
    by (cases e) (auto simp: JObject HasSchema_UnmarshalJSON_def json_Unmarshal_marshalHasSchema_def
        json_Unmarshal_struct_def requireKeysHasSchema_def failed_def Let_def)
qed (simp_all add: HasSchema_UnmarshalJSON_def json_Unmarshal_marshalHasSchema_def
       json_Unmarshal_struct_def requireKeysHasSchema_def failed_def rawMap_of_def found_def)

lemma HasContent_accepts:
  "failed (HasContent_UnmarshalJSON any data hc) = None \<longleftrightarrow>
     (\<exists>kvs. data = JObject kvs \<and> field_decodes any ''content'' kvs \<and> ''content'' \<in> fst ` set kvs)"
proof (cases data)
  case (JObject kvs)
  obtain e mh where r: "decode_object (marshalHasContent_member any) kvs None hc = (e, mh)"
    by fastforce
  have "e = None \<longleftrightarrow> field_decodes any ''content'' kvs"
    using HasContent_struct[of any kvs hc] r by simp
  then show ?thesis
    using r found_rawMap_of_object[of kvs "''content''"]
    by (cases e) (auto simp: JObject HasContent_UnmarshalJSON_def json_Unmarshal_marshalHasContent_def
        json_Unmarshal_struct_def requireKeysHasContent_def failed_def Let_def)
qed (simp_all add: HasContent_UnmarshalJSON_def json_Unmarshal_marshalHasContent_def
       json_Unmarshal_struct_def requireKeysHasContent_def failed_def rawMap_of_def found_def)

lemma Not_accepts:
  "failed (SchemaXORContentNot_UnmarshalJSON any data ms) = None \<longleftrightarrow>
     (\<exists>kvs. data = JObject kvs \<and> field_decodes any ''schema'' kvs \<and> field_decodes any ''content'' kvs
        \<and> ''schema'' \<in> fst ` set kvs \<and> ''content'' \<in> fst ` set kvs)"
proof (cases data)
  case (JObject kvs)
  obtain e mh where r: "decode_object (marshalSchemaXORContentNot_member any) kvs None ms = (e, mh)"
    by fastforce
  have "e = None \<longleftrightarrow> field_decodes any ''schema'' kvs \<and> field_decodes any ''content'' kvs"
    using Not_struct[of any kvs ms] r by simp
  then show ?thesis
    using r found_rawMap_of_object[of kvs "''schema''"] found_rawMap_of_object[of kvs "''content''"]
    by (cases e) (auto simp: JObject SchemaXORContentNot_UnmarshalJSON_def
        json_Unmarshal_marshalSchemaXORContentNot_def
        json_Unmarshal_struct_def requireKeysSchemaXORContentNot_def failed_def Let_def)
qed (simp_all add: SchemaXORContentNot_UnmarshalJSON_def json_Unmarshal_marshalSchemaXORContentNot_def
       json_Unmarshal_struct_def requireKeysSchemaXORContentNot_def failed_def rawMap_of_def
       found_def)

lemma forbidden_iff_both:
  "forbidden_shape any data \<longleftrightarrow>
     failed (HasSchema_UnmarshalJSON any data hs) = None
     \<and> failed (HasContent_UnmarshalJSON any data hc) = None"
  unfolding forbidden_shape_def Not_accepts HasSchema_accepts HasContent_accepts by auto

lemma HasSchema_accepts_any_receiver:
  "failed (HasSchema_UnmarshalJSON any data hs) = None \<longleftrightarrow>
   failed (HasSchema_UnmarshalJSON any data hs') = None"
  unfolding HasSchema_accepts ..

lemma HasContent_accepts_any_receiver:
  "failed (HasContent_UnmarshalJSON any data hc) = None \<longleftrightarrow>
   failed (HasContent_UnmarshalJSON any data hc') = None"
  unfolding HasContent_accepts ..

lemma SchemaXORContent_one_arm:
  assumes "data \<noteq> JNull"
  shows "SchemaXORContent_UnmarshalJSON any data s =
     (let rs = HasSchema_UnmarshalJSON any data
                 (case HasSchema s of None \<Rightarrow> \<lparr>HasSchema.Schema = JNull\<rparr> | Some y \<Rightarrow> y);
          rc = HasContent_UnmarshalJSON any data
                 (case HasContent s of None \<Rightarrow> \<lparr>HasContent.Content = JNull\<rparr> | Some y \<Rightarrow> y)
      in case (rs, rc) of
           (Inr x, Inr y) \<Rightarrow> Inl (ErrorString ''not constraint failed for SchemaXORContent'')
         | (Inr x, Inl e) \<Rightarrow> Inr \<lparr>HasSchema = Some x, HasContent = None\<rparr>
         | (Inl e, Inr y) \<Rightarrow> Inr \<lparr>HasSchema = None, HasContent = Some y\<rparr>
         | (Inl e1, Inl e2) \<Rightarrow>
             Inl (oneOf_error ''SchemaXORContent'' 0 [(''HasSchema'', e1), (''HasContent'', e2)]))"
proof -
  let ?hs = "case HasSchema s of None \<Rightarrow> \<lparr>HasSchema.Schema = JNull\<rparr> | Some y \<Rightarrow> y"
  let ?hc = "case HasContent s of None \<Rightarrow> \<lparr>HasContent.Content = JNull\<rparr> | Some y \<Rightarrow> y"
  note f = forbidden_iff_both[of any data ?hs ?hc]
  show ?thesis
    unfolding SchemaXORContent_result SchemaXORContent_trials_def SchemaXORContent_stored_def
      json_Unmarshal_ptr_def Let_def
    using assms f
    by (cases "HasSchema_UnmarshalJSON any data ?hs"; cases "HasContent_UnmarshalJSON any data ?hc")
       (simp_all add: failed_def stored_def oneOf_outcome_def accepted_def failures_def)
qed

text \<open>
  Claim C7 (as amended). SchemaXORContent has the forbidden shape exactly on the payloads
  that both the has-schema shape and the has-content shape accept. A shape accepts a
  payload exactly when it is an object that has the shape's key and in which every member
  selecting the shape's field (by name, ignoring case) has a value that decodes into
  \<^verbatim>\<open>interface{}\<close>. Whenever both shapes accept, SchemaXORContent fails with the error
  \<^verbatim>\<open>not constraint failed for SchemaXORContent\<close>; when exactly one shape accepts, it succeeds
  on that arm and the other arm is nil.
\<close>

theorem schema_xor_content:
  "(forbidden_shape any data \<longleftrightarrow>
      failed (HasSchema_UnmarshalJSON any data hs) = None
      \<and> failed (HasContent_UnmarshalJSON any data hc) = None)
   \<and> (failed (HasSchema_UnmarshalJSON any data hs) = None \<longleftrightarrow>
        (\<exists>kvs. data = JObject kvs \<and> ''schema'' \<in> fst ` set kvs \<and> field_decodes any ''schema'' kvs))
   \<and> (failed (HasContent_UnmarshalJSON any data hc) = None \<longleftrightarrow>
        (\<exists>kvs. data = JObject kvs \<and> ''content'' \<in> fst ` set kvs \<and> field_decodes any ''content'' kvs))
   \<and> (failed (HasSchema_UnmarshalJSON any data hs) = None
        \<and> failed (HasContent_UnmarshalJSON any data hc) = None \<longrightarrow>
        SchemaXORContent_UnmarshalJSON any data s =
          Inl (ErrorString ''not constraint failed for SchemaXORContent''))
   \<and> (\<forall>x. HasSchema_UnmarshalJSON any data
               (case HasSchema s of None \<Rightarrow> \<lparr>HasSchema.Schema = JNull\<rparr> | Some y \<Rightarrow> y) = Inr x
           \<and> failed (HasContent_UnmarshalJSON any data hc) \<noteq> None \<longrightarrow>
        SchemaXORContent_UnmarshalJSON any data s = Inr \<lparr>HasSchema = Some x, HasContent = None\<rparr>)
   \<and> (\<forall>y. HasContent_UnmarshalJSON any data
               (case HasContent s of None \<Rightarrow> \<lparr>HasContent.Content = JNull\<rparr> | Some y \<Rightarrow> y) = Inr y
           \<and> failed (HasSchema_UnmarshalJSON any data hs) \<noteq> None \<longrightarrow>
        SchemaXORContent_UnmarshalJSON any data s = Inr \<lparr>HasSchema = None, HasContent = Some y\<rparr>)"
proof (intro conjI allI impI)
  let ?hs = "case HasSchema s of None \<Rightarrow> \<lparr>HasSchema.Schema = JNull\<rparr> | Some y \<Rightarrow> y"
  let ?hc = "case HasContent s of None \<Rightarrow> \<lparr>HasContent.Content = JNull\<rparr> | Some y \<Rightarrow> y"
  show "forbidden_shape any data \<longleftrightarrow>
      failed (HasSchema_UnmarshalJSON any data hs) = None
      \<and> failed (HasContent_UnmarshalJSON any data hc) = None"
    by (rule forbidden_iff_both)
  show "failed (HasSchema_UnmarshalJSON any data hs) = None \<longleftrightarrow>
        (\<exists>kvs. data = JObject kvs \<and> ''schema'' \<in> fst ` set kvs \<and> field_decodes any ''schema'' kvs)"
    unfolding HasSchema_accepts by auto
  show "failed (HasContent_UnmarshalJSON any data hc) = None \<longleftrightarrow>
        (\<exists>kvs. data = JObject kvs \<and> ''content'' \<in> fst ` set kvs \<and> field_decodes any ''content'' kvs)"
    unfolding HasContent_accepts by auto
  show "SchemaXORContent_UnmarshalJSON any data s =
          Inl (ErrorString ''not constraint failed for SchemaXORContent'')"
    if "failed (HasSchema_UnmarshalJSON any data hs) = None
        \<and> failed (HasContent_UnmarshalJSON any data hc) = None"
    using that forbidden_iff_both[of any data hs hc] by (simp add: SchemaXORContent_result)
  show "SchemaXORContent_UnmarshalJSON any data s = Inr \<lparr>HasSchema = Some x, HasContent = None\<rparr>"
    if a: "HasSchema_UnmarshalJSON any data ?hs = Inr x
           \<and> failed (HasContent_UnmarshalJSON any data hc) \<noteq> None" for x
  proof -
    have "failed (HasSchema_UnmarshalJSON any data ?hs) = None" using a by (simp add: failed_def)
    then have d: "data \<noteq> JNull" unfolding HasSchema_accepts by auto
    have "failed (HasContent_UnmarshalJSON any data ?hc) \<noteq> None"
      using a HasContent_accepts_any_receiver[of any data hc ?hc] by simp
    then obtain e where "HasContent_UnmarshalJSON any data ?hc = Inl e"
      by (cases "HasContent_UnmarshalJSON any data ?hc") (simp_all add: failed_def)
    then show ?thesis using a by (simp add: SchemaXORContent_one_arm[OF d])
  qed
  show "SchemaXORContent_UnmarshalJSON any data s = Inr \<lparr>HasSchema = None, HasContent = Some y\<rparr>"
    if a: "HasContent_UnmarshalJSON any data ?hc = Inr y
           \<and> failed (HasSchema_UnmarshalJSON any data hs) \<noteq> None" for y
  proof -
    have "failed (HasContent_UnmarshalJSON any data ?hc) = None" using a by (simp add: failed_def)
    then have d: "data \<noteq> JNull" unfolding HasContent_accepts by auto
    have "failed (HasSchema_UnmarshalJSON any data ?hs) \<noteq> None"
      using a HasSchema_accepts_any_receiver[of any data hs ?hs] by simp
    then obtain e where "HasSchema_UnmarshalJSON any data ?hs = Inl e"
      by (cases "HasSchema_UnmarshalJSON any data ?hs") (simp_all add: failed_def)
    then show ?thesis using a by (simp add: SchemaXORContent_one_arm[OF d])
  qed
qed

text \<open>
  Instances of the C7 theorem, the two payloads of the specification's scenario:
  \<^verbatim>\<open>{"schema":{"type":"string"},"content":{"a":{}}}\<close> is accepted by each shape and rejected by
  the group; \<^verbatim>\<open>{"schema":{"type":"string"}}\<close> decodes on the has-schema arm.
\<close>

theorem schema_xor_content_witness:
  "SchemaXORContent_UnmarshalJSON Inr
     (JObject [(''schema'', JObject [(''type'', JString ''string'')]),
               (''content'', JObject [(''a'', JObject [])])])
     \<lparr>HasSchema = None, HasContent = None\<rparr> =
     Inl (ErrorString ''not constraint failed for SchemaXORContent'')
   \<and> HasSchema_UnmarshalJSON Inr
     (JObject [(''schema'', JObject [(''type'', JString ''string'')]),
               (''content'', JObject [(''a'', JObject [])])])
     \<lparr>HasSchema.Schema = JNull\<rparr> =
     Inr \<lparr>HasSchema.Schema = JObject [(''type'', JString ''string'')]\<rparr>
   \<and> HasContent_UnmarshalJSON Inr
     (JObject [(''schema'', JObject [(''type'', JString ''string'')]),
               (''content'', JObject [(''a'', JObject [])])])
     \<lparr>HasContent.Content = JNull\<rparr> =
     Inr \<lparr>HasContent.Content = JObject [(''a'', JObject [])]\<rparr>
   \<and> SchemaXORContent_UnmarshalJSON Inr
       (JObject [(''schema'', JObject [(''type'', JString ''string'')])])
       \<lparr>HasSchema = None, HasContent = None\<rparr> =
      Inr \<lparr>HasSchema = Some \<lparr>HasSchema.Schema = JObject [(''type'', JString ''string'')]\<rparr>,
           HasContent = None\<rparr>"
proof -
  let ?d1 = "JObject [(''schema'', JObject [(''type'', JString ''string'')]),
               (''content'', JObject [(''a'', JObject [])])]"
  let ?d2 = "JObject [(''schema'', JObject [(''type'', JString ''string'')])]"
  let ?hs = "\<lparr>HasSchema.Schema = JNull\<rparr>"
  let ?hc = "\<lparr>HasContent.Content = JNull\<rparr>"
  let ?x = "\<lparr>HasSchema = None, HasContent = None\<rparr>"
  have a1: "HasSchema_UnmarshalJSON Inr ?d1 ?hs =
     Inr \<lparr>HasSchema.Schema = JObject [(''type'', JString ''string'')]\<rparr>"
    and a2: "HasContent_UnmarshalJSON Inr ?d1 ?hc =
     Inr \<lparr>HasContent.Content = JObject [(''a'', JObject [])]\<rparr>"
    and b1: "HasSchema_UnmarshalJSON Inr ?d2 ?hs =
     Inr \<lparr>HasSchema.Schema = JObject [(''type'', JString ''string'')]\<rparr>"
    and b2: "HasContent_UnmarshalJSON Inr ?d2 ?hc =
     Inl (ErrorString ''required key missing: content'')"
    by code_simp+
  have a: "SchemaXORContent_UnmarshalJSON Inr ?d1 ?x =
     Inl (ErrorString ''not constraint failed for SchemaXORContent'')"
    using schema_xor_content [where any = Inr and data = ?d1 and hs = ?hs and hc = ?hc
        and s = ?x] a1 a2
    by (simp add: failed_def)
  have b: "SchemaXORContent_UnmarshalJSON Inr ?d2 ?x =
      Inr \<lparr>HasSchema = Some \<lparr>HasSchema.Schema = JObject [(''type'', JString ''string'')]\<rparr>,
           HasContent = None\<rparr>"
    using schema_xor_content [where any = Inr and data = ?d2 and hs = ?hs and hc = ?hc
        and s = ?x] b1 b2
    by (simp add: failed_def)
  from a a1 a2 b show ?thesis by blast
qed

text \<open>
  Claim C7 as stated rejects every payload that contains both keys. Counterexample: in
  \<^verbatim>\<open>{"schema":1e400,"content":{"a":{}}}\<close> the number does not fit \<^verbatim>\<open>float64\<close>, so decoding it
  into \<^verbatim>\<open>interface{}\<close> fails; the forbidden shape and the has-schema shape reject the payload
  for that reason, the has-content shape accepts it, and the group decodes successfully
  although both keys are present.
\<close>

theorem both_keys_accepted:
  "SchemaXORContent_UnmarshalJSON
     (\<lambda>v. if v = JNumber ''1e400''
           then Inl (UnmarshalTypeError ''number 1e400'' ''float64'' [] []) else Inr v)
     (JObject [(''schema'', JNumber ''1e400''), (''content'', JObject [(''a'', JObject [])])])
     \<lparr>HasSchema = None, HasContent = None\<rparr> =
     Inr \<lparr>HasSchema = None,
          HasContent = Some \<lparr>HasContent.Content = JObject [(''a'', JObject [])]\<rparr>\<rparr>"
  by code_simp

subsection \<open>Facts about the flat record decoders\<close>

lemma delete_as_filter: "AList.delete key R = filter (\<lambda>kv. fst kv \<noteq> key) R"
  by (induction R) auto

lemma delete_keys_as_filter: "delete_keys keys R = filter (\<lambda>kv. fst kv \<notin> set keys) R"
  unfolding delete_keys_def
proof (induction keys arbitrary: R)
  case Nil
  then show ?case by simp
next
  case (Cons k keys)
  have "fold AList.delete (k # keys) R =
        filter (\<lambda>kv. fst kv \<notin> set keys) (filter (\<lambda>kv. fst kv \<noteq> k) R)"
    by (simp only: fold_simps Cons.IH delete_as_filter)
  also have "\<dots> = filter (\<lambda>kv. fst kv \<notin> set (k # keys)) R"
    unfolding filter_filter by (intro filter_cong) auto
  finally show ?case .
qed



text \<open>The loop over the raw map: one step.\<close>

lemma range_rawMap_skip:
  "\<not> regexX_MatchString key \<Longrightarrow>
   range_rawMap any ((key, v) # L) (moa, h, R) = range_rawMap any L (moa, h, R)"
  by simp

lemma range_rawMap_step:
  assumes "regexX_MatchString key"
    and "(case moa of None \<Rightarrow> (length h, h @ [[]]) | Some a \<Rightarrow> (a, h)) = (a, h1)"
  shows "range_rawMap any ((key, v) # L) (moa, h, R) =
     (case any v of
        Inl err \<Rightarrow> (Some err, Some a, h1, R)
      | Inr val \<Rightarrow> range_rawMap any L (Some a, h1[a := AList.update key val (h1 ! a)],
                     AList.delete key R))"
  using assms by simp

lemma alloc_cases:
  obtains a h1 where "(case moa of None \<Rightarrow> (length h, h @ [[]]) | Some a \<Rightarrow> (a, h)) = (a, h1)"
    "length h \<le> length h1" "\<forall>b<length h. h1 ! b = h ! b"
    "moa = Some a \<or> (moa = None \<and> a = length h \<and> h1 ! a = [])"
    "moa \<noteq> None \<longrightarrow> h1 = h" "(case moa of None \<Rightarrow> True | Some a \<Rightarrow> a < length h) \<longrightarrow> a < length h1"
  by (cases moa) (auto simp: nth_append)

declare range_rawMap.simps(2) [simp del]

lemma range_rawMap_error:
  assumes "range_rawMap any L (moa, h, R) = (Some err, st')"
  shows "\<exists>kv\<in>set L. regexX_MatchString (fst kv) \<and> any (snd kv) = Inl err"
  using assms
proof (induction L arbitrary: moa h R)
  case Nil
  then show ?case by simp
next
  case (Cons e L)
  obtain key v where e: "e = (key, v)" by (cases e)
  show ?case
  proof (cases "regexX_MatchString key")
    case False
    then show ?thesis using Cons by (auto simp: e range_rawMap_skip)
  next
    case True
    obtain a h1 where ah: "(case moa of None \<Rightarrow> (length h, h @ [[]]) | Some a \<Rightarrow> (a, h)) = (a, h1)"
      by (rule alloc_cases)
    show ?thesis
    proof (cases "any v")
      case (Inl err')
      then show ?thesis using Cons.prems True by (auto simp: e range_rawMap_step[OF True ah])
    next
      case (Inr val)
      then have "range_rawMap any L (Some a, h1[a := AList.update key val (h1 ! a)], AList.delete key R)
                 = (Some err, st')"
        using Cons.prems by (simp add: e range_rawMap_step[OF True ah])
      from Cons.IH[OF this] show ?thesis by auto
    qed
  qed
qed

lemma range_rawMap_None:
  assumes "range_rawMap any L (moa, h, R) = (None, moa', h', R')"
  shows "R' = filter (\<lambda>kv. \<not> (regexX_MatchString (fst kv) \<and> fst kv \<in> fst ` set L)) R
       \<and> (\<forall>kv\<in>set L. regexX_MatchString (fst kv) \<longrightarrow> (\<exists>x. any (snd kv) = Inr x))"
  using assms
proof (induction L arbitrary: moa h R)
  case Nil
  then show ?case by simp
next
  case (Cons e L)
  obtain key v where e: "e = (key, v)" by (cases e)
  show ?case
  proof (cases "regexX_MatchString key")
    case False
    have "filter (\<lambda>kv. \<not> (regexX_MatchString (fst kv) \<and> fst kv \<in> fst ` set (e # L))) R =
          filter (\<lambda>kv. \<not> (regexX_MatchString (fst kv) \<and> fst kv \<in> fst ` set L)) R"
      using False by (intro filter_cong) (auto simp: e)
    then show ?thesis using Cons.IH[of moa h R] Cons.prems False
      by (simp add: e range_rawMap_skip)
  next
    case True
    obtain a h1 where ah: "(case moa of None \<Rightarrow> (length h, h @ [[]]) | Some a \<Rightarrow> (a, h)) = (a, h1)"
      by (rule alloc_cases)
    have f: "filter (\<lambda>kv. \<not> (regexX_MatchString (fst kv) \<and> fst kv \<in> fst ` set (e # L))) R =
          filter (\<lambda>kv. \<not> (regexX_MatchString (fst kv) \<and> fst kv \<in> fst ` set L))
            (AList.delete key R)"
      unfolding delete_as_filter filter_filter using True
      by (intro filter_cong) (auto simp: e)
    show ?thesis
    proof (cases "any v")
      case (Inl err')
      then show ?thesis using Cons.prems by (simp add: e range_rawMap_step[OF True ah])
    next
      case (Inr val)
      then have "range_rawMap any L (Some a, h1[a := AList.update key val (h1 ! a)], AList.delete key R)
                 = (None, moa', h', R')"
        using Cons.prems by (simp add: e range_rawMap_step[OF True ah])
      from Cons.IH[OF this] show ?thesis unfolding f using Inr by (simp add: e)
    qed
  qed
qed


lemma check_required_first_missing:
  "check_required keys R =
     map_option (\<lambda>key. ErrorString (''required key missing: '' @ key)) (first_missing keys R)"
  by (induction keys) (simp_all add: first_missing_def)

lemma first_missing_Some:
  "first_missing keys R = Some key \<Longrightarrow> key \<in> set keys \<and> \<not> found R key"
  unfolding first_missing_def by (induction keys) (auto split: if_splits)

lemma first_missing_None: "first_missing keys R = None \<longleftrightarrow> (\<forall>key\<in>set keys. found R key)"
  unfolding first_missing_def by (induction keys) auto

lemma range_order_set: "range_order rng \<Longrightarrow> set (rng m) = set m"
  by (metis range_order_def set_mset_mset)

lemma range_order_keys: "range_order rng \<Longrightarrow> mset (map fst (rng m)) = mset (map fst m)"
  by (metis range_order_def mset_map)

lemma fmt_strings_single: "fmt_strings [key] = ''['' @ key @ '']''"
  by (simp add: fmt_strings_def)

lemma mset_single_list: "mset ks = mset [key] \<Longrightarrow> ks = [key]"
  by (cases ks) auto

lemma range_order_id: "range_order (\<lambda>m. m)"
  by (simp add: range_order_def)

lemma Spec_unfold:
  "Spec_UnmarshalJSON rng any decf data (s, h) =
     (case Spec_fields decf data (s, h) of
        (Some err, k, h1) \<Rightarrow> (Inl err, h1)
      | (None, k, h1) \<Rightarrow>
          (case first_missing requireKeysSpec (rawMap_of data) of
             Some key \<Rightarrow> (Inl (ErrorString (''required key missing: '' @ key)), h1)
           | None \<Rightarrow>
               (case extension_stage rng any ''Spec''
                       (delete_keys knownKeysSpec (rawMap_of data)) (Spec.MapOfAnything s) h1 of
                  (Inl err, h') \<Rightarrow> (Inl err, h')
                | (Inr moa, h') \<Rightarrow> (Inr \<lparr>Spec.Known = k, MapOfAnything = moa\<rparr>, h'))))"
proof -
  obtain e0 k h1 where f: "json_Unmarshal_struct ''openapi3.marshalSpec'' decf data (Spec.Known s, h)
      = (e0, k, h1)" by (metis prod_cases3)
  let ?R = "delete_keys knownKeysSpec (rawMap_of data)"
  obtain e moa' h' R' where r: "range_rawMap any (rng ?R) (Spec.MapOfAnything s, h1, ?R)
      = (e, moa', h', R')" by (metis prod_cases4)
  have s: "s\<lparr>Spec.Known := k, Spec.MapOfAnything := moa'\<rparr> = \<lparr>Spec.Known = k, MapOfAnything = moa'\<rparr>"
    by (cases s) simp
  show ?thesis
    using f r s
    by (cases e0; cases e; cases "first_missing requireKeysSpec (rawMap_of data)")
       (simp_all add: Spec_UnmarshalJSON_def Spec_fields_def extension_stage_def Let_def
          check_required_first_missing)
qed

lemma Parameter_unfold:
  "Parameter_UnmarshalJSON rng any decf data (p, h) =
     (case Parameter_prechecks any decf data (p, h) of
        (Inl err, h1) \<Rightarrow> (Inl err, h1)
      | (Inr mp, h1) \<Rightarrow>
          (case first_missing requireKeysParameter (rawMap_of data) of
             Some key \<Rightarrow> (Inl (ErrorString (''required key missing: '' @ key)), h1)
           | None \<Rightarrow>
               (case extension_stage rng any ''Parameter''
                       (delete_keys knownKeysParameter (rawMap_of data))
                       (Parameter.MapOfAnything mp) h1 of
                  (Inl err, h') \<Rightarrow> (Inl err, h')
                | (Inr moa, h') \<Rightarrow>
                    (Inr ((if Example mp = None \<and> found (rawMap_of data) ''example''
                           then mp\<lparr>Example := Some JNull\<rparr> else mp)
                          \<lparr>Parameter.MapOfAnything := moa\<rparr>), h'))))"
proof -
  obtain e0 mp h1 where f: "json_Unmarshal_marshalParameter any decf data (p, h) = (e0, mp, h1)"
    by (metis prod_cases3)
  let ?R = "delete_keys knownKeysParameter (rawMap_of data)"
  let ?sx = "json_Unmarshal_ptr (SchemaXORContent_UnmarshalJSON any)
              \<lparr>HasSchema = None, HasContent = None\<rparr> data (SchemaXORContent mp)"
  let ?lo = "json_Unmarshal_ptr ParameterLocation_UnmarshalJSON
              \<lparr>PathParameter = None, QueryParameter = None, HeaderParameter = None,
                CookieParameter = None\<rparr> data (Location mp)"
  obtain e moa' h' R' where r: "range_rawMap any (rng ?R) (Parameter.MapOfAnything mp, h1, ?R)
      = (e, moa', h', R')" by (metis prod_cases4)
  show ?thesis
  proof (cases e0)
    case (Some err)
    then show ?thesis using f by (simp add: Parameter_UnmarshalJSON_def Parameter_prechecks_def)
  next
    case None
    show ?thesis
    proof (cases ?sx)
      case (Inl err)
      then show ?thesis using f None
        by (simp add: Parameter_UnmarshalJSON_def Parameter_prechecks_def)
    next
      case sx: (Inr sxc)
      show ?thesis
      proof (cases ?lo)
        case (Inl err)
        then show ?thesis using f None sx
          by (simp add: Parameter_UnmarshalJSON_def Parameter_prechecks_def)
      next
        case lo: (Inr loc)
        show ?thesis
          using f None sx lo r
          by (cases e; cases "first_missing requireKeysParameter (rawMap_of data)")
             (simp_all add: Parameter_UnmarshalJSON_def Parameter_prechecks_def
               extension_stage_def Let_def check_required_first_missing)
      qed
    qed
  qed
qed

lemma unconsumed_as_filter:
  "map fst (filter (\<lambda>kv. \<not> regexX_MatchString (fst kv)) (delete_keys knownKeys (rawMap_of data)))
     = unconsumed knownKeys data"
  by (simp add: unconsumed_def delete_keys_as_filter filter_map comp_def conj_commute)

text \<open>The loop and the check after it, by cases.\<close>

lemma extension_stage_cases:
  assumes ro: "range_order rng"
    and st: "extension_stage rng any typ R moa h = (r, h')"
  shows "(\<exists>e. r = Inl e \<and> (\<exists>kv\<in>set R. regexX_MatchString (fst kv) \<and> any (snd kv) = Inl e))
       \<or> ((\<forall>kv\<in>set R. regexX_MatchString (fst kv) \<longrightarrow> (\<exists>x. any (snd kv) = Inr x))
          \<and> (\<exists>ks. ks \<noteq> [] \<and> mset ks = mset (map fst (filter (\<lambda>kv. \<not> regexX_MatchString (fst kv)) R))
                \<and> r = Inl (ErrorString (''additional properties not allowed in '' @ typ @ '': ''
                                          @ fmt_strings ks))))
       \<or> ((\<forall>kv\<in>set R. regexX_MatchString (fst kv) \<longrightarrow> (\<exists>x. any (snd kv) = Inr x))
          \<and> filter (\<lambda>kv. \<not> regexX_MatchString (fst kv)) R = []
          \<and> (\<exists>moa'. r = Inr moa'))"
proof -
  obtain e moa' h2 R' where l: "range_rawMap any (rng R) (moa, h, R) = (e, moa', h2, R')"
    by (metis prod_cases4)
  show ?thesis
  proof (cases e)
    case (Some err)
    then have "r = Inl err" using st l by (simp add: extension_stage_def)
    moreover have "\<exists>kv\<in>set R. regexX_MatchString (fst kv) \<and> any (snd kv) = Inl err"
      using range_rawMap_error[OF l[unfolded Some]] by (simp add: range_order_set[OF ro])
    ultimately show ?thesis by blast
  next
    case None
    from range_rawMap_None[OF l[unfolded None]] have
      R': "R' = filter (\<lambda>kv. \<not> (regexX_MatchString (fst kv) \<and> fst kv \<in> fst ` set (rng R))) R"
      and d: "\<forall>kv\<in>set R. regexX_MatchString (fst kv) \<longrightarrow> (\<exists>x. any (snd kv) = Inr x)"
      by (simp_all add: range_order_set[OF ro])
    have R'': "R' = filter (\<lambda>kv. \<not> regexX_MatchString (fst kv)) R"
      unfolding R' by (intro filter_cong) (auto simp: range_order_set[OF ro])
    show ?thesis
    proof (cases "R' = []")
      case True
      then have "r = Inr moa'" using st l None by (simp add: extension_stage_def)
      then show ?thesis using d True R'' by auto
    next
      case False
      then have "r = Inl (additional_properties rng typ R')"
        using st l None by (simp add: extension_stage_def)
      then have "r = Inl (ErrorString (''additional properties not allowed in '' @ typ @ '': ''
                                          @ fmt_strings (map fst (rng R'))))"
        by (simp add: additional_properties_def)
      moreover have "mset (map fst (rng R')) = mset (map fst R')" by (rule range_order_keys[OF ro])
      moreover have "map fst (rng R') \<noteq> []"
        using False range_order_set[OF ro, of R'] by auto
      ultimately show ?thesis using d R'' by blast
    qed
  qed
qed

lemma extension_stage_decided:
  assumes ro: "range_order rng"
    and d: "\<forall>kv\<in>set R. regexX_MatchString (fst kv) \<longrightarrow> (\<exists>x. any (snd kv) = Inr x)"
  shows "(filter (\<lambda>kv. \<not> regexX_MatchString (fst kv)) R = [] \<longrightarrow>
            (\<exists>moa' h'. extension_stage rng any typ R moa h = (Inr moa', h')))
       \<and> (filter (\<lambda>kv. \<not> regexX_MatchString (fst kv)) R \<noteq> [] \<longrightarrow>
            (\<exists>ks h'. mset ks = mset (map fst (filter (\<lambda>kv. \<not> regexX_MatchString (fst kv)) R))
              \<and> extension_stage rng any typ R moa h =
                  (Inl (ErrorString (''additional properties not allowed in '' @ typ @ '': ''
                                     @ fmt_strings ks)), h')))"
proof -
  obtain r h' where st: "extension_stage rng any typ R moa h = (r, h')" by fastforce
  have no: "\<not> (\<exists>e. \<exists>kv\<in>set R. regexX_MatchString (fst kv) \<and> any (snd kv) = Inl e)"
    using d by fastforce
  let ?N = "filter (\<lambda>kv. \<not> regexX_MatchString (fst kv)) R"
  from extension_stage_cases[OF ro st] no consider
    (a) ks where "ks \<noteq> []" "mset ks = mset (map fst ?N)"
        "r = Inl (ErrorString (''additional properties not allowed in '' @ typ @ '': ''
                                          @ fmt_strings ks))"
    | (b) moa' where "?N = []" "r = Inr moa'"
    by blast
  then show ?thesis
  proof cases
    case a
    then have "?N \<noteq> []" by (metis list.map_disc_iff mset_zero_iff)
    then show ?thesis using a st by blast
  next
    case b
    then show ?thesis using st by simp
  qed
qed

lemma extension_stage_forms:
  assumes st: "extension_stage rng any typ R moa h = (Inl e, h')"
  shows "(\<exists>v. any v = Inl e)
       \<or> (\<exists>ks. e = ErrorString (''additional properties not allowed in '' @ typ @ '': ''
                                 @ fmt_strings ks))"
proof -
  obtain e1 moa' h2 R' where l: "range_rawMap any (rng R) (moa, h, R) = (e1, moa', h2, R')"
    by (metis prod_cases4)
  show ?thesis
  proof (cases e1)
    case (Some err)
    then have "e = err" using st l by (simp add: extension_stage_def)
    then show ?thesis using range_rawMap_error[OF l[unfolded Some]] by blast
  next
    case None
    then have "e = additional_properties rng typ R'"
      using st l by (simp add: extension_stage_def split: if_splits)
    then show ?thesis by (auto simp: additional_properties_def)
  qed
qed


lemma extensions_decode_delete:
  "extensions_decode any data \<Longrightarrow>
   \<forall>kv\<in>set (delete_keys knownKeys (rawMap_of data)).
      regexX_MatchString (fst kv) \<longrightarrow> (\<exists>x. any (snd kv) = Inr x)"
  by (auto simp: extensions_decode_def delete_keys_as_filter)

lemma stage_reported:
  fixes knownKeys :: "string list"
  assumes ro: "range_order rng" and ext: "extensions_decode any data"
  defines "R \<equiv> delete_keys knownKeys (rawMap_of data)"
  shows "(unconsumed knownKeys data = [] \<longrightarrow>
            (\<exists>moa' h'. extension_stage rng any typ R moa h = (Inr moa', h')))
       \<and> (unconsumed knownKeys data \<noteq> [] \<longrightarrow>
            (\<exists>ks h'. mset ks = mset (unconsumed knownKeys data)
              \<and> extension_stage rng any typ R moa h =
                  (Inl (ErrorString (''additional properties not allowed in '' @ typ @ '': ''
                                     @ fmt_strings ks)), h')))
       \<and> (\<forall>key. unconsumed knownKeys data = [key] \<longrightarrow>
            (\<exists>h'. extension_stage rng any typ R moa h =
                  (Inl (ErrorString (''additional properties not allowed in '' @ typ @ '': [''
                                     @ key @ '']'')), h')))"
proof -
  let ?N = "filter (\<lambda>kv. \<not> regexX_MatchString (fst kv)) R"
  have u: "map fst ?N = unconsumed knownKeys data"
    unfolding R_def by (rule unconsumed_as_filter)
  have e: "?N = [] \<longleftrightarrow> unconsumed knownKeys data = []"
    using u by (metis list.map_disc_iff)
  note x = extensions_decode_delete[OF ext, of knownKeys, folded R_def]
  note d = extension_stage_decided[OF ro x, of "typ" moa h]
  have 1: "unconsumed knownKeys data = [] \<longrightarrow>
            (\<exists>moa' h'. extension_stage rng any typ R moa h = (Inr moa', h'))"
    using d e by blast
  have 2: "unconsumed knownKeys data \<noteq> [] \<longrightarrow>
            (\<exists>ks h'. mset ks = mset (unconsumed knownKeys data)
              \<and> extension_stage rng any typ R moa h =
                  (Inl (ErrorString (''additional properties not allowed in '' @ typ @ '': ''
                                     @ fmt_strings ks)), h'))"
    using d e u by metis
  have 3: "\<exists>h'. extension_stage rng any typ R moa h =
                  (Inl (ErrorString (''additional properties not allowed in '' @ typ @ '': [''
                                     @ key @ '']'')), h')"
    if k: "unconsumed knownKeys data = [key]" for key
  proof -
    from 2 k obtain ks h' where ks: "mset ks = mset [key]"
      "extension_stage rng any typ R moa h =
                  (Inl (ErrorString (''additional properties not allowed in '' @ typ @ '': ''
                                     @ fmt_strings ks)), h')"
      by auto
    have "ks = [key]" using ks(1) by (rule mset_single_list)
    then show ?thesis using ks(2) by (auto simp: fmt_strings_single)
  qed
  from 1 2 3 show ?thesis by blast
qed

text \<open>Error forms.\<close>

lemma Spec_error_cases:
  assumes "Spec_UnmarshalJSON rng any decf data (s, h) = (Inl e, h')"
  shows "(\<exists>k h1. Spec_fields decf data (s, h) = (Some e, k, h1))
       \<or> (\<exists>v. any v = Inl e)
       \<or> (\<exists>key\<in>set requireKeysSpec. e = ErrorString (''required key missing: '' @ key))
       \<or> (\<exists>ks. e = ErrorString (''additional properties not allowed in Spec: '' @ fmt_strings ks))"
proof -
  obtain e0 k h1 where f: "Spec_fields decf data (s, h) = (e0, k, h1)" by (metis prod_cases3)
  let ?R = "delete_keys knownKeysSpec (rawMap_of data)"
  obtain r h2 where st: "extension_stage rng any ''Spec'' ?R (Spec.MapOfAnything s) h1 = (r, h2)"
    by fastforce
  show ?thesis
  proof (cases e0)
    case (Some err)
    then show ?thesis using assms f by (auto simp: Spec_unfold)
  next
    case None
    show ?thesis
    proof (cases "first_missing requireKeysSpec (rawMap_of data)")
      case (Some key)
      then show ?thesis using assms f None first_missing_Some[OF Some] by (auto simp: Spec_unfold)
    next
      case n: None
      then have "r = Inl e" using assms f None st by (cases r) (auto simp: Spec_unfold)
      from extension_stage_forms[OF st[unfolded this]] show ?thesis by auto
    qed
  qed
qed

lemma Parameter_prechecks_error_cases:
  assumes "Parameter_prechecks any decf data (p, h) = (Inl e, h1)"
  shows "(\<exists>mp. json_Unmarshal_marshalParameter any decf data (p, h) = (Some e, mp, h1))
       \<or> e = ErrorString ''not constraint failed for SchemaXORContent''
       \<or> (\<exists>n errs. e = oneOf_error ''SchemaXORContent'' n errs)
       \<or> (\<exists>n errs. e = oneOf_error ''ParameterLocation'' n errs)"
proof -
  obtain e0 mp h0 where f: "json_Unmarshal_marshalParameter any decf data (p, h) = (e0, mp, h0)"
    by (metis prod_cases3)
  let ?sx = "json_Unmarshal_ptr (SchemaXORContent_UnmarshalJSON any)
              \<lparr>HasSchema = None, HasContent = None\<rparr> data (SchemaXORContent mp)"
  let ?lo = "json_Unmarshal_ptr ParameterLocation_UnmarshalJSON
              \<lparr>PathParameter = None, QueryParameter = None, HeaderParameter = None,
                CookieParameter = None\<rparr> data (Location mp)"
  show ?thesis
  proof (cases e0)
    case (Some err)
    then show ?thesis using assms f by (auto simp: Parameter_prechecks_def)
  next
    case None
    show ?thesis
    proof (cases ?sx)
      case (Inl err)
      then have "e = err" using assms f None by (simp add: Parameter_prechecks_def)
      moreover have "err = ErrorString ''not constraint failed for SchemaXORContent''
          \<or> (\<exists>n errs. err = oneOf_error ''SchemaXORContent'' n errs)"
        using Inl unfolding json_Unmarshal_ptr_def SchemaXORContent_result oneOf_outcome_def
        by (auto split: if_splits sum.splits)
      ultimately show ?thesis by blast
    next
      case sx: (Inr sxc)
      show ?thesis
      proof (cases ?lo)
        case (Inl err)
        then have "e = err" using assms f None sx by (simp add: Parameter_prechecks_def)
        moreover have "\<exists>n errs. err = oneOf_error ''ParameterLocation'' n errs"
          using Inl unfolding json_Unmarshal_ptr_def ParameterLocation_result oneOf_outcome_def
          by (auto split: if_splits sum.splits)
        ultimately show ?thesis by blast
      next
        case (Inr loc)
        then show ?thesis using assms f None sx by (simp add: Parameter_prechecks_def)
      qed
    qed
  qed
qed

lemma Parameter_error_cases:
  assumes "Parameter_UnmarshalJSON rng any decf data (p, h) = (Inl e, h')"
  shows "(\<exists>mp h1. json_Unmarshal_marshalParameter any decf data (p, h) = (Some e, mp, h1))
       \<or> e = ErrorString ''not constraint failed for SchemaXORContent''
       \<or> (\<exists>n errs. e = oneOf_error ''SchemaXORContent'' n errs)
       \<or> (\<exists>n errs. e = oneOf_error ''ParameterLocation'' n errs)
       \<or> (\<exists>v. any v = Inl e)
       \<or> (\<exists>key\<in>set requireKeysParameter. e = ErrorString (''required key missing: '' @ key))
       \<or> (\<exists>ks. e = ErrorString (''additional properties not allowed in Parameter: ''
                                 @ fmt_strings ks))"
proof -
  obtain r0 h1 where f: "Parameter_prechecks any decf data (p, h) = (r0, h1)" by fastforce
  show ?thesis
  proof (cases r0)
    case (Inl err)
    then have "e = err" using assms f by (simp add: Parameter_unfold)
    then show ?thesis using Parameter_prechecks_error_cases[OF f[unfolded Inl]] by blast
  next
    case (Inr mp)
    let ?R = "delete_keys knownKeysParameter (rawMap_of data)"
    obtain r h2 where st: "extension_stage rng any ''Parameter'' ?R (Parameter.MapOfAnything mp) h1
        = (r, h2)" by fastforce
    show ?thesis
    proof (cases "first_missing requireKeysParameter (rawMap_of data)")
      case (Some key)
      then show ?thesis using assms f Inr first_missing_Some[OF Some]
        by (auto simp: Parameter_unfold)
    next
      case n: None
      then have "r = Inl e" using assms f Inr st by (cases r) (auto simp: Parameter_unfold)
      from extension_stage_forms[OF st[unfolded this]] show ?thesis by auto
    qed
  qed
qed

lemma PathParameter_error_cases:
  assumes "PathParameter_UnmarshalJSON data p = Inl e"
  shows "(\<exists>mp. json_Unmarshal_marshalPathParameter data p = (Some e, mp))
       \<or> e = ErrorString ''required key missing: required''
       \<or> (\<exists>key lit v. e = const_mismatch key lit v)"
proof -
  obtain e0 mp where f: "json_Unmarshal_marshalPathParameter data p = (e0, mp)" by fastforce
  show ?thesis
  proof (cases e0)
    case (Some err)
    then show ?thesis using assms f by (simp add: PathParameter_UnmarshalJSON_def)
  next
    case None
    then show ?thesis using assms f
      by (auto simp: PathParameter_UnmarshalJSON_unfold bad_const_cases
          split: if_splits option.splits)
  qed
qed



lemma found_keys: "found R key \<longleftrightarrow> key \<in> fst ` set R"
  by (simp add: found_def map_of_eq_None_iff)







lemma extensions_decode_Inr: "extensions_decode Inr data"
  by (simp add: extensions_decode_def)

text \<open>
  Members whose key selects no field are skipped by every struct decoder, and the raw map
  keeps the entries of the other keys; so the decoders that precede the check for
  additional properties give the same result with and without such members.
\<close>

lemma regexX_not_known: "regexX_MatchString k \<Longrightarrow> k \<notin> set knownKeysSpec"
  by (auto simp: regexX_MatchString_def knownKeysSpec_def)

lemma decode_object_filter:
  assumes sk: "\<And>key v st. skip key \<Longrightarrow> step key v st = Next None st"
  shows "decode_object step (filter (\<lambda>kv. \<not> skip (fst kv)) kvs) saved st
       = decode_object step kvs saved st"
proof (induction kvs arbitrary: saved st)
  case Nil
  then show ?case by simp
next
  case (Cons kv kvs)
  obtain key v where kv: "kv = (key, v)" by (cases kv)
  show ?case
  proof (cases "skip key")
    case True
    have "(case saved of None \<Rightarrow> None | Some e \<Rightarrow> Some e) = saved" by (cases saved) simp_all
    then show ?thesis using True Cons.IH[of saved st] by (simp add: kv sk)
  next
    case False
    then show ?thesis using Cons.IH by (cases "step key v st") (simp_all add: kv)
  qed
qed

lemma json_Unmarshal_struct_filter:
  assumes "\<And>key v st. skip key \<Longrightarrow> step key v st = Next None st"
  shows "json_Unmarshal_struct typ step (JObject (filter (\<lambda>kv. \<not> skip (fst kv)) kvs)) st
       = json_Unmarshal_struct typ step (JObject kvs) st"
  using decode_object_filter[of skip step, OF assms] by (simp add: json_Unmarshal_struct_def)

lemma map_of_rev_filter:
  "\<not> skip k \<Longrightarrow> map_of (rev (filter (\<lambda>kv. \<not> skip (fst kv)) kvs)) k = map_of (rev kvs) k"
  by (induction kvs) (auto simp: map_add_def split: option.splits)

lemma rawMap_filter:
  "\<not> skip k \<Longrightarrow> map_of (rawMap_of (JObject (filter (\<lambda>kv. \<not> skip (fst kv)) kvs))) k
     = map_of (rawMap_of (JObject kvs)) k"
  by (simp add: map_of_rawMap_of_object map_of_rev_filter)

lemma PathParameter_cong:
  assumes "json_Unmarshal_marshalPathParameter d1 p = json_Unmarshal_marshalPathParameter d2 p"
    and "map_of (rawMap_of d1) ''in'' = map_of (rawMap_of d2) ''in''"
    and "map_of (rawMap_of d1) ''required'' = map_of (rawMap_of d2) ''required''"
  shows "PathParameter_UnmarshalJSON d1 p = PathParameter_UnmarshalJSON d2 p"
proof -
  obtain e mp where s: "json_Unmarshal_marshalPathParameter d2 p = (e, mp)" by fastforce
  show ?thesis using assms s
    by (cases e) (simp_all add: PathParameter_UnmarshalJSON_def requireKeysPathParameter_def
        found_def Let_def bad_const_delete bad_const_def split: option.splits)
qed

lemma QueryParameter_cong:
  assumes "json_Unmarshal_marshalQueryParameter d1 p = json_Unmarshal_marshalQueryParameter d2 p"
    and "map_of (rawMap_of d1) ''in'' = map_of (rawMap_of d2) ''in''"
  shows "QueryParameter_UnmarshalJSON d1 p = QueryParameter_UnmarshalJSON d2 p"
proof -
  obtain e mp where s: "json_Unmarshal_marshalQueryParameter d2 p = (e, mp)" by fastforce
  show ?thesis using assms s
    by (cases e) (simp_all add: QueryParameter_UnmarshalJSON_def Let_def bad_const_def
        split: option.splits)
qed

lemma HeaderParameter_cong:
  assumes "map_of (rawMap_of d1) ''in'' = map_of (rawMap_of d2) ''in''"
    and "map_of (rawMap_of d1) ''style'' = map_of (rawMap_of d2) ''style''"
  shows "HeaderParameter_UnmarshalJSON d1 p = HeaderParameter_UnmarshalJSON d2 p"
  using assms by (simp add: HeaderParameter_UnmarshalJSON_unfold bad_const_def split: option.splits)

lemma CookieParameter_cong:
  assumes "map_of (rawMap_of d1) ''in'' = map_of (rawMap_of d2) ''in''"
    and "map_of (rawMap_of d1) ''style'' = map_of (rawMap_of d2) ''style''"
  shows "CookieParameter_UnmarshalJSON d1 p = CookieParameter_UnmarshalJSON d2 p"
  using assms by (simp add: CookieParameter_UnmarshalJSON_unfold bad_const_def split: option.splits)

lemma HasSchema_cong:
  assumes "json_Unmarshal_marshalHasSchema any d1 p = json_Unmarshal_marshalHasSchema any d2 p"
    and "map_of (rawMap_of d1) ''schema'' = map_of (rawMap_of d2) ''schema''"
  shows "HasSchema_UnmarshalJSON any d1 p = HasSchema_UnmarshalJSON any d2 p"
proof -
  obtain e mp where s: "json_Unmarshal_marshalHasSchema any d2 p = (e, mp)" by fastforce
  show ?thesis using assms s
    by (cases e) (simp_all add: HasSchema_UnmarshalJSON_def requireKeysHasSchema_def found_def
        Let_def split: option.splits)
qed

lemma HasContent_cong:
  assumes "json_Unmarshal_marshalHasContent any d1 p = json_Unmarshal_marshalHasContent any d2 p"
    and "map_of (rawMap_of d1) ''content'' = map_of (rawMap_of d2) ''content''"
  shows "HasContent_UnmarshalJSON any d1 p = HasContent_UnmarshalJSON any d2 p"
proof -
  obtain e mp where s: "json_Unmarshal_marshalHasContent any d2 p = (e, mp)" by fastforce
  show ?thesis using assms s
    by (cases e) (simp_all add: HasContent_UnmarshalJSON_def requireKeysHasContent_def found_def
        Let_def split: option.splits)
qed

lemma SchemaXORContentNot_cong:
  assumes "json_Unmarshal_marshalSchemaXORContentNot any d1 p
         = json_Unmarshal_marshalSchemaXORContentNot any d2 p"
    and "map_of (rawMap_of d1) ''schema'' = map_of (rawMap_of d2) ''schema''"
    and "map_of (rawMap_of d1) ''content'' = map_of (rawMap_of d2) ''content''"
  shows "SchemaXORContentNot_UnmarshalJSON any d1 p = SchemaXORContentNot_UnmarshalJSON any d2 p"
proof -
  obtain e mp where s: "json_Unmarshal_marshalSchemaXORContentNot any d2 p = (e, mp)"
    by fastforce
  show ?thesis using assms s
    by (cases e) (simp_all add: SchemaXORContentNot_UnmarshalJSON_def
        requireKeysSchemaXORContentNot_def found_def Let_def split: option.splits)
qed

lemma known_fold_refl:
  "\<forall>name\<in>set knownKeysSpec. equalFold name name"
  "\<forall>name\<in>set knownKeysParameter. equalFold name name"
  by (simp_all add: knownKeysSpec_def knownKeysParameter_def equalFold.simps toLower_def)

lemma selects_no_field_not_known:
  "selects_no_field knownKeysSpec key \<Longrightarrow> key \<notin> set knownKeysSpec"
  "selects_no_field knownKeysParameter key \<Longrightarrow> key \<notin> set knownKeysParameter"
  using known_fold_refl by (auto simp: selects_no_field_def)

lemma selects_no_field_Parameter:
  assumes "selects_no_field knownKeysParameter key"
  shows "\<not> equalFold ''example'' key" "\<not> equalFold ''style'' key"
    "\<not> equalFold ''schema'' key" "\<not> equalFold ''content'' key"
  using assms by (simp_all add: selects_no_field_def knownKeysParameter_def)

lemma regexX_not_known_Parameter: "regexX_MatchString k \<Longrightarrow> k \<notin> set knownKeysParameter"
  by (auto simp: regexX_MatchString_def knownKeysParameter_def)

lemma ParameterLocation_filter:
  assumes st: "\<forall>key\<in>K. \<not> equalFold ''style'' key"
    and ks: "''in'' \<notin> K" "''required'' \<notin> K" "''style'' \<notin> K"
  shows "ParameterLocation_UnmarshalJSON (JObject (filter (\<lambda>kv. fst kv \<notin> K) kvs)) pl
       = ParameterLocation_UnmarshalJSON (JObject kvs) pl"
proof -
  let ?dz = "JObject (filter (\<lambda>kv. fst kv \<notin> K) kvs)"
  let ?d = "JObject kvs"
  note rf = rawMap_filter[of "\<lambda>k. k \<in> K", of _ kvs]
  have p: "\<And>p. PathParameter_UnmarshalJSON ?dz p = PathParameter_UnmarshalJSON ?d p"
  proof (rule PathParameter_cong)
    fix p
    show "json_Unmarshal_marshalPathParameter ?dz p = json_Unmarshal_marshalPathParameter ?d p"
      unfolding json_Unmarshal_marshalPathParameter_def
      by (rule json_Unmarshal_struct_filter[of "\<lambda>k. k \<in> K"])
         (use st in \<open>simp add: marshalPathParameter_member_def\<close>)
  qed (use ks rf in simp_all)
  have q: "\<And>p. QueryParameter_UnmarshalJSON ?dz p = QueryParameter_UnmarshalJSON ?d p"
  proof (rule QueryParameter_cong)
    fix p
    show "json_Unmarshal_marshalQueryParameter ?dz p = json_Unmarshal_marshalQueryParameter ?d p"
      unfolding json_Unmarshal_marshalQueryParameter_def
      by (rule json_Unmarshal_struct_filter[of "\<lambda>k. k \<in> K"])
         (use st in \<open>simp add: marshalQueryParameter_member_def\<close>)
  qed (use ks rf in simp_all)
  have h: "\<And>p. HeaderParameter_UnmarshalJSON ?dz p = HeaderParameter_UnmarshalJSON ?d p"
    by (rule HeaderParameter_cong) (use ks rf in simp_all)
  have c: "\<And>p. CookieParameter_UnmarshalJSON ?dz p = CookieParameter_UnmarshalJSON ?d p"
    by (rule CookieParameter_cong) (use ks rf in simp_all)
  show ?thesis
    unfolding ParameterLocation_result ParameterLocation_trials_def ParameterLocation_stored_def
      json_Unmarshal_ptr_def
    by (simp add: p q h c)
qed

lemma SchemaXORContent_filter:
  assumes st: "\<forall>key\<in>K. \<not> equalFold ''schema'' key \<and> \<not> equalFold ''content'' key"
    and ks: "''schema'' \<notin> K" "''content'' \<notin> K"
  shows "SchemaXORContent_UnmarshalJSON any (JObject (filter (\<lambda>kv. fst kv \<notin> K) kvs)) x
       = SchemaXORContent_UnmarshalJSON any (JObject kvs) x"
proof -
  let ?dz = "JObject (filter (\<lambda>kv. fst kv \<notin> K) kvs)"
  let ?d = "JObject kvs"
  note rf = rawMap_filter[of "\<lambda>k. k \<in> K", of _ kvs]
  have a: "\<And>p. HasSchema_UnmarshalJSON any ?dz p = HasSchema_UnmarshalJSON any ?d p"
  proof (rule HasSchema_cong)
    fix p
    show "json_Unmarshal_marshalHasSchema any ?dz p = json_Unmarshal_marshalHasSchema any ?d p"
      unfolding json_Unmarshal_marshalHasSchema_def
      by (rule json_Unmarshal_struct_filter[of "\<lambda>k. k \<in> K"])
         (use st in \<open>simp add: marshalHasSchema_member_def\<close>)
  qed (use ks rf in simp_all)
  have b: "\<And>p. HasContent_UnmarshalJSON any ?dz p = HasContent_UnmarshalJSON any ?d p"
  proof (rule HasContent_cong)
    fix p
    show "json_Unmarshal_marshalHasContent any ?dz p = json_Unmarshal_marshalHasContent any ?d p"
      unfolding json_Unmarshal_marshalHasContent_def
      by (rule json_Unmarshal_struct_filter[of "\<lambda>k. k \<in> K"])
         (use st in \<open>simp add: marshalHasContent_member_def\<close>)
  qed (use ks rf in simp_all)
  have n: "\<And>p. SchemaXORContentNot_UnmarshalJSON any ?dz p
              = SchemaXORContentNot_UnmarshalJSON any ?d p"
  proof (rule SchemaXORContentNot_cong)
    fix p
    show "json_Unmarshal_marshalSchemaXORContentNot any ?dz p
        = json_Unmarshal_marshalSchemaXORContentNot any ?d p"
      unfolding json_Unmarshal_marshalSchemaXORContentNot_def
      by (rule json_Unmarshal_struct_filter[of "\<lambda>k. k \<in> K"])
         (use st in \<open>simp add: marshalSchemaXORContentNot_member_def\<close>)
  qed (use ks rf in simp_all)
  show ?thesis
    unfolding SchemaXORContent_result forbidden_shape_def SchemaXORContent_trials_def
      SchemaXORContent_stored_def json_Unmarshal_ptr_def
    by (simp add: a b n)
qed

lemma Parameter_prechecks_filter:
  fixes p :: "'k Parameter"
  assumes sk: "\<forall>key\<in>K. \<forall>v st. decf key v st = Next None st"
    and nf: "\<forall>key\<in>K. selects_no_field knownKeysParameter key"
  shows "Parameter_prechecks any decf (JObject (filter (\<lambda>kv. fst kv \<notin> K) kvs)) (p, h)
       = Parameter_prechecks any decf (JObject kvs) (p, h)"
proof -
  let ?dz = "JObject (filter (\<lambda>kv. fst kv \<notin> K) kvs)"
  let ?d = "JObject kvs"
  have nk: "\<forall>key\<in>K. key \<notin> set knownKeysParameter"
    using nf selects_no_field_not_known(2) by blast
  then have ks: "''in'' \<notin> K" "''required'' \<notin> K" "''style'' \<notin> K" "''schema'' \<notin> K"
    "''content'' \<notin> K"
    by (auto simp: knownKeysParameter_def)
  have m: "json_Unmarshal_marshalParameter any decf ?dz (p, h)
         = json_Unmarshal_marshalParameter any decf ?d (p, h)"
  proof -
    have "json_Unmarshal_struct ''openapi3.marshalParameter'' (marshalParameter_member any decf)
            ?dz (Parameter.Known p, Example p, h)
        = json_Unmarshal_struct ''openapi3.marshalParameter'' (marshalParameter_member any decf)
            ?d (Parameter.Known p, Example p, h)"
      by (rule json_Unmarshal_struct_filter[of "\<lambda>k. k \<in> K"])
         (use sk nf selects_no_field_Parameter(1) in
            \<open>auto simp: marshalParameter_member_def split: prod.splits\<close>)
    then show ?thesis by (simp add: json_Unmarshal_marshalParameter_def)
  qed
  have x: "\<And>x. SchemaXORContent_UnmarshalJSON any ?dz x = SchemaXORContent_UnmarshalJSON any ?d x"
    by (rule SchemaXORContent_filter) (use nf selects_no_field_Parameter ks in auto)
  have l: "\<And>pl. ParameterLocation_UnmarshalJSON ?dz pl = ParameterLocation_UnmarshalJSON ?d pl"
    by (rule ParameterLocation_filter) (use nf selects_no_field_Parameter ks in auto)
  obtain e mp h1 where j: "json_Unmarshal_marshalParameter any decf ?d (p, h) = (e, mp, h1)"
    by (metis prod_cases3)
  have px: "\<And>ptr. json_Unmarshal_ptr (SchemaXORContent_UnmarshalJSON any)
              \<lparr>HasSchema = None, HasContent = None\<rparr> ?dz ptr
         = json_Unmarshal_ptr (SchemaXORContent_UnmarshalJSON any)
              \<lparr>HasSchema = None, HasContent = None\<rparr> ?d ptr"
    by (simp add: json_Unmarshal_ptr_def x)
  have pl: "\<And>ptr. json_Unmarshal_ptr ParameterLocation_UnmarshalJSON
              \<lparr>PathParameter = None, QueryParameter = None, HeaderParameter = None,
                CookieParameter = None\<rparr> ?dz ptr
         = json_Unmarshal_ptr ParameterLocation_UnmarshalJSON
              \<lparr>PathParameter = None, QueryParameter = None, HeaderParameter = None,
                CookieParameter = None\<rparr> ?d ptr"
    by (simp add: json_Unmarshal_ptr_def l)
  show ?thesis
    unfolding Parameter_prechecks_def m j px pl ..
qed

lemma added_keys_unconsumed:
  assumes ro: "range_order rng"
    and st: "extension_stage rng any typ
               (delete_keys known (rawMap_of (JObject (filter (\<lambda>kv. fst kv \<notin> set ks0) kvs))))
               moa h1 = (Inr moa', h2)"
    and nk: "\<forall>key\<in>set ks0. key \<notin> set known \<and> \<not> regexX_MatchString key"
    and kx: "\<forall>key\<in>set known. \<not> regexX_MatchString key"
    and d: "distinct ks0" and sub: "set ks0 \<subseteq> fst ` set kvs"
  shows "extensions_decode any (JObject kvs)
       \<and> mset (unconsumed known (JObject kvs)) = mset ks0"
proof -
  let ?Rz = "rawMap_of (JObject (filter (\<lambda>kv. fst kv \<notin> set ks0) kvs))"
  let ?R = "rawMap_of (JObject kvs)"
  let ?Rk = "delete_keys known ?Rz"
  from extension_stage_cases[OF ro st]
  have dec: "\<forall>kv\<in>set ?Rk. regexX_MatchString (fst kv) \<longrightarrow> (\<exists>x. any (snd kv) = Inr x)"
    and none: "filter (\<lambda>kv. \<not> regexX_MatchString (fst kv)) ?Rk = []"
    by auto
  have dR: "distinct (map fst ?R)" and dR0: "distinct (map fst ?Rz)"
    by (rule distinct_rawMap_of)+
  have same: "\<And>k. k \<notin> set ks0 \<Longrightarrow> map_of ?Rz k = map_of ?R k"
    using rawMap_filter[of "\<lambda>k. k \<in> set ks0"] by simp
  have mem: "\<And>k v. k \<notin> set ks0 \<Longrightarrow> (k, v) \<in> set ?R \<Longrightarrow> (k, v) \<in> set ?Rz"
  proof -
    fix k v assume k: "k \<notin> set ks0" and "(k, v) \<in> set ?R"
    then have "map_of ?R k = Some v" using dR by simp
    then have "map_of ?Rz k = Some v" using same[OF k] by simp
    then show "(k, v) \<in> set ?Rz" by (rule map_of_SomeD)
  qed
  have e: "extensions_decode any (JObject kvs)"
    unfolding extensions_decode_def
  proof (intro ballI impI)
    fix kv assume kv: "kv \<in> set ?R" and x: "regexX_MatchString (fst kv)"
    have "fst kv \<notin> set ks0" using nk x by blast
    then have "kv \<in> set ?Rz" using mem[of "fst kv" "snd kv"] kv by simp
    moreover have "fst kv \<notin> set known" using kx x by blast
    ultimately have "kv \<in> set ?Rk" by (simp add: delete_keys_as_filter)
    then show "\<exists>x. any (snd kv) = Inr x" using dec x by blast
  qed
  let ?U = "unconsumed known (JObject kvs)"
  have dU: "distinct ?U" unfolding unconsumed_def using dR by (rule distinct_filter)
  have "set ?U = set ks0"
  proof
    show "set ?U \<subseteq> set ks0"
    proof
      fix key assume k: "key \<in> set ?U"
      then have in_R: "key \<in> fst ` set ?R" and nkn: "key \<notin> set known"
        and nx: "\<not> regexX_MatchString key"
        by (auto simp: unconsumed_def)
      show "key \<in> set ks0"
      proof (rule ccontr)
        assume n: "key \<notin> set ks0"
        from in_R obtain v where "(key, v) \<in> set ?R" by auto
        then have "(key, v) \<in> set ?Rz" using mem[OF n] by simp
        then have "(key, v) \<in> set ?Rk" using nkn by (simp add: delete_keys_as_filter)
        then have "(key, v) \<in> set (filter (\<lambda>kv. \<not> regexX_MatchString (fst kv)) ?Rk)"
          using nx by simp
        then show False using none by simp
      qed
    qed
    show "set ks0 \<subseteq> set ?U"
    proof
      fix key assume k: "key \<in> set ks0"
      then have "key \<in> fst ` set kvs" using sub by blast
      then have "found ?R key" by (simp add: found_rawMap_of_object)
      then have "key \<in> fst ` set ?R" by (simp add: found_keys)
      then show "key \<in> set ?U" using nk k by (auto simp: unconsumed_def)
    qed
  qed
  then have "mset ?U = mset ks0" using dU d by (simp add: set_eq_iff_mset_eq_distinct)
  with e show ?thesis by simp
qed

lemma added_keys_required:
  assumes fm: "first_missing req
                 (rawMap_of (JObject (filter (\<lambda>kv. fst kv \<notin> set ks0) kvs))) = None"
    and nk: "\<forall>key\<in>set ks0. key \<notin> set req"
  shows "first_missing req (rawMap_of (JObject kvs)) = None"
  unfolding first_missing_None
proof
  fix key assume k: "key \<in> set req"
  then have n: "key \<notin> set ks0" using nk by blast
  have "found (rawMap_of (JObject (filter (\<lambda>kv. fst kv \<notin> set ks0) kvs))) key"
    using fm k unfolding first_missing_None by blast
  then show "found (rawMap_of (JObject kvs)) key"
    using rawMap_filter[of "\<lambda>k. k \<in> set ks0" key kvs] n by (simp add: found_def)
qed

lemma Spec_added_keys:
  fixes s :: "'k Spec"
  assumes ro: "range_order rng"
    and sk: "skips_unselected knownKeysSpec decf"
    and ne: "ks0 \<noteq> []" and d: "distinct ks0" and sub: "set ks0 \<subseteq> fst ` set kvs"
    and nf: "\<forall>key\<in>set ks0. selects_no_field knownKeysSpec key \<and> \<not> regexX_MatchString key"
    and ok: "Spec_UnmarshalJSON rng any decf
               (JObject (filter (\<lambda>kv. fst kv \<notin> set ks0) kvs)) (s, h) = (Inr s', h')"
  shows "\<exists>ks h''. mset ks = mset ks0
           \<and> Spec_UnmarshalJSON rng any decf (JObject kvs) (s, h) =
               (Inl (ErrorString (''additional properties not allowed in Spec: ''
                                  @ fmt_strings ks)), h'')"
proof -
  let ?dz = "JObject (filter (\<lambda>kv. fst kv \<notin> set ks0) kvs)"
  let ?d = "JObject kvs"
  have nk: "\<forall>key\<in>set ks0. key \<notin> set knownKeysSpec \<and> \<not> regexX_MatchString key"
    using nf selects_no_field_not_known(1) by blast
  have f: "Spec_fields decf ?dz (s, h) = Spec_fields decf ?d (s, h)"
    unfolding Spec_fields_def prod.case
    by (rule json_Unmarshal_struct_filter[of "\<lambda>k. k \<in> set ks0"])
       (use sk[unfolded skips_unselected_def] nf in blast)
  obtain e0 k h1 where f0: "Spec_fields decf ?dz (s, h) = (e0, k, h1)" by (metis prod_cases3)
  have e0: "e0 = None" using ok f0 by (cases e0) (simp_all add: Spec_unfold)
  have fm0: "first_missing requireKeysSpec (rawMap_of ?dz) = None"
    using ok f0 e0 by (cases "first_missing requireKeysSpec (rawMap_of ?dz)")
      (simp_all add: Spec_unfold)
  obtain r2 h2 where st: "extension_stage rng any ''Spec''
      (delete_keys knownKeysSpec (rawMap_of ?dz)) (Spec.MapOfAnything s) h1 = (r2, h2)"
    by fastforce
  obtain moa where r2: "r2 = Inr moa" using ok f0 e0 fm0 st by (cases r2) (simp_all add: Spec_unfold)
  have kx: "\<forall>key\<in>set knownKeysSpec. \<not> regexX_MatchString key"
    using regexX_not_known by blast
  from added_keys_unconsumed[OF ro st[unfolded r2] nk kx d sub]
  have ext: "extensions_decode any ?d" and u: "mset (unconsumed knownKeysSpec ?d) = mset ks0"
    by simp_all
  have une: "unconsumed knownKeysSpec ?d \<noteq> []" using u ne by auto
  have fm: "first_missing requireKeysSpec (rawMap_of ?d) = None"
    by (rule added_keys_required[OF fm0])
       (use nk in \<open>auto simp: requireKeysSpec_def knownKeysSpec_def\<close>)
  from stage_reported[OF ro ext, of knownKeysSpec "''Spec''" "Spec.MapOfAnything s" h1] une
  obtain ks h'' where ks: "mset ks = mset (unconsumed knownKeysSpec ?d)"
    "extension_stage rng any ''Spec'' (delete_keys knownKeysSpec (rawMap_of ?d))
        (Spec.MapOfAnything s) h1 =
       (Inl (ErrorString (''additional properties not allowed in '' @ ''Spec'' @ '': ''
                          @ fmt_strings ks)), h'')"
    by blast
  have "Spec_UnmarshalJSON rng any decf ?d (s, h) =
       (Inl (ErrorString (''additional properties not allowed in Spec: '' @ fmt_strings ks)), h'')"
  proof -
    have f1: "Spec_fields decf ?d (s, h) = (None, k, h1)" using f f0 e0 by simp
    show ?thesis using f1 fm ks(2) by (simp add: Spec_unfold)
  qed
  then show ?thesis using ks(1) u by auto
qed

lemma Parameter_added_keys:
  fixes p :: "'k Parameter"
  assumes ro: "range_order rng"
    and sk: "skips_unselected knownKeysParameter decf"
    and ne: "ks0 \<noteq> []" and d: "distinct ks0" and sub: "set ks0 \<subseteq> fst ` set kvs"
    and nf: "\<forall>key\<in>set ks0. selects_no_field knownKeysParameter key \<and> \<not> regexX_MatchString key"
    and ok: "Parameter_UnmarshalJSON rng any decf
               (JObject (filter (\<lambda>kv. fst kv \<notin> set ks0) kvs)) (p, h) = (Inr p', h')"
  shows "\<exists>ks h''. mset ks = mset ks0
           \<and> Parameter_UnmarshalJSON rng any decf (JObject kvs) (p, h) =
               (Inl (ErrorString (''additional properties not allowed in Parameter: ''
                                  @ fmt_strings ks)), h'')"
proof -
  let ?dz = "JObject (filter (\<lambda>kv. fst kv \<notin> set ks0) kvs)"
  let ?d = "JObject kvs"
  have nk: "\<forall>key\<in>set ks0. key \<notin> set knownKeysParameter \<and> \<not> regexX_MatchString key"
    using nf selects_no_field_not_known(2) by blast
  have f: "Parameter_prechecks any decf ?dz (p, h) = Parameter_prechecks any decf ?d (p, h)"
    by (rule Parameter_prechecks_filter) (use sk[unfolded skips_unselected_def] nf in blast)+
  obtain r0 h1 where f0: "Parameter_prechecks any decf ?dz (p, h) = (r0, h1)" by fastforce
  obtain mp where r0: "r0 = Inr mp" using ok f0 by (cases r0) (simp_all add: Parameter_unfold)
  have fm0: "first_missing requireKeysParameter (rawMap_of ?dz) = None"
    using ok f0 r0 by (cases "first_missing requireKeysParameter (rawMap_of ?dz)")
      (simp_all add: Parameter_unfold)
  obtain r2 h2 where st: "extension_stage rng any ''Parameter''
      (delete_keys knownKeysParameter (rawMap_of ?dz)) (Parameter.MapOfAnything mp) h1 = (r2, h2)"
    by fastforce
  obtain moa where r2: "r2 = Inr moa"
    using ok f0 r0 fm0 st by (cases r2) (simp_all add: Parameter_unfold)
  have kx: "\<forall>key\<in>set knownKeysParameter. \<not> regexX_MatchString key"
    using regexX_not_known_Parameter by blast
  from added_keys_unconsumed[OF ro st[unfolded r2] nk kx d sub]
  have ext: "extensions_decode any ?d" and u: "mset (unconsumed knownKeysParameter ?d) = mset ks0"
    by simp_all
  have une: "unconsumed knownKeysParameter ?d \<noteq> []" using u ne by auto
  have fm: "first_missing requireKeysParameter (rawMap_of ?d) = None"
    by (rule added_keys_required[OF fm0])
       (use nk in \<open>auto simp: requireKeysParameter_def knownKeysParameter_def\<close>)
  from stage_reported[OF ro ext, of knownKeysParameter "''Parameter''"
      "Parameter.MapOfAnything mp" h1] une
  obtain ks h'' where ks: "mset ks = mset (unconsumed knownKeysParameter ?d)"
    "extension_stage rng any ''Parameter'' (delete_keys knownKeysParameter (rawMap_of ?d))
        (Parameter.MapOfAnything mp) h1 =
       (Inl (ErrorString (''additional properties not allowed in '' @ ''Parameter'' @ '': ''
                          @ fmt_strings ks)), h'')"
    by blast
  have "Parameter_UnmarshalJSON rng any decf ?d (p, h) =
       (Inl (ErrorString (''additional properties not allowed in Parameter: ''
                          @ fmt_strings ks)), h'')"
  proof -
    have f1: "Parameter_prechecks any decf ?d (p, h) = (Inr mp, h1)" using f f0 r0 by simp
    show ?thesis using f1 fm ks(2) by (simp add: Parameter_unfold)
  qed
  then show ?thesis using ks(1) u by auto
qed

lemma skips_unselected_skip_member: "skips_unselected names skip_member"
  by (simp add: skips_unselected_def skip_member_def)

lemma Spec_reported:
  fixes s :: "'k Spec"
  assumes "range_order rng"
  shows "\<forall>k h1. extensions_decode any data \<and> Spec_fields decf data (s, h) = (None, k, h1)
          \<and> first_missing requireKeysSpec (rawMap_of data) = None \<longrightarrow>
       (unconsumed knownKeysSpec data = [] \<longrightarrow>
          (\<exists>moa h'. Spec_UnmarshalJSON rng any decf data (s, h) =
                       (Inr \<lparr>Spec.Known = k, MapOfAnything = moa\<rparr>, h')))
     \<and> (unconsumed knownKeysSpec data \<noteq> [] \<longrightarrow>
          (\<exists>ks h'. mset ks = mset (unconsumed knownKeysSpec data)
             \<and> Spec_UnmarshalJSON rng any decf data (s, h) =
                 (Inl (ErrorString (''additional properties not allowed in Spec: ''
                                    @ fmt_strings ks)), h')))
     \<and> (\<forall>key. unconsumed knownKeysSpec data = [key] \<longrightarrow>
          (\<exists>h'. Spec_UnmarshalJSON rng any decf data (s, h) =
                 (Inl (ErrorString (''additional properties not allowed in Spec: [''
                                    @ key @ '']'')), h')))"
proof (intro conjI allI impI)
  fix k h1
  assume f: "extensions_decode any data \<and> Spec_fields decf data (s, h) = (None, k, h1)
          \<and> first_missing requireKeysSpec (rawMap_of data) = None"
  then have ext: "extensions_decode any data" by simp
  note r = stage_reported[OF assms ext, of knownKeysSpec "''Spec''" "Spec.MapOfAnything s" h1]
  show "\<exists>moa h'. Spec_UnmarshalJSON rng any decf data (s, h) =
                       (Inr \<lparr>Spec.Known = k, MapOfAnything = moa\<rparr>, h')"
    if "unconsumed knownKeysSpec data = []"
    using r[THEN conjunct1] that f by (auto simp: Spec_unfold)
  show "\<exists>ks h'. mset ks = mset (unconsumed knownKeysSpec data)
             \<and> Spec_UnmarshalJSON rng any decf data (s, h) =
                 (Inl (ErrorString (''additional properties not allowed in Spec: ''
                                    @ fmt_strings ks)), h')"
    if "unconsumed knownKeysSpec data \<noteq> []"
    using r[THEN conjunct2, THEN conjunct1] that f by (auto simp: Spec_unfold)
  show "\<exists>h'. Spec_UnmarshalJSON rng any decf data (s, h) =
                 (Inl (ErrorString (''additional properties not allowed in Spec: [''
                                    @ key @ '']'')), h')"
    if "unconsumed knownKeysSpec data = [key]" for key
    using r[THEN conjunct2, THEN conjunct2] that f by (auto simp: Spec_unfold)
qed

lemma Parameter_reported:
  fixes p :: "'j Parameter"
  assumes "range_order rng"
  shows "\<forall>mp h1. extensions_decode any data
          \<and> Parameter_prechecks any decf data (p, h) = (Inr mp, h1)
          \<and> first_missing requireKeysParameter (rawMap_of data) = None \<longrightarrow>
       (unconsumed knownKeysParameter data = [] \<longrightarrow>
          (\<exists>p' h'. Parameter_UnmarshalJSON rng any decf data (p, h) = (Inr p', h')))
     \<and> (unconsumed knownKeysParameter data \<noteq> [] \<longrightarrow>
          (\<exists>ks h'. mset ks = mset (unconsumed knownKeysParameter data)
             \<and> Parameter_UnmarshalJSON rng any decf data (p, h) =
                 (Inl (ErrorString (''additional properties not allowed in Parameter: ''
                                    @ fmt_strings ks)), h')))
     \<and> (\<forall>key. unconsumed knownKeysParameter data = [key] \<longrightarrow>
          (\<exists>h'. Parameter_UnmarshalJSON rng any decf data (p, h) =
                 (Inl (ErrorString (''additional properties not allowed in Parameter: [''
                                    @ key @ '']'')), h')))"
proof (intro conjI allI impI)
  fix mp h1
  assume f: "extensions_decode any data
          \<and> Parameter_prechecks any decf data (p, h) = (Inr mp, h1)
          \<and> first_missing requireKeysParameter (rawMap_of data) = None"
  then have ext: "extensions_decode any data" by simp
  note r = stage_reported[OF assms ext, of knownKeysParameter "''Parameter''"
      "Parameter.MapOfAnything mp" h1]
  show "\<exists>p' h'. Parameter_UnmarshalJSON rng any decf data (p, h) = (Inr p', h')"
    if "unconsumed knownKeysParameter data = []"
    using r[THEN conjunct1] that f by (auto simp: Parameter_unfold)
  show "\<exists>ks h'. mset ks = mset (unconsumed knownKeysParameter data)
             \<and> Parameter_UnmarshalJSON rng any decf data (p, h) =
                 (Inl (ErrorString (''additional properties not allowed in Parameter: ''
                                    @ fmt_strings ks)), h')"
    if "unconsumed knownKeysParameter data \<noteq> []"
    using r[THEN conjunct2, THEN conjunct1] that f by (auto simp: Parameter_unfold)
  show "\<exists>h'. Parameter_UnmarshalJSON rng any decf data (p, h) =
                 (Inl (ErrorString (''additional properties not allowed in Parameter: [''
                                    @ key @ '']'')), h')"
    if "unconsumed knownKeysParameter data = [key]" for key
    using r[THEN conjunct2, THEN conjunct2] that f by (auto simp: Parameter_unfold)
qed

subsection \<open>Required keys\<close>




subsection \<open>Additional properties\<close>

text \<open>
  Claim C5 (as amended). Let each \<^verbatim>\<open>range\<close> visit every entry of the map once. First,
  take Spec once its tagged fields have decoded, and Parameter once its tagged fields, its
  schema-or-content group and its location have decoded, with no required key missing and
  the value of every \<^verbatim>\<open>x-\<close> key of the payload decodable into \<^verbatim>\<open>interface{}\<close>. Then decoding
  succeeds if no key of the payload is left after the known keys and the \<^verbatim>\<open>x-\<close> keys are
  taken away, and otherwise fails with the one error
  \<^verbatim>\<open>additional properties not allowed in T: [...]\<close> that lists every key left exactly once,
  in the order of the runtime's \<^verbatim>\<open>range\<close>; when one key is left the list is that key.
  Second, let the struct decoder skip the members that select no field, and take a payload
  that contains certain keys, none of them an \<^verbatim>\<open>x-\<close> key and none of them equal to a known key
  even when case is ignored. If the payload without the members of these keys decodes
  successfully, the payload itself fails with that error, and the list is exactly these
  keys.
\<close>

theorem additional_properties_reported:
  fixes s :: "'k Spec" and p :: "'j Parameter"
  assumes "range_order rng"
  shows
   "(\<forall>k h1. extensions_decode any data \<and> Spec_fields decf data (s, h) = (None, k, h1)
          \<and> first_missing requireKeysSpec (rawMap_of data) = None \<longrightarrow>
       (unconsumed knownKeysSpec data = [] \<longrightarrow>
          (\<exists>moa h'. Spec_UnmarshalJSON rng any decf data (s, h) =
                       (Inr \<lparr>Spec.Known = k, MapOfAnything = moa\<rparr>, h')))
     \<and> (unconsumed knownKeysSpec data \<noteq> [] \<longrightarrow>
          (\<exists>ks h'. mset ks = mset (unconsumed knownKeysSpec data)
             \<and> Spec_UnmarshalJSON rng any decf data (s, h) =
                 (Inl (ErrorString (''additional properties not allowed in Spec: ''
                                    @ fmt_strings ks)), h')))
     \<and> (\<forall>key. unconsumed knownKeysSpec data = [key] \<longrightarrow>
          (\<exists>h'. Spec_UnmarshalJSON rng any decf data (s, h) =
                 (Inl (ErrorString (''additional properties not allowed in Spec: [''
                                    @ key @ '']'')), h'))))
    \<and> (\<forall>mp h1. extensions_decode any data
          \<and> Parameter_prechecks any decfP data (p, hp) = (Inr mp, h1)
          \<and> first_missing requireKeysParameter (rawMap_of data) = None \<longrightarrow>
       (unconsumed knownKeysParameter data = [] \<longrightarrow>
          (\<exists>p' h'. Parameter_UnmarshalJSON rng any decfP data (p, hp) = (Inr p', h')))
     \<and> (unconsumed knownKeysParameter data \<noteq> [] \<longrightarrow>
          (\<exists>ks h'. mset ks = mset (unconsumed knownKeysParameter data)
             \<and> Parameter_UnmarshalJSON rng any decfP data (p, hp) =
                 (Inl (ErrorString (''additional properties not allowed in Parameter: ''
                                    @ fmt_strings ks)), h')))
     \<and> (\<forall>key. unconsumed knownKeysParameter data = [key] \<longrightarrow>
          (\<exists>h'. Parameter_UnmarshalJSON rng any decfP data (p, hp) =
                 (Inl (ErrorString (''additional properties not allowed in Parameter: [''
                                    @ key @ '']'')), h'))))
    \<and> (\<forall>kvs added s' h'.
          skips_unselected knownKeysSpec decf
        \<and> added \<noteq> [] \<and> distinct added \<and> set added \<subseteq> fst ` set kvs
        \<and> (\<forall>key\<in>set added. selects_no_field knownKeysSpec key \<and> \<not> regexX_MatchString key)
        \<and> Spec_UnmarshalJSON rng any decf
             (JObject (filter (\<lambda>kv. fst kv \<notin> set added) kvs)) (s, h) = (Inr s', h') \<longrightarrow>
          (\<exists>ks h''. mset ks = mset added
             \<and> Spec_UnmarshalJSON rng any decf (JObject kvs) (s, h) =
                 (Inl (ErrorString (''additional properties not allowed in Spec: ''
                                    @ fmt_strings ks)), h'')))
    \<and> (\<forall>kvs added p' h'.
          skips_unselected knownKeysParameter decfP
        \<and> added \<noteq> [] \<and> distinct added \<and> set added \<subseteq> fst ` set kvs
        \<and> (\<forall>key\<in>set added. selects_no_field knownKeysParameter key
                              \<and> \<not> regexX_MatchString key)
        \<and> Parameter_UnmarshalJSON rng any decfP
             (JObject (filter (\<lambda>kv. fst kv \<notin> set added) kvs)) (p, hp) = (Inr p', h') \<longrightarrow>
          (\<exists>ks h''. mset ks = mset added
             \<and> Parameter_UnmarshalJSON rng any decfP (JObject kvs) (p, hp) =
                 (Inl (ErrorString (''additional properties not allowed in Parameter: ''
                                    @ fmt_strings ks)), h'')))"
proof (intro conjI)
  show "\<forall>k h1. extensions_decode any data \<and> Spec_fields decf data (s, h) = (None, k, h1)
          \<and> first_missing requireKeysSpec (rawMap_of data) = None \<longrightarrow>
       (unconsumed knownKeysSpec data = [] \<longrightarrow>
          (\<exists>moa h'. Spec_UnmarshalJSON rng any decf data (s, h) =
                       (Inr \<lparr>Spec.Known = k, MapOfAnything = moa\<rparr>, h')))
     \<and> (unconsumed knownKeysSpec data \<noteq> [] \<longrightarrow>
          (\<exists>ks h'. mset ks = mset (unconsumed knownKeysSpec data)
             \<and> Spec_UnmarshalJSON rng any decf data (s, h) =
                 (Inl (ErrorString (''additional properties not allowed in Spec: ''
                                    @ fmt_strings ks)), h')))
     \<and> (\<forall>key. unconsumed knownKeysSpec data = [key] \<longrightarrow>
          (\<exists>h'. Spec_UnmarshalJSON rng any decf data (s, h) =
                 (Inl (ErrorString (''additional properties not allowed in Spec: [''
                                    @ key @ '']'')), h')))"
    using Spec_reported[OF assms, where any = any and data = data and decf = decf and s = s
        and h = h]
    by blast
  show "\<forall>mp h1. extensions_decode any data
          \<and> Parameter_prechecks any decfP data (p, hp) = (Inr mp, h1)
          \<and> first_missing requireKeysParameter (rawMap_of data) = None \<longrightarrow>
       (unconsumed knownKeysParameter data = [] \<longrightarrow>
          (\<exists>p' h'. Parameter_UnmarshalJSON rng any decfP data (p, hp) = (Inr p', h')))
     \<and> (unconsumed knownKeysParameter data \<noteq> [] \<longrightarrow>
          (\<exists>ks h'. mset ks = mset (unconsumed knownKeysParameter data)
             \<and> Parameter_UnmarshalJSON rng any decfP data (p, hp) =
                 (Inl (ErrorString (''additional properties not allowed in Parameter: ''
                                    @ fmt_strings ks)), h')))
     \<and> (\<forall>key. unconsumed knownKeysParameter data = [key] \<longrightarrow>
          (\<exists>h'. Parameter_UnmarshalJSON rng any decfP data (p, hp) =
                 (Inl (ErrorString (''additional properties not allowed in Parameter: [''
                                    @ key @ '']'')), h')))"
    using Parameter_reported[OF assms, where any = any and data = data and decf = decfP
        and p = p and h = hp]
    by blast
  show "\<forall>kvs added s' h'.
          skips_unselected knownKeysSpec decf
        \<and> added \<noteq> [] \<and> distinct added \<and> set added \<subseteq> fst ` set kvs
        \<and> (\<forall>key\<in>set added. selects_no_field knownKeysSpec key \<and> \<not> regexX_MatchString key)
        \<and> Spec_UnmarshalJSON rng any decf
             (JObject (filter (\<lambda>kv. fst kv \<notin> set added) kvs)) (s, h) = (Inr s', h') \<longrightarrow>
          (\<exists>ks h''. mset ks = mset added
             \<and> Spec_UnmarshalJSON rng any decf (JObject kvs) (s, h) =
                 (Inl (ErrorString (''additional properties not allowed in Spec: ''
                                    @ fmt_strings ks)), h''))"
    using Spec_added_keys[OF assms] by blast
  show "\<forall>kvs added p' h'.
          skips_unselected knownKeysParameter decfP
        \<and> added \<noteq> [] \<and> distinct added \<and> set added \<subseteq> fst ` set kvs
        \<and> (\<forall>key\<in>set added. selects_no_field knownKeysParameter key
                              \<and> \<not> regexX_MatchString key)
        \<and> Parameter_UnmarshalJSON rng any decfP
             (JObject (filter (\<lambda>kv. fst kv \<notin> set added) kvs)) (p, hp) = (Inr p', h') \<longrightarrow>
          (\<exists>ks h''. mset ks = mset added
             \<and> Parameter_UnmarshalJSON rng any decfP (JObject kvs) (p, hp) =
                 (Inl (ErrorString (''additional properties not allowed in Parameter: ''
                                    @ fmt_strings ks)), h''))"
    using Parameter_added_keys[OF assms] by blast
qed

text \<open>
  Instances of the C5 theorem: a Spec payload with the extra key \<^verbatim>\<open>bogus\<close>, one with the
  extra keys \<^verbatim>\<open>bogus\<close> and \<^verbatim>\<open>zed\<close>, one with no extra key, a Parameter payload with the
  extra key \<^verbatim>\<open>bogus\<close>, and the valid Parameter payload \<^verbatim>\<open>{"name":"id","in":"query",...}\<close> with
  the member \<^verbatim>\<open>"bogus":null\<close> added after the first member.
\<close>

theorem additional_properties_reported_witness:
  "Spec_UnmarshalJSON (\<lambda>m. m) Inr skip_member
         (JObject [(''openapi'', JString ''3.0.3''),
                   (''info'', JObject [(''title'', JString ''t''), (''version'', JString ''1'')]),
                   (''paths'', JObject []), (''x-a'', JNumber ''1''), (''bogus'', JNull)])
         (\<lparr>Spec.Known = (), MapOfAnything = None\<rparr>, []) =
     (Inl (ErrorString ''additional properties not allowed in Spec: [bogus]''),
      [[(''x-a'', JNumber ''1'')]])
   \<and> (\<exists>ks h'. mset ks = mset [''bogus'', ''zed'']
        \<and> Spec_UnmarshalJSON (\<lambda>m. m) Inr skip_member
         (JObject [(''openapi'', JString ''3.0.3''),
                   (''info'', JObject [(''title'', JString ''t''), (''version'', JString ''1'')]),
                   (''paths'', JObject []), (''bogus'', JNull), (''x-a'', JNumber ''1''),
                   (''zed'', JNull)])
         (\<lparr>Spec.Known = (), MapOfAnything = None\<rparr>, []) =
         (Inl (ErrorString (''additional properties not allowed in Spec: '' @ fmt_strings ks)), h'))
   \<and> Spec_UnmarshalJSON (\<lambda>m. m) Inr skip_member
         (JObject [(''openapi'', JString ''3.0.3''),
                   (''info'', JObject [(''title'', JString ''t''), (''version'', JString ''1'')]),
                   (''paths'', JObject []), (''x-a'', JNumber ''1'')])
         (\<lparr>Spec.Known = (), MapOfAnything = None\<rparr>, []) =
     (Inr \<lparr>Spec.Known = (), MapOfAnything = Some 0\<rparr>, [[(''x-a'', JNumber ''1'')]])
   \<and> Parameter_UnmarshalJSON (\<lambda>m. m) Inr skip_member
         (JObject [(''name'', JString ''id''), (''in'', JString ''query''),
                   (''schema'', JObject [(''type'', JString ''string'')]), (''bogus'', JNull)])
         (\<lparr>Parameter.Known = (), Example = None, SchemaXORContent = None, Location = None,
            MapOfAnything = None\<rparr>, []) =
     (Inl (ErrorString ''additional properties not allowed in Parameter: [bogus]''), [])
   \<and> Parameter_UnmarshalJSON (\<lambda>m. m) Inr skip_member
         (JObject [(''name'', JString ''id''), (''bogus'', JNull), (''in'', JString ''query''),
                   (''schema'', JObject [(''type'', JString ''string'')])])
         (\<lparr>Parameter.Known = (), Example = None, SchemaXORContent = None, Location = None,
            MapOfAnything = None\<rparr>, []) =
     (Inl (ErrorString ''additional properties not allowed in Parameter: [bogus]''), [])"
proof -
  let ?skip = "skip_member :: string \<Rightarrow> json \<Rightarrow> unit \<times> heap \<Rightarrow> (unit \<times> heap) outcome"
  let ?s = "\<lparr>Spec.Known = (), MapOfAnything = None\<rparr>"
  let ?p = "\<lparr>Parameter.Known = (), Example = None, SchemaXORContent = None, Location = None,
            MapOfAnything = None\<rparr>"
  let ?info = "(''info'', JObject [(''title'', JString ''t''), (''version'', JString ''1'')])"
  let ?da = "JObject [(''openapi'', JString ''3.0.3''), ?info,
                   (''paths'', JObject []), (''x-a'', JNumber ''1''), (''bogus'', JNull)]"
  let ?db = "JObject [(''openapi'', JString ''3.0.3''), ?info,
                   (''paths'', JObject []), (''bogus'', JNull), (''x-a'', JNumber ''1''),
                   (''zed'', JNull)]"
  let ?dc = "JObject [(''name'', JString ''id''), (''in'', JString ''query''),
                   (''schema'', JObject [(''type'', JString ''string'')]), (''bogus'', JNull)]"
  let ?dd = "JObject [(''openapi'', JString ''3.0.3''), ?info,
                   (''paths'', JObject []), (''x-a'', JNumber ''1'')]"
  let ?ke = "[(''name'', JString ''id''), (''bogus'', JNull), (''in'', JString ''query''),
                   (''schema'', JObject [(''type'', JString ''string'')])]"
  let ?mp = "\<lparr>Parameter.Known = (), Example = None,
            SchemaXORContent = Some \<lparr>HasSchema = Some \<lparr>HasSchema.Schema =
                JObject [(''type'', JString ''string'')]\<rparr>, HasContent = None\<rparr>,
            Location = Some \<lparr>PathParameter = None,
                QueryParameter = Some \<lparr>QueryParameter.Style = None\<rparr>,
                HeaderParameter = None, CookieParameter = None\<rparr>,
            MapOfAnything = None\<rparr>"
  have fa: "Spec_fields ?skip ?da (?s, []) = (None, (), [])"
    and ma: "first_missing requireKeysSpec (rawMap_of ?da) = None"
    and ua: "unconsumed knownKeysSpec ?da = [''bogus'']"
    and fb: "Spec_fields ?skip ?db (?s, []) = (None, (), [])"
    and mb: "first_missing requireKeysSpec (rawMap_of ?db) = None"
    and ub: "unconsumed knownKeysSpec ?db = [''bogus'', ''zed'']"
    and mc: "first_missing requireKeysParameter (rawMap_of ?dc) = None"
    and uc: "unconsumed knownKeysParameter ?dc = [''bogus'']"
    and fd: "Spec_fields ?skip ?dd (?s, []) = (None, (), [])"
    and md: "first_missing requireKeysSpec (rawMap_of ?dd) = None"
    and ud: "unconsumed knownKeysSpec ?dd = []"
    by code_simp+
  have fc: "Parameter_prechecks Inr ?skip ?dc (?p, []) = (Inr ?mp, [])"
    by code_simp
  have ha: "snd (Spec_UnmarshalJSON (\<lambda>m. m) Inr ?skip ?da (?s, [])) = [[(''x-a'', JNumber ''1'')]]"
    and hc: "snd (Parameter_UnmarshalJSON (\<lambda>m. m) Inr ?skip ?dc (?p, [])) = []"
    and rd: "snd (Spec_UnmarshalJSON (\<lambda>m. m) Inr ?skip ?dd (?s, [])) = [[(''x-a'', JNumber ''1'')]]"
       "Spec.MapOfAnything (projr (fst (Spec_UnmarshalJSON (\<lambda>m. m) Inr ?skip ?dd (?s, [])))) = Some 0"
    and he: "snd (Parameter_UnmarshalJSON (\<lambda>m. m) Inr ?skip (JObject ?ke) (?p, [])) = []"
    by code_simp+
  have oe: "Parameter_UnmarshalJSON (\<lambda>m. m) Inr ?skip
              (JObject (filter (\<lambda>kv. fst kv \<notin> set [''bogus'']) ?ke)) (?p, []) = (Inr ?mp, [])"
    by code_simp
  have ne: "\<forall>key\<in>set [''bogus'']. selects_no_field knownKeysParameter key
                \<and> \<not> regexX_MatchString key"
    by (simp add: selects_no_field_def knownKeysParameter_def regexX_MatchString_def
        equalFold.simps toLower_def)
  note ta = additional_properties_reported [OF range_order_id,
        where any = Inr and data = ?da and decf = ?skip and s = ?s and h = "[]", THEN conjunct1]
  note tb = additional_properties_reported [OF range_order_id,
        where any = Inr and data = ?db and decf = ?skip and s = ?s and h = "[]", THEN conjunct1]
  note tc = additional_properties_reported [OF range_order_id,
        where any = Inr and data = ?dc and decfP = ?skip and p = ?p and hp = "[]",
        THEN conjunct2, THEN conjunct1]
  note td = additional_properties_reported [OF range_order_id,
        where any = Inr and data = ?dd and decf = ?skip and s = ?s and h = "[]", THEN conjunct1]
  note te = additional_properties_reported [OF range_order_id,
        where any = Inr and decfP = ?skip and p = ?p and hp = "[]",
        THEN conjunct2, THEN conjunct2, THEN conjunct2, rule_format,
        where kvs = ?ke and added = "[''bogus'']" and p' = ?mp and h' = "[]"]
  have a: "Spec_UnmarshalJSON (\<lambda>m. m) Inr ?skip ?da (?s, []) =
     (Inl (ErrorString ''additional properties not allowed in Spec: [bogus]''),
      [[(''x-a'', JNumber ''1'')]])"
  proof -
    from ta extensions_decode_Inr fa ma ua obtain h' where
      "Spec_UnmarshalJSON (\<lambda>m. m) Inr ?skip ?da (?s, []) =
       (Inl (ErrorString (''additional properties not allowed in Spec: ['' @ ''bogus'' @ '']'')), h')"
      by blast
    then show ?thesis using ha by simp
  qed
  have b: "\<exists>ks h'. mset ks = mset [''bogus'', ''zed'']
        \<and> Spec_UnmarshalJSON (\<lambda>m. m) Inr ?skip ?db (?s, []) =
         (Inl (ErrorString (''additional properties not allowed in Spec: '' @ fmt_strings ks)), h')"
    using tb extensions_decode_Inr fb mb ub by (metis list.distinct(1))
  have c: "Parameter_UnmarshalJSON (\<lambda>m. m) Inr ?skip ?dc (?p, []) =
     (Inl (ErrorString ''additional properties not allowed in Parameter: [bogus]''), [])"
  proof -
    from tc extensions_decode_Inr fc mc uc obtain h' where
      "Parameter_UnmarshalJSON (\<lambda>m. m) Inr ?skip ?dc (?p, []) =
       (Inl (ErrorString (''additional properties not allowed in Parameter: ['' @ ''bogus'' @ '']'')), h')"
      by blast
    then show ?thesis using hc by simp
  qed
  have d: "Spec_UnmarshalJSON (\<lambda>m. m) Inr ?skip ?dd (?s, []) =
     (Inr \<lparr>Spec.Known = (), MapOfAnything = Some 0\<rparr>, [[(''x-a'', JNumber ''1'')]])"
  proof -
    from td extensions_decode_Inr fd md ud obtain moa h' where
      "Spec_UnmarshalJSON (\<lambda>m. m) Inr ?skip ?dd (?s, []) =
       (Inr \<lparr>Spec.Known = (), MapOfAnything = moa\<rparr>, h')"
      by blast
    then show ?thesis using rd by simp
  qed
  have e: "Parameter_UnmarshalJSON (\<lambda>m. m) Inr ?skip (JObject ?ke) (?p, []) =
     (Inl (ErrorString ''additional properties not allowed in Parameter: [bogus]''), [])"
  proof -
    have "skips_unselected knownKeysParameter ?skip
        \<and> [''bogus''] \<noteq> [] \<and> distinct [''bogus''] \<and> set [''bogus''] \<subseteq> fst ` set ?ke
        \<and> (\<forall>key\<in>set [''bogus'']. selects_no_field knownKeysParameter key
                              \<and> \<not> regexX_MatchString key)
        \<and> Parameter_UnmarshalJSON (\<lambda>m. m) Inr ?skip
             (JObject (filter (\<lambda>kv. fst kv \<notin> set [''bogus'']) ?ke)) (?p, []) = (Inr ?mp, [])"
      using skips_unselected_skip_member ne oe by simp
    from te[OF this] obtain ks h'' where
      ks: "mset ks = mset [''bogus'']"
      "Parameter_UnmarshalJSON (\<lambda>m. m) Inr ?skip (JObject ?ke) (?p, []) =
         (Inl (ErrorString (''additional properties not allowed in Parameter: ''
                            @ fmt_strings ks)), h'')"
      by blast
    have "ks = [''bogus'']" using ks(1) by (rule mset_single_list)
    then show ?thesis using ks(2) he by (simp add: fmt_strings_single)
  qed
  from a b c d e show ?thesis by blast
qed

text \<open>
  Claim C5 as stated has a key outside the known keys and the \<^verbatim>\<open>x-\<close> pattern, added to a
  valid payload, reported as an additional property. Known keys are compared exactly, but
  \<^verbatim>\<open>encoding/json\<close> matches member keys with field names ignoring case. Counterexample: the
  key \<^verbatim>\<open>STYLE\<close> is neither a known key nor an \<^verbatim>\<open>x-\<close> key; added with the value
  \<^verbatim>\<open>"bogus"\<close> to a valid Parameter payload it selects the style field of the path and query
  arms of the location, whose enumerations reject the value, and decoding fails with the
  oneOf error of ParameterLocation instead.
\<close>

theorem folded_key_fails_earlier:
  "Parameter_UnmarshalJSON (\<lambda>m. m) Inr skip_member
       (JObject [(''name'', JString ''id''), (''in'', JString ''query''), (''schema'', JObject []),
                 (''STYLE'', JString ''bogus'')])
       (\<lparr>Parameter.Known = (), Example = None, SchemaXORContent = None, Location = None,
          MapOfAnything = None\<rparr>, []) =
     (Inl (ErrorString ''oneOf constraint failed for ParameterLocation with 0 valid results: map[CookieParameter:bad const value for \"in\" (\"cookie\" expected, \"query\" received) HeaderParameter:bad const value for \"in\" (\"header\" expected, \"query\" received) PathParameter:unexpected PathParameterStyle value: bogus QueryParameter:unexpected QueryParameterStyle value: bogus]''), [])
   \<and> unconsumed knownKeysParameter
       (JObject [(''name'', JString ''id''), (''in'', JString ''query''), (''schema'', JObject []),
                 (''STYLE'', JString ''bogus'')]) = [''STYLE'']
   \<and> Parameter_UnmarshalJSON (\<lambda>m. m) Inr skip_member
       (JObject [(''name'', JString ''id''), (''in'', JString ''query''), (''schema'', JObject [])])
       (\<lparr>Parameter.Known = (), Example = None, SchemaXORContent = None, Location = None,
          MapOfAnything = None\<rparr>, []) =
     (Inr \<lparr>Parameter.Known = (), Example = None,
            SchemaXORContent = Some \<lparr>HasSchema = Some \<lparr>HasSchema.Schema = JObject []\<rparr>,
                                      HasContent = None\<rparr>,
            Location = Some \<lparr>PathParameter = None,
                QueryParameter = Some \<lparr>QueryParameter.Style = None\<rparr>,
                HeaderParameter = None, CookieParameter = None\<rparr>,
            MapOfAnything = None\<rparr>, [])"
  by code_simp

subsection \<open>The form of the errors\<close>

text \<open>
  Claim C9 (as amended). Every error that these decoders raise themselves is a value made
  by \<^verbatim>\<open>errors.New\<close> or \<^verbatim>\<open>fmt.Errorf\<close>, whose only content is its message: the name of the
  missing required key, the \<^verbatim>\<open>%v\<close> rendering of the list of offending keys, the count and the
  \<^verbatim>\<open>%v\<close> rendering of the map of arm errors of a oneOf failure, the expected and the received
  text of a constant mismatch are printed into the message. The other errors are those of
  \<^verbatim>\<open>encoding/json\<close> (from decoding the tagged fields or an extension value), passed on as they
  are.
\<close>

theorem errors_are_messages:
  "(Spec_UnmarshalJSON rng any decf data (s, h) = (Inl e, h') \<longrightarrow>
      (\<exists>k h1. Spec_fields decf data (s, h) = (Some e, k, h1))
    \<or> (\<exists>v. any v = Inl e)
    \<or> (\<exists>key\<in>set requireKeysSpec. e = ErrorString (''required key missing: '' @ key))
    \<or> (\<exists>ks. e = ErrorString (''additional properties not allowed in Spec: '' @ fmt_strings ks)))
   \<and> (Parameter_UnmarshalJSON rng any decfP dataP (p, hp) = (Inl eP, hp') \<longrightarrow>
      (\<exists>mp h1. json_Unmarshal_marshalParameter any decfP dataP (p, hp) = (Some eP, mp, h1))
    \<or> eP = ErrorString ''not constraint failed for SchemaXORContent''
    \<or> (\<exists>n errs. eP = ErrorString (''oneOf constraint failed for SchemaXORContent with ''
                          @ itoa n @ '' valid results: '' @ fmt_errors errs))
    \<or> (\<exists>n errs. eP = ErrorString (''oneOf constraint failed for ParameterLocation with ''
                          @ itoa n @ '' valid results: '' @ fmt_errors errs))
    \<or> (\<exists>v. any v = Inl eP)
    \<or> (\<exists>key\<in>set requireKeysParameter. eP = ErrorString (''required key missing: '' @ key))
    \<or> (\<exists>ks. eP = ErrorString (''additional properties not allowed in Parameter: ''
                                @ fmt_strings ks)))
   \<and> (ParameterLocation_UnmarshalJSON data' pl = Inl e' \<longrightarrow>
        (\<exists>n errs. e' = ErrorString (''oneOf constraint failed for ParameterLocation with ''
                          @ itoa n @ '' valid results: '' @ fmt_errors errs)))
   \<and> (PathParameter_UnmarshalJSON data'' pp = Inl e'' \<longrightarrow>
        (\<exists>mp. json_Unmarshal_marshalPathParameter data'' pp = (Some e'', mp))
      \<or> e'' = ErrorString ''required key missing: required''
      \<or> (\<exists>key lit v. e'' = ErrorString (''bad const value for '' @ quote key @ '' ('' @ lit
                              @ '' expected, '' @ raw v @ '' received)'')))"
proof (intro conjI impI)
  assume "Spec_UnmarshalJSON rng any decf data (s, h) = (Inl e, h')"
  from Spec_error_cases[OF this] show
    "(\<exists>k h1. Spec_fields decf data (s, h) = (Some e, k, h1))
    \<or> (\<exists>v. any v = Inl e)
    \<or> (\<exists>key\<in>set requireKeysSpec. e = ErrorString (''required key missing: '' @ key))
    \<or> (\<exists>ks. e = ErrorString (''additional properties not allowed in Spec: '' @ fmt_strings ks))" .
next
  assume "Parameter_UnmarshalJSON rng any decfP dataP (p, hp) = (Inl eP, hp')"
  from Parameter_error_cases[OF this] show
    "(\<exists>mp h1. json_Unmarshal_marshalParameter any decfP dataP (p, hp) = (Some eP, mp, h1))
    \<or> eP = ErrorString ''not constraint failed for SchemaXORContent''
    \<or> (\<exists>n errs. eP = ErrorString (''oneOf constraint failed for SchemaXORContent with ''
                          @ itoa n @ '' valid results: '' @ fmt_errors errs))
    \<or> (\<exists>n errs. eP = ErrorString (''oneOf constraint failed for ParameterLocation with ''
                          @ itoa n @ '' valid results: '' @ fmt_errors errs))
    \<or> (\<exists>v. any v = Inl eP)
    \<or> (\<exists>key\<in>set requireKeysParameter. eP = ErrorString (''required key missing: '' @ key))
    \<or> (\<exists>ks. eP = ErrorString (''additional properties not allowed in Parameter: ''
                                @ fmt_strings ks))"
    unfolding oneOf_error_def by simp
next
  assume "ParameterLocation_UnmarshalJSON data' pl = Inl e'"
  then show "\<exists>n errs. e' = ErrorString (''oneOf constraint failed for ParameterLocation with ''
                          @ itoa n @ '' valid results: '' @ fmt_errors errs)"
    unfolding ParameterLocation_result oneOf_outcome_def oneOf_error_def
    by (auto split: if_splits simp del: itoa.simps)
next
  assume "PathParameter_UnmarshalJSON data'' pp = Inl e''"
  from PathParameter_error_cases[OF this] show
    "(\<exists>mp. json_Unmarshal_marshalPathParameter data'' pp = (Some e'', mp))
      \<or> e'' = ErrorString ''required key missing: required''
      \<or> (\<exists>key lit v. e'' = ErrorString (''bad const value for '' @ quote key @ '' ('' @ lit
                              @ '' expected, '' @ raw v @ '' received)''))"
    unfolding const_mismatch_def by simp
qed

text \<open>
  Instances of the C9 theorem: the error for one offending key, the oneOf error of the
  empty object, and a constant mismatch of the path arm.
\<close>

theorem errors_are_messages_witness:
  "Spec_UnmarshalJSON (\<lambda>m. m) Inr skip_member
         (JObject [(''openapi'', JString ''3.0.3''),
                   (''info'', JObject [(''title'', JString ''t''), (''version'', JString ''1'')]),
                   (''paths'', JObject []), (''bogus'', JNull)])
         (\<lparr>Spec.Known = (), MapOfAnything = None\<rparr>, []) =
     (Inl (ErrorString (''additional properties not allowed in Spec: '' @ fmt_strings [''bogus''])), [])
   \<and> ParameterLocation_UnmarshalJSON (JObject [])
        \<lparr>PathParameter = None, QueryParameter = None, HeaderParameter = None,
          CookieParameter = None\<rparr> =
      Inl (ErrorString (''oneOf constraint failed for ParameterLocation with '' @ itoa 3
              @ '' valid results: ''
              @ fmt_errors [(''PathParameter'', ErrorString ''required key missing: required'')]))
   \<and> (\<exists>key lit v. PathParameter_UnmarshalJSON
          (JObject [(''in'', JString ''path''), (''required'', JBool False)])
          \<lparr>PathParameter.Style = None\<rparr> =
        Inl (ErrorString (''bad const value for '' @ quote key @ '' ('' @ lit
                              @ '' expected, '' @ raw v @ '' received)'')))"
proof -
  let ?skip = "skip_member :: string \<Rightarrow> json \<Rightarrow> unit \<times> heap \<Rightarrow> (unit \<times> heap) outcome"
  let ?s = "\<lparr>Spec.Known = (), MapOfAnything = None\<rparr>"
  let ?d1 = "JObject [(''openapi'', JString ''3.0.3''),
                   (''info'', JObject [(''title'', JString ''t''), (''version'', JString ''1'')]),
                   (''paths'', JObject []), (''bogus'', JNull)]"
  let ?d3 = "JObject [(''in'', JString ''path''), (''required'', JBool False)]"
  let ?pl = "\<lparr>PathParameter = None, QueryParameter = None, HeaderParameter = None,
          CookieParameter = None\<rparr>"
  let ?pp = "\<lparr>PathParameter.Style = None\<rparr>"
  let ?e3 = "ErrorString ''bad const value for \"required\" (true expected, false received)''"
  have a: "Spec_UnmarshalJSON (\<lambda>m. m) Inr ?skip ?d1 (?s, []) =
     (Inl (ErrorString (''additional properties not allowed in Spec: '' @ fmt_strings [''bogus''])), [])"
    by code_simp
  have b: "ParameterLocation_UnmarshalJSON (JObject []) ?pl =
      Inl (ErrorString (''oneOf constraint failed for ParameterLocation with '' @ itoa 3
              @ '' valid results: ''
              @ fmt_errors [(''PathParameter'', ErrorString ''required key missing: required'')]))"
    by code_simp
  have c: "PathParameter_UnmarshalJSON ?d3 ?pp = Inl ?e3"
    and c1: "json_Unmarshal_marshalPathParameter ?d3 ?pp = (None, ?pp)"
    by code_simp+
  have c2: "?e3 \<noteq> ErrorString ''required key missing: required''" by simp
  from errors_are_messages [where data'' = ?d3 and pp = ?pp and e'' = ?e3,
      THEN conjunct2, THEN conjunct2, THEN conjunct2] c c1 c2
  have "\<exists>key lit v. ?e3 = ErrorString (''bad const value for '' @ quote key @ '' ('' @ lit
                              @ '' expected, '' @ raw v @ '' received)'')"
    by simp
  then have "\<exists>key lit v. PathParameter_UnmarshalJSON ?d3 ?pp =
        Inl (ErrorString (''bad const value for '' @ quote key @ '' ('' @ lit
                              @ '' expected, '' @ raw v @ '' received)''))"
    unfolding c by simp
  with a b show ?thesis by blast
qed

text \<open>
  Claim C9 as stated has the offending keys carried as data that a caller can take out of
  the error. Counterexample: a payload with the one unrecognized key \<^verbatim>\<open>a b\<close> and a payload
  with the two unrecognized keys \<^verbatim>\<open>a\<close> and \<^verbatim>\<open>b\<close> (ranged over in that order) fail with the
  same error value, so the key list cannot be recovered from it.
\<close>

theorem error_text_ambiguous:
  "Spec_UnmarshalJSON (\<lambda>m. m) Inr skip_member
         (JObject [(''openapi'', JString ''3.0.3''),
                   (''info'', JObject [(''title'', JString ''t''), (''version'', JString ''1'')]),
                   (''paths'', JObject []), (''a b'', JNull)])
         (\<lparr>Spec.Known = (), MapOfAnything = None\<rparr>, []) =
     (Inl (ErrorString ''additional properties not allowed in Spec: [a b]''), [])
   \<and> Spec_UnmarshalJSON (\<lambda>m. m) Inr skip_member
         (JObject [(''openapi'', JString ''3.0.3''),
                   (''info'', JObject [(''title'', JString ''t''), (''version'', JString ''1'')]),
                   (''paths'', JObject []), (''a'', JNull), (''b'', JNull)])
         (\<lparr>Spec.Known = (), MapOfAnything = None\<rparr>, []) =
     (Inl (ErrorString ''additional properties not allowed in Spec: [a b]''), [])
   \<and> unconsumed knownKeysSpec
         (JObject [(''openapi'', JString ''3.0.3''),
                   (''info'', JObject [(''title'', JString ''t''), (''version'', JString ''1'')]),
                   (''paths'', JObject []), (''a b'', JNull)]) = [''a b'']
   \<and> unconsumed knownKeysSpec
         (JObject [(''openapi'', JString ''3.0.3''),
                   (''info'', JObject [(''title'', JString ''t''), (''version'', JString ''1'')]),
                   (''paths'', JObject []), (''a'', JNull), (''b'', JNull)]) = [''a'', ''b'']"
  by code_simp

subsection \<open>Extension maps after a failed decode\<close>




subsection \<open>Encoders as trees\<close>

text \<open>When every fragment handed to \<^verbatim>\<open>marshalUnion\<close> is \<^verbatim>\<open>null\<close> or the rendering of an
  object, the result is the rendering of the object that holds the members of all fragments
  in order. The encoders of the parameter location, of the schema-or-content group and of
  Parameter are of this kind.\<close>

lemma intercalate_Nil_iff: "(\<forall>x\<in>set xs. x \<noteq> []) \<Longrightarrow> intercalate sep xs = [] \<longleftrightarrow> xs = []"
  by (induction sep xs rule: intercalate.induct) auto

lemma intercalate_append:
  "xs \<noteq> [] \<Longrightarrow> ys \<noteq> [] \<Longrightarrow> intercalate sep (xs @ ys) = intercalate sep xs @ sep @ intercalate sep ys"
proof (induction sep xs rule: intercalate.induct)
  case (1 sep)
  then show ?case by simp
next
  case (2 sep x)
  then show ?case by (cases ys) auto
next
  case (3 sep x y ys)
  then show ?case by simp
qed

lemma raw_member_nonempty: "raw_member m \<noteq> []"
  by (cases m) (simp add: quote_def)

lemma raw_object: "raw (JObject ms) = CHR ''{'' # intercalate '','' (map raw_member ms) @ ''}''"
  by simp

lemma members_text_Nil_iff: "intercalate '','' (map raw_member ms) = [] \<longleftrightarrow> ms = []"
  using intercalate_Nil_iff[of "map raw_member ms" "'',''"] raw_member_nonempty by auto

lemma raw_object_skipped: "skipped (raw (JObject ms)) \<longleftrightarrow> ms = []"
  using members_text_Nil_iff[of ms] by (auto simp: skipped_def)

lemma raw_object_marshalled: "marshalled (raw (JObject ms))" "is_object_fragment (raw (JObject ms))"
  by (simp_all add: marshalled_def is_object_fragment_def)

lemma members_text_raw_object:
  "members_text (raw (JObject ms)) = intercalate '','' (map raw_member ms)"
  by (simp add: members_text_def butlast_append)

lemma fragment_text: "fragment ms = Inr (text_of ms)"
  by (simp add: fragment_def text_of_def)

lemma text_of_facts:
  "marshalled (text_of ms)"
  "skipped (text_of ms) \<longleftrightarrow> members_of ms = []"
  "\<not> skipped (text_of ms) \<Longrightarrow> is_object_fragment (text_of ms)"
  "\<not> skipped (text_of ms) \<Longrightarrow> members_text (text_of ms) = intercalate '','' (map raw_member (members_of ms))"
proof -
  show "marshalled (text_of ms)"
    by (cases ms) (simp_all add: text_of_def marshalled_def is_object_fragment_def)
  show s: "skipped (text_of ms) \<longleftrightarrow> members_of ms = []"
    using raw_object_skipped by (cases ms) (auto simp: text_of_def members_of_def skipped_def)
  show "\<not> skipped (text_of ms) \<Longrightarrow> is_object_fragment (text_of ms)"
    by (cases ms) (simp_all add: text_of_def skipped_def is_object_fragment_def)
  show "\<not> skipped (text_of ms) \<Longrightarrow> members_text (text_of ms) = intercalate '','' (map raw_member (members_of ms))"
    using members_text_raw_object by (cases ms) (auto simp: text_of_def members_of_def skipped_def)
qed

lemma intercalate_groups:
  "intercalate '','' (map (\<lambda>ms. intercalate '','' (map raw_member ms)) (filter (\<lambda>ms. ms \<noteq> []) mss))
   = intercalate '','' (map raw_member (concat mss))"
proof (induction mss)
  case Nil
  then show ?case by simp
next
  case (Cons ms mss)
  show ?case
  proof (cases "ms = []")
    case True
    then show ?thesis using Cons by simp
  next
    case ne: False
    show ?thesis
    proof (cases "concat mss = []")
      case True
      then have "filter (\<lambda>ms. ms \<noteq> []) mss = []" by (induction mss) auto
      moreover have "concat (ms # mss) = ms" using True by simp
      ultimately show ?thesis using ne by (simp del: concat.simps)
    next
      case False
      then have f: "filter (\<lambda>ms. ms \<noteq> []) mss \<noteq> []" by (induction mss) auto
      then obtain g gs where g: "filter (\<lambda>ms. ms \<noteq> []) mss = g # gs"
        by (cases "filter (\<lambda>ms. ms \<noteq> []) mss") auto
      have "intercalate '','' (map raw_member (concat (ms # mss))) =
            intercalate '','' (map raw_member ms) @ '','' @ intercalate '','' (map raw_member (concat mss))"
        using ne False by (simp add: intercalate_append)
      then show ?thesis using Cons ne g by simp
    qed
  qed
qed

lemma marshalUnion_fragments:
  "marshalUnion (map fragment mss) = Inr (raw (JObject (concat (map members_of mss))))"
proof -
  let ?js = "map text_of mss"
  have m: "\<forall>j\<in>set ?js. marshalled j" by (auto simp: text_of_facts)
  have o: "\<forall>j\<in>set (kept ?js). is_object_fragment j" by (auto simp: kept_def text_of_facts)
  have k: "map members_text (kept ?js) =
        map (\<lambda>ms. intercalate '','' (map raw_member ms)) (filter (\<lambda>ms. ms \<noteq> []) (map members_of mss))"
    by (induction mss) (auto simp: kept_def text_of_facts)
  have eq: "map fragment mss = map Inr ?js" by (simp add: fragment_text)
  show ?thesis
    unfolding eq using marshalUnion_objects[OF m o] by (simp add: k intercalate_groups)
qed

lemma loop_Inr_all:
  "marshalUnion_loop st fs = Inr st' \<Longrightarrow> \<forall>f\<in>set fs. \<exists>j. f = Inr j"
proof (induction st fs rule: marshalUnion_loop.induct)
  case (1 result isObject)
  then show ?case by simp
next
  case (2 result isObject m maps)
  show ?case
  proof (cases m)
    case (Inl e)
    then show ?thesis using "2.prems" by (simp add: loop_error)
  next
    case (Inr j)
    show ?thesis
      using "2.prems" "2.IH" Inr
      by (cases j) (auto simp: marshalUnion_loop.simps(2) split: if_splits)
  qed
qed

lemma marshalUnion_Inr_all:
  "marshalUnion fs = Inr out \<Longrightarrow> \<forall>f\<in>set fs. \<exists>j. f = Inr j"
  using loop_Inr_all[of "(''{'', True)" fs]
  by (auto simp: marshalUnion_def split: sum.splits)

lemma fragment_cases:
  "fragment None = Inr ''null''" "fragment (Some ms) = Inr (raw (JObject ms))"
  by (simp_all add: fragment_def)

lemma all_fragments: "\<forall>f\<in>set fs. \<exists>ms. f = fragment ms \<Longrightarrow> \<exists>mss. fs = map fragment mss"
proof (induction fs)
  case Nil
  then show ?case by simp
next
  case (Cons a fs)
  then obtain m mss where "a = fragment m" "fs = map fragment mss" by auto
  then have "a # fs = map fragment (m # mss)" by simp
  then show ?case by (rule exI)
qed

lemma marshalUnion_of_fragments:
  assumes "marshalUnion fs = Inr out"
    and "\<forall>f\<in>set fs. \<forall>j. f = Inr j \<longrightarrow> (\<exists>ms. f = fragment ms)"
  shows "\<exists>mss. fs = map fragment mss \<and> out = raw (JObject (concat (map members_of mss)))"
proof -
  have "\<forall>f\<in>set fs. \<exists>ms. f = fragment ms"
    using marshalUnion_Inr_all[OF assms(1)] assms(2) by blast
  then obtain mss where mss: "fs = map fragment mss"
    using all_fragments by blast
  have "out = raw (JObject (concat (map members_of mss)))"
    using assms(1) unfolding mss marshalUnion_fragments by simp
  then show ?thesis using mss by blast
qed













subsection \<open>The Example field of Parameter\<close>










subsection \<open>Encoding, then decoding\<close>













end
